(* ===== verification/Prelude.thy ===== *)
theory Prelude
  imports Main "HOL-Library.Word" "HOL-Library.Sublist"
begin

text \<open>
  Shared vocabulary of the development: the widths of the C++ integer types,
  the reading of a \<^verbatim>\<open>char\<close> as a number, the \<^verbatim>\<open>string_view\<close> operations the sources use, and
  the sum type that carries exceptions and error codes.  The collections
  \<open>char_simps\<close>, \<open>view_simps\<close> and \<open>res_simps\<close> gather the rewrite rules the component
  theories hand to the simplifier.
\<close>

named_theorems char_simps \<open>character classes as ranges of character codes\<close>
named_theorems view_simps \<open>string view operations as list operations\<close>
named_theorems res_simps \<open>fallible results\<close>

subsection \<open>Machine integers\<close>

type_synonym u8 = "8 word"
type_synonym u16 = "16 word"
type_synonym u32 = "32 word"
type_synonym u64 = "64 word"

subsection \<open>Characters\<close>

text \<open>
  \<^verbatim>\<open>char\<close> is signed on the platforms the library's continuous integration builds for, so
  a comparison such as \<^verbatim>\<open>c > 0x20\<close> reads the byte as two's complement.
\<close>

definition byte :: "char \<Rightarrow> int" where
  "byte c = int (of_char c)"

definition schar :: "char \<Rightarrow> int" where
  "schar c = (if byte c < 128 then byte c else byte c - 256)"

lemma byte_range: "0 \<le> byte c" "byte c < 256"
  using nat_of_char_less_256 [of c] by (simp_all add: byte_def)

lemma byte_inject [simp]: "byte c = byte d \<longleftrightarrow> c = d"
  by (simp add: byte_def)

lemma schar_range: "-128 \<le> schar c" "schar c < 128"
  using byte_range [of c] unfolding schar_def by auto

lemma schar_inject [simp]: "schar c = schar d \<longleftrightarrow> c = d"
proof
  assume "schar c = schar d"
  then have "byte c = byte d"
    using byte_range [of c] byte_range [of d] unfolding schar_def by (auto split: if_splits)
  then show "c = d" by simp
qed simp

lemma schar_ge_iff_byte: "0 \<le> n \<Longrightarrow> n < 128 \<Longrightarrow> n \<le> schar c \<longleftrightarrow> n \<le> byte c \<and> byte c < 128"
  using byte_range [of c] unfolding schar_def by auto

definition is_digit :: "char \<Rightarrow> bool" where
  "is_digit c \<longleftrightarrow> 48 \<le> byte c \<and> byte c \<le> 57"

definition is_alpha :: "char \<Rightarrow> bool" where
  "is_alpha c \<longleftrightarrow> (65 \<le> byte c \<and> byte c \<le> 90) \<or> (97 \<le> byte c \<and> byte c \<le> 122)"

text \<open>ASCII case folding, the comparison of header field names.\<close>

definition to_lower :: "char \<Rightarrow> char" where
  "to_lower c = (if 65 \<le> byte c \<and> byte c \<le> 90 then char_of (nat (byte c + 32)) else c)"

definition ci_equal :: "string \<Rightarrow> string \<Rightarrow> bool" where
  "ci_equal a b \<longleftrightarrow> map to_lower a = map to_lower b"

lemma ci_equal_refl [simp]: "ci_equal a a"
  by (simp add: ci_equal_def)

lemma ci_equal_sym: "ci_equal a b \<longleftrightarrow> ci_equal b a"
  by (auto simp: ci_equal_def)

lemma ci_equal_trans: "ci_equal a b \<Longrightarrow> ci_equal b c \<longleftrightarrow> ci_equal a c"
  by (simp add: ci_equal_def)

subsection \<open>String views\<close>

definition starts_with :: "'a list \<Rightarrow> 'a list \<Rightarrow> bool" where
  "starts_with s p \<longleftrightarrow> take (length p) s = p"

definition ends_with :: "'a list \<Rightarrow> 'a list \<Rightarrow> bool" where
  "ends_with s p \<longleftrightarrow> length p \<le> length s \<and> drop (length s - length p) s = p"

lemma starts_with_append [simp, view_simps]: "starts_with (p @ s) p"
  by (simp add: starts_with_def)

lemma starts_with_iff: "starts_with s p \<longleftrightarrow> (\<exists>t. s = p @ t)"
  by (metis append_take_drop_id append_eq_conv_conj starts_with_def)

lemma ends_with_iff: "ends_with s p \<longleftrightarrow> (\<exists>t. s = t @ p)"
proof
  assume "ends_with s p"
  then have "s = take (length s - length p) s @ p"
    by (metis append_take_drop_id ends_with_def)
  then show "\<exists>t. s = t @ p" ..
qed (auto simp: ends_with_def)

lemma starts_with_length: "starts_with s p \<Longrightarrow> length p \<le> length s"
  by (auto simp: starts_with_iff)

lemma ends_with_length: "ends_with s p \<Longrightarrow> length p \<le> length s"
  by (simp add: ends_with_def)

text \<open>\<^verbatim>\<open>string_view::find(ch)\<close>: the position of the first occurrence, or \<^verbatim>\<open>npos\<close>.\<close>

fun find_char :: "char \<Rightarrow> string \<Rightarrow> nat option" where
  "find_char c [] = None"
| "find_char c (x # xs) = (if x = c then Some 0 else map_option Suc (find_char c xs))"

lemma find_char_None [view_simps]: "find_char c s = None \<longleftrightarrow> c \<notin> set s"
  by (induction s) auto

lemma find_char_Some:
  "find_char c s = Some n \<Longrightarrow> n < length s \<and> s ! n = c \<and> c \<notin> set (take n s)"
  by (induction s arbitrary: n) (auto split: if_splits)

lemma find_char_append [simp]: "c \<notin> set s \<Longrightarrow> find_char c (s @ c # t) = Some (length s)"
  by (induction s) auto

lemma find_char_split:
  assumes "find_char c s = Some n"
  shows "s = take n s @ c # drop (Suc n) s"
  using find_char_Some [OF assms] by (metis id_take_nth_drop)

lemma int_div_less:
  assumes "0 < d" "n < m * (d :: int)"
  shows "n div d < m"
proof -
  have "n div d * d \<le> n" by (metis assms(1) div_mult_mod_eq le_add_same_cancel1 pos_mod_sign)
  then have "n div d * d < m * d" using assms(2) by linarith
  then show ?thesis using assms(1) by (simp only: mult_less_cancel_right_pos)
qed

lemma exI2: "P a b \<Longrightarrow> \<exists>x y. P x y"
  by blast

subsection \<open>Fallible results\<close>

text \<open>
  \<^verbatim>\<open>Inl\<close> is the error: a thrown exception, or the error of a \<^verbatim>\<open>system::result\<close>.
\<close>

fun rmap :: "('a \<Rightarrow> 'b) \<Rightarrow> 'e + 'a \<Rightarrow> 'e + 'b" where
  "rmap f (Inl e) = Inl e"
| "rmap f (Inr x) = Inr (f x)"

fun rbind :: "'e + 'a \<Rightarrow> ('a \<Rightarrow> 'e + 'b) \<Rightarrow> 'e + 'b" where
  "rbind (Inl e) k = Inl e"
| "rbind (Inr x) k = k x"

lemma rmap_Inr_iff [res_simps]: "rmap f r = Inr y \<longleftrightarrow> (\<exists>x. r = Inr x \<and> y = f x)"
  by (cases r) auto

lemma rmap_Inl_iff [res_simps]: "rmap f r = Inl e \<longleftrightarrow> r = Inl e"
  by (cases r) auto

lemma rmap_rmap [simp]: "rmap f (rmap g r) = rmap (f \<circ> g) r"
  by (cases r) auto

lemma rmap_id [simp]: "rmap (\<lambda>x. x) r = r"
  by (cases r) auto

lemma rbind_Inr_iff [res_simps]: "rbind r k = Inr y \<longleftrightarrow> (\<exists>x. r = Inr x \<and> k x = Inr y)"
  by (cases r) auto

lemma rbind_Inl_iff [res_simps]: "rbind r k = Inl e \<longleftrightarrow> r = Inl e \<or> (\<exists>x. r = Inr x \<and> k x = Inl e)"
  by (cases r) auto

definition is_ok :: "'e + 'a \<Rightarrow> bool" where
  "is_ok r \<longleftrightarrow> (case r of Inl _ \<Rightarrow> False | Inr _ \<Rightarrow> True)"

lemma is_ok_simps [simp]: "is_ok (Inr x)" "\<not> is_ok (Inl e)"
  by (simp_all add: is_ok_def)

lemma is_ok_iff [res_simps]: "is_ok r \<longleftrightarrow> (\<exists>x. r = Inr x)"
  by (cases r) auto

subsection \<open>Decimal numbers\<close>

text \<open>\<^verbatim>\<open>std::to_string\<close> and stream insertion of an unsigned number, and the value of a digit
  string as \<^verbatim>\<open>std::stoull\<close> accumulates it (before any overflow check).\<close>

definition digit_char :: "nat \<Rightarrow> char" where
  "digit_char n = char_of (48 + n)"

definition digit_val :: "char \<Rightarrow> nat" where
  "digit_val c = nat (byte c - 48)"

fun show_nat :: "nat \<Rightarrow> string" where
  "show_nat n = (if n < 10 then [digit_char n] else show_nat (n div 10) @ [digit_char (n mod 10)])"

declare show_nat.simps [simp del]

definition read_nat :: "string \<Rightarrow> nat" where
  "read_nat s = foldl (\<lambda>a c. 10 * a + digit_val c) 0 s"

lemma byte_digit_char: "n < 10 \<Longrightarrow> byte (digit_char n) = 48 + int n"
  by (simp add: byte_def digit_char_def)

lemma digit_val_digit_char [simp]: "n < 10 \<Longrightarrow> digit_val (digit_char n) = n"
  by (simp add: digit_val_def byte_digit_char)

lemma is_digit_digit_char [simp]: "n < 10 \<Longrightarrow> is_digit (digit_char n)"
  by (simp add: is_digit_def byte_digit_char)

lemma read_nat_snoc: "read_nat (s @ [c]) = 10 * read_nat s + digit_val c"
  by (simp add: read_nat_def)

lemma read_show_nat [simp]: "read_nat (show_nat n) = n"
proof (induction n rule: show_nat.induct)
  case (1 n)
  then show ?case
    by (cases "n < 10") (simp_all add: show_nat.simps [of n] read_nat_snoc, simp add: read_nat_def)
qed

lemma show_nat_digits: "list_all is_digit (show_nat n)"
  by (induction n rule: show_nat.induct) (subst show_nat.simps, simp)

lemma show_nat_not_Nil [simp]: "show_nat n \<noteq> []"
  by (subst show_nat.simps) simp

lemma show_nat_inject [simp]: "show_nat m = show_nat n \<longleftrightarrow> m = n"
  by (metis read_show_nat)

lemma show_nat_hd_zero: "hd (show_nat n) = digit_char 0 \<longleftrightarrow> n = 0"
proof (induction n rule: show_nat.induct)
  case (1 n)
  show ?case
  proof (cases "n < 10")
    case True
    have "digit_char n = digit_char 0 \<longleftrightarrow> n = 0"
      using True by (metis digit_val_digit_char zero_less_numeral)
    with True show ?thesis by (simp add: show_nat.simps [of n])
  next
    case False
    with 1 show ?thesis by (simp add: show_nat.simps [of n] div_eq_0_iff)
  qed
qed

lemma digit_char_zero: "digit_char 0 = CHR ''0''"
  by code_simp

lemma show_nat_zero: "show_nat 0 = [CHR ''0'']"
  by (simp add: show_nat.simps [of 0] digit_char_def) code_simp

end
