(* ===== verification/Except.thy ===== *)
theory Except
  imports Prelude
begin

text \<open>
  The exceptions the library and the example programs throw
  (\<^verbatim>\<open>src/detail/except.cpp\<close> and the \<^verbatim>\<open>throw\<close> expressions of the clients) as values, and the
  error categories with their message tables.  \<open>undefined_behaviour\<close> is not an exception of
  the program: a model returns it where the C++ execution has no meaning (a read outside a
  view, a signed overflow), so that a theorem saying a call returns excludes it.
\<close>

datatype exn =
    bad_typeid
  | invalid_argument string
  | logic_error string
  | runtime_error string
  | out_of_range string
  | system_error string
  | bad_optional_access
  | undefined_behaviour string

text \<open>\<^verbatim>\<open>throw_bad_typeid\<close>, \<^verbatim>\<open>throw_invalid_argument\<close> and \<^verbatim>\<open>throw_logic_error\<close>: the call does
  not return, its value is the exception.\<close>

definition throw_bad_typeid :: "exn + 'a" where
  "throw_bad_typeid = Inl bad_typeid"

definition throw_invalid_argument :: "string \<Rightarrow> exn + 'a" where
  "throw_invalid_argument s = Inl (invalid_argument s)"

definition throw_logic_error :: "string \<Rightarrow> exn + 'a" where
  "throw_logic_error s = Inl (logic_error s)"

lemmas throw_defs [simp] = throw_bad_typeid_def throw_invalid_argument_def throw_logic_error_def

subsection \<open>Number parsing of the standard library\<close>

text \<open>\<^verbatim>\<open>std::stoll\<close> in base ten: white space, an optional sign, then digits up to the first
  other character; no digits and values that do not fit throw.\<close>

definition is_space :: "char \<Rightarrow> bool" where
  "is_space c \<longleftrightarrow> c = CHR '' '' \<or> (9 \<le> byte c \<and> byte c \<le> 13)"

definition stoll :: "string \<Rightarrow> exn + int" where
  "stoll s =
     (let s1 = dropWhile is_space s;
          neg = (s1 \<noteq> [] \<and> hd s1 = CHR ''-'');
          s2 = (if s1 \<noteq> [] \<and> (hd s1 = CHR ''-'' \<or> hd s1 = CHR ''+'') then tl s1 else s1);
          ds = takeWhile is_digit s2;
          n = (if neg then - int (read_nat ds) else int (read_nat ds)) in
      if ds = [] then Inl (invalid_argument ''stoll'')
      else if - (2 ^ 63) \<le> n \<and> n < 2 ^ 63 then Inr n
      else Inl (out_of_range ''stoll''))"

text \<open>\<^verbatim>\<open>std::stoull\<close>: the same text, reduced modulo two to the 64 after a minus sign.\<close>

definition stoull :: "string \<Rightarrow> exn + u64" where
  "stoull s =
     (let s1 = dropWhile is_space s;
          neg = (s1 \<noteq> [] \<and> hd s1 = CHR ''-'');
          s2 = (if s1 \<noteq> [] \<and> (hd s1 = CHR ''-'' \<or> hd s1 = CHR ''+'') then tl s1 else s1);
          ds = takeWhile is_digit s2 in
      if ds = [] then Inl (invalid_argument ''stoull'')
      else if read_nat ds < 2 ^ 64
      then Inr (if neg then - of_nat (read_nat ds) else of_nat (read_nat ds))
      else Inl (out_of_range ''stoull''))"

lemma digit_not_space: "is_digit c \<Longrightarrow> \<not> is_space c"
  by (auto simp: is_digit_def is_space_def byte_def)

lemma stoull_digits:
  assumes "s \<noteq> []" "list_all is_digit s"
  shows "stoull s = (if read_nat s < 2 ^ 64 then Inr (of_nat (read_nat s)) else Inl (out_of_range ''stoull''))"
proof -
  have hd: "is_digit (hd s)" using assms(1,2) by (cases s) auto
  have dw: "dropWhile is_space s = s" using assms(1) digit_not_space [OF hd] by (cases s) auto
  moreover have "hd s \<noteq> CHR ''-''" "hd s \<noteq> CHR ''+''"
    using hd by (auto simp: is_digit_def byte_def)
  moreover have tw: "takeWhile is_digit s = s"
    using assms(2) by (simp add: list_all_iff takeWhile_eq_all_conv)
  ultimately show ?thesis using assms(1) by (simp add: stoull_def Let_def dw tw)
qed

subsection \<open>Lines of a text\<close>

text \<open>Successive \<^verbatim>\<open>getline\<close> calls: the text between newlines; a last line needs no newline.\<close>

function get_lines :: "string \<Rightarrow> string list" where
  "get_lines s =
     (if s = [] then []
      else takeWhile (\<lambda>c. c \<noteq> CHR 0x0A) s # get_lines (drop 1 (dropWhile (\<lambda>c. c \<noteq> CHR 0x0A) s)))"
  by pat_completeness auto
termination
proof (relation "measure length", simp, simp)
  fix s :: string assume ne: "s \<noteq> []"
  have "length (dropWhile (\<lambda>c. c \<noteq> CHR 0x0A) s) \<le> length s" by (rule length_dropWhile_le)
  moreover have "0 < length s" using ne by simp
  ultimately show "length (dropWhile (\<lambda>c. c \<noteq> CHR 0x0A) s) - Suc 0 < length s" by linarith
qed

declare get_lines.simps [simp del]

subsection \<open>Error codes and layers\<close>

text \<open>An error code of Boost.System is a number and a category; a category that does not say
  otherwise counts every number but zero as a failure.\<close>

record error_code =
  ec_value :: int
  ec_category :: string

definition no_error :: error_code where
  "no_error = \<lparr>ec_value = 0, ec_category = ''system''\<rparr>"

definition ec_failed :: "error_code \<Rightarrow> bool" where
  "ec_failed ec \<longleftrightarrow> ec_value ec \<noteq> 0"

text \<open>The library's own category and that of the burl client.\<close>

datatype beast2_error = beast2_success

primrec beast2_error_value :: "beast2_error \<Rightarrow> int" where
  "beast2_error_value beast2_success = 0"

definition beast2_error_message :: "int \<Rightarrow> string" where
  "beast2_error_message code =
     (if code = beast2_error_value beast2_success then ''http::error::success'' else ''http::error::?'')"

definition beast2_make_error_code :: "beast2_error \<Rightarrow> error_code" where
  "beast2_make_error_code ev = \<lparr>ec_value = beast2_error_value ev, ec_category = ''boost.beast2''\<rparr>"

datatype burl_error = binary_output_to_tty

primrec burl_error_value :: "burl_error \<Rightarrow> int" where
  "burl_error_value binary_output_to_tty = 1"

definition burl_error_message :: "int \<Rightarrow> string" where
  "burl_error_message ev =
     (if ev = burl_error_value binary_output_to_tty then ''binary output to tty'' else ''Unknown burl error'')"

definition burl_make_error_code :: "burl_error \<Rightarrow> error_code" where
  "burl_make_error_code e = \<lparr>ec_value = burl_error_value e, ec_category = ''burl''\<rparr>"

text \<open>The error the client's sink reports is a failure; the library's only code is none.\<close>

lemma burl_error_fails: "ec_failed (burl_make_error_code binary_output_to_tty)"
  "\<not> ec_failed (beast2_make_error_code beast2_success)"
  by (simp_all add: ec_failed_def burl_make_error_code_def beast2_make_error_code_def)

text \<open>The two layers of a secure stream.\<close>

datatype stream_layer = Tls_layer | Tcp_layer

end
