(* ===== verification/Format.thy ===== *)
theory Format
  imports Except
begin

text \<open>
  \<^verbatim>\<open>include/boost/beast2/format.hpp\<close>: the brace formatter behind the logger.  The state
  is that of \<^verbatim>\<open>detail::format_impl\<close>: the output stream, the format string and the two
  pointers \<^verbatim>\<open>p0\<close> and \<^verbatim>\<open>p\<close> into it, kept as positions.  An argument is the text its
  stream insertion operator writes.  The theory shows that the pointer machine computes
  the left-to-right reading \<open>fmt_spec\<close> of a format string.
\<close>

record format_impl =
  f_os :: string
  f_fs :: string
  f_p :: nat
  f_p0 :: nat
  f_has_placeholder :: bool

definition format_impl_init :: "string \<Rightarrow> string \<Rightarrow> format_impl" where
  "format_impl_init os fs =
     \<lparr>f_os = os, f_fs = fs, f_p = 0, f_p0 = 0, f_has_placeholder = False\<rparr>"

abbreviation msg_open :: string where
  "msg_open \<equiv> ''invalid format string, unmatched {''"

abbreviation msg_close :: string where
  "msg_close \<equiv> ''invalid format string, unmatched }''"

abbreviation msg_few :: string where
  "msg_few \<equiv> ''too few format arguments provided''"

text \<open>The view \<^verbatim>\<open>string_view(p0, n)\<close> and the state update a returning \<^verbatim>\<open>next\<close> makes.\<close>

definition seg_of :: "format_impl \<Rightarrow> nat \<Rightarrow> string" where
  "seg_of st n = take n (drop (f_p0 st) (f_fs st))"

function next_loop :: "format_impl \<Rightarrow> bool \<Rightarrow> bool \<Rightarrow> exn + (string \<times> format_impl)" where
  "next_loop st unmatched_open unmatched_close =
     (if f_p st < length (f_fs st) then
        (let ch = f_fs st ! f_p st; p = f_p st + 1 in
         if unmatched_open then
           (if ch = CHR ''{'' then
              Inr (seg_of st ((p - 1) - f_p0 st), st\<lparr>f_p := p, f_p0 := p\<rparr>)
            else if ch = CHR ''}'' then
              Inr (seg_of st ((p - 2) - f_p0 st),
                   st\<lparr>f_p := p, f_p0 := p, f_has_placeholder := True\<rparr>)
            else throw_invalid_argument msg_open)
         else if unmatched_close then
           (if ch = CHR ''}'' then
              Inr (seg_of st ((p - 1) - f_p0 st), st\<lparr>f_p := p, f_p0 := p\<rparr>)
            else throw_invalid_argument msg_close)
         else next_loop (st\<lparr>f_p := p\<rparr>) (ch = CHR ''{'') (ch = CHR ''}''))
      else if unmatched_open then throw_invalid_argument msg_open
      else if unmatched_close then throw_invalid_argument msg_close
      else Inr (seg_of st (length (f_fs st) - f_p0 st), st\<lparr>f_p0 := length (f_fs st)\<rparr>))"
  by pat_completeness auto
termination
  by (relation "measure (\<lambda>(st, _, _). length (f_fs st) - f_p st)") auto

declare next_loop.simps [simp del]

definition next_seg :: "format_impl \<Rightarrow> exn + (string \<times> format_impl)" where
  "next_seg st = next_loop (st\<lparr>f_has_placeholder := False\<rparr>) False False"

text \<open>\<^verbatim>\<open>os.write\<close> and \<^verbatim>\<open>os << arg\<close>.\<close>

definition os_write :: "format_impl \<Rightarrow> string \<Rightarrow> format_impl" where
  "os_write st s = st\<lparr>f_os := f_os st @ s\<rparr>"

lemma os_write_sel [simp]:
  "f_os (os_write st s) = f_os st @ s" "f_fs (os_write st s) = f_fs st"
  "f_p (os_write st s) = f_p st" "f_p0 (os_write st s) = f_p0 st"
  "f_has_placeholder (os_write st s) = f_has_placeholder st"
  by (simp_all add: os_write_def)

text \<open>How \<^verbatim>\<open>next\<close> moves the pointers, on any state: this is what ends the loops below.\<close>

lemma next_loop_moves:
  "next_loop st uo uc = Inr (seg, st') \<Longrightarrow>
     f_fs st' = f_fs st \<and> f_os st' = f_os st \<and> f_p st \<le> f_p st' \<and>
     (f_p st < length (f_fs st) \<longrightarrow> f_p st < f_p st') \<and>
     (length (f_fs st) \<le> f_p st \<longrightarrow>
        f_p0 st' = length (f_fs st) \<and> (seg \<noteq> [] \<longrightarrow> f_p0 st < length (f_fs st)))"
proof (induction st uo uc rule: next_loop.induct)
  case (1 st uo uc)
  show ?case
  proof (cases "f_p st < length (f_fs st) \<and> \<not> uo \<and> \<not> uc")
    case True
    then have "next_loop (st\<lparr>f_p := f_p st + 1\<rparr>) (f_fs st ! f_p st = CHR ''{'')
                 (f_fs st ! f_p st = CHR ''}'') = Inr (seg, st')"
      using "1.prems" by (simp add: next_loop.simps [of st] Let_def)
    from "1.IH" [OF _ refl refl _ _ this] True show ?thesis by simp
  next
    case False
    then show ?thesis
      using "1.prems"
      by (auto simp: next_loop.simps [of st] Let_def seg_of_def split: if_splits)
  qed
qed

lemma next_seg_moves:
  assumes "next_seg st = Inr (seg, st')"
  shows "f_fs st' = f_fs st" "f_os st' = f_os st"
    and "f_p st \<le> f_p st'"
    and "f_p st < length (f_fs st) \<Longrightarrow> f_p st < f_p st'"
    and "length (f_fs st) \<le> f_p st \<Longrightarrow> f_p0 st' = length (f_fs st)"
    and "length (f_fs st) \<le> f_p st \<Longrightarrow> seg \<noteq> [] \<Longrightarrow> f_p0 st < length (f_fs st)"
  using next_loop_moves [OF assms [unfolded next_seg_def]] by auto

text \<open>
  \<^verbatim>\<open>do_arg\<close>: write segments until one ends in a placeholder or is empty, then the
  argument.  A throw carries the state at that moment, because the stream it has written
  to outlives the call.
\<close>

definition seg_measure :: "((format_impl \<times> string) \<times> (format_impl \<times> string)) set" where
  "seg_measure = measures [\<lambda>(st, seg). length (f_fs st) - f_p st,
     \<lambda>(st, seg). length (f_fs st) - f_p0 st, \<lambda>(st, seg). if seg = [] then 0 else 1]"

lemma seg_measure_next:
  assumes "next_seg st = Inr (seg', st')" and "seg \<noteq> []"
  shows "((st', seg'), (st, seg)) \<in> seg_measure"
proof (cases "f_p st < length (f_fs st)")
  case True
  with next_seg_moves(1,4) [OF assms(1)] show ?thesis
    by (auto simp: seg_measure_def)
next
  case False
  then show ?thesis
    using next_seg_moves(1,3,5,6) [OF assms(1)] assms(2)
    by (cases "seg' = []") (auto simp: seg_measure_def)
qed

function do_arg_loop :: "format_impl \<Rightarrow> string \<Rightarrow> (exn \<times> format_impl) + format_impl" where
  "do_arg_loop st seg =
     (if seg = [] then Inr st
      else let st1 = os_write st seg in
        if f_has_placeholder st1 then Inr st1
        else (case next_seg st1 of
                Inl e \<Rightarrow> Inl (e, st1)
              | Inr (seg', st2) \<Rightarrow> do_arg_loop st2 seg'))"
  by pat_completeness auto
termination
proof (relation seg_measure)
  show "wf seg_measure" by (simp add: seg_measure_def)
next
  fix st seg st1 y seg' st2
  assume *: "seg \<noteq> []" "st1 = os_write st seg" "next_seg st1 = Inr y" "(seg', st2) = y"
  then have "((st2, seg'), (st1, seg)) \<in> seg_measure"
    by (intro seg_measure_next) auto
  with * show "((st2, seg'), (st, seg)) \<in> seg_measure"
    by (simp add: seg_measure_def)
qed

declare do_arg_loop.simps [simp del]

definition do_arg :: "format_impl \<Rightarrow> string \<Rightarrow> (exn \<times> format_impl) + format_impl" where
  "do_arg st arg =
     (case next_seg st of
        Inl e \<Rightarrow> Inl (e, st)
      | Inr (seg, st1) \<Rightarrow>
          rmap (\<lambda>st2. if f_has_placeholder st2 then os_write st2 arg else st2)
            (do_arg_loop st1 seg))"

fun do_args :: "format_impl \<Rightarrow> string list \<Rightarrow> (exn \<times> format_impl) + format_impl" where
  "do_args st [] = Inr st"
| "do_args st (a # as) = rbind (do_arg st a) (\<lambda>st'. do_args st' as)"

text \<open>The trailing \<^verbatim>\<open>do ... while(seg.size())\<close> of \<^verbatim>\<open>operator()\<close>.\<close>

function do_rest :: "format_impl \<Rightarrow> (exn \<times> format_impl) + format_impl" where
  "do_rest st =
     (case next_seg st of
        Inl e \<Rightarrow> Inl (e, st)
      | Inr (seg, st1) \<Rightarrow>
          if f_has_placeholder st1 then Inl (invalid_argument msg_few, st1)
          else if seg = [] then Inr st1
          else do_rest (os_write st1 seg))"
  by pat_completeness auto
termination
proof (relation "inv_image seg_measure (\<lambda>st. (st, ''x''))")
  show "wf (inv_image seg_measure (\<lambda>st. (st, ''x'')))" by (simp add: seg_measure_def)
next
  fix st y seg st1
  assume *: "next_seg st = Inr y" "(seg, st1) = y" "seg \<noteq> []"
  then have n: "next_seg st = Inr (seg, st1)" by simp
  show "(os_write st1 seg, st) \<in> inv_image seg_measure (\<lambda>st. (st, ''x''))"
  proof (cases "f_p st < length (f_fs st)")
    case True
    with next_seg_moves(1,4) [OF n] show ?thesis by (auto simp: seg_measure_def)
  next
    case False
    with next_seg_moves(1,3,5,6) [OF n] * show ?thesis by (auto simp: seg_measure_def)
  qed
qed

declare do_rest.simps [simp del]

definition format_call :: "format_impl \<Rightarrow> string list \<Rightarrow> (exn \<times> format_impl) + format_impl" where
  "format_call st args = rbind (do_args st args) do_rest"

text \<open>\<^verbatim>\<open>format_to(std::string&, ...)\<close>: \<^verbatim>\<open>appendbuf\<close> passes every write on to the end of the
  destination, so the stream is the destination string.\<close>

definition format_to :: "string \<Rightarrow> string \<Rightarrow> string list \<Rightarrow> (exn \<times> string) + string" where
  "format_to dest fs args =
     (case format_call (format_impl_init dest fs) args of
        Inl (e, st) \<Rightarrow> Inl (e, f_os st)
      | Inr st \<Rightarrow> Inr (f_os st))"

subsection \<open>The reading of a format string\<close>

text \<open>
  The promise of the formatter, character by character: a doubled brace is that brace,
  \<^verbatim>\<open>{}\<close> takes the next argument, any other brace is an error, surplus arguments are
  ignored.
\<close>

fun fmt_spec :: "string \<Rightarrow> string list \<Rightarrow> exn + string" where
  "fmt_spec [] args = Inr []"
| "fmt_spec (c # s) args =
     (if c = CHR ''{'' then
        (case s of
           [] \<Rightarrow> Inl (invalid_argument msg_open)
         | d # s' \<Rightarrow>
             if d = CHR ''{'' then rmap (Cons d) (fmt_spec s' args)
             else if d = CHR ''}'' then
               (case args of
                  [] \<Rightarrow> Inl (invalid_argument msg_few)
                | a # as \<Rightarrow> rmap (append a) (fmt_spec s' as))
             else Inl (invalid_argument msg_open))
      else if c = CHR ''}'' then
        (case s of
           [] \<Rightarrow> Inl (invalid_argument msg_close)
         | d # s' \<Rightarrow>
             if d = CHR ''}'' then rmap (Cons d) (fmt_spec s' args)
             else Inl (invalid_argument msg_close))
      else rmap (Cons c) (fmt_spec s args))"

text \<open>\<^verbatim>\<open>next\<close> on the unread part of the format string: segment, placeholder flag, rest.\<close>

fun lnext :: "string \<Rightarrow> exn + (string \<times> bool \<times> string)" where
  "lnext [] = Inr ([], False, [])"
| "lnext (c # s) =
     (if c = CHR ''{'' then
        (case s of
           [] \<Rightarrow> Inl (invalid_argument msg_open)
         | d # s' \<Rightarrow>
             if d = CHR ''{'' then Inr ([c], False, s')
             else if d = CHR ''}'' then Inr ([], True, s')
             else Inl (invalid_argument msg_open))
      else if c = CHR ''}'' then
        (case s of
           [] \<Rightarrow> Inl (invalid_argument msg_close)
         | d # s' \<Rightarrow>
             if d = CHR ''}'' then Inr ([c], False, s') else Inl (invalid_argument msg_close))
      else rmap (\<lambda>(seg, h, r). (c # seg, h, r)) (lnext s))"

lemma rmap_append_Cons [simp]: "rmap (append (c # s)) r = rmap (\<lambda>t. c # s @ t) r"
  by (cases r) auto

lemma rmap_append_Nil [simp]: "rmap (append []) r = r"
  by (cases r) auto

lemma rmap_append_append [simp]: "rmap (append (s @ t)) r = rmap (\<lambda>u. s @ t @ u) r"
  by (cases r) auto

lemma lnext_spec_Inl: "lnext s = Inl e \<Longrightarrow> fmt_spec s args = Inl e"
  by (induction s rule: lnext.induct) (auto split: if_splits list.splits simp: res_simps)

lemma lnext_spec_hole:
  "lnext s = Inr (seg, True, r) \<Longrightarrow>
     fmt_spec s args =
       (case args of [] \<Rightarrow> Inl (invalid_argument msg_few)
        | a # as \<Rightarrow> rmap (\<lambda>t. seg @ a @ t) (fmt_spec r as))"
  by (induction s arbitrary: seg rule: lnext.induct)
    (auto split: if_splits list.splits simp: res_simps comp_def)

lemma lnext_spec_text:
  "lnext s = Inr (seg, False, r) \<Longrightarrow> fmt_spec s args = rmap (\<lambda>t. seg @ t) (fmt_spec r args)"
  by (induction s arbitrary: seg rule: lnext.induct)
    (auto split: if_splits list.splits simp: res_simps comp_def)

lemma lnext_text_empty: "lnext s = Inr ([], False, r) \<Longrightarrow> s = [] \<and> r = []"
  by (cases s) (auto split: if_splits list.splits simp: res_simps)

subsection \<open>The pointer machine computes the reading\<close>

lemma take_drop_snoc:
  "p0 \<le> p \<Longrightarrow> p < length xs \<Longrightarrow>
     take (Suc p - p0) (drop p0 xs) = take (p - p0) (drop p0 xs) @ [xs ! p]"
  by (simp add: Suc_diff_le take_Suc_conv_app_nth)

lemma next_loop_lnext:
  assumes "f_p0 st \<le> f_p st" "f_p st \<le> length (f_fs st)" "\<not> f_has_placeholder st"
  shows "next_loop st False False =
     rmap (\<lambda>(seg, h, r). (seg_of st (f_p st - f_p0 st) @ seg,
             st\<lparr>f_p := length (f_fs st) - length r, f_p0 := length (f_fs st) - length r,
                f_has_placeholder := h\<rparr>))
       (lnext (drop (f_p st) (f_fs st)))"
  using assms
proof (induction "length (f_fs st) - f_p st" arbitrary: st rule: less_induct)
  case less
  let ?p = "f_p st" and ?fs = "f_fs st"
  show ?case
  proof (cases "?p < length ?fs")
    case False
    with less.prems show ?thesis
      by (simp add: next_loop.simps [of st])
  next
    case True
    define c where "c = ?fs ! ?p"
    have dr: "drop ?p ?fs = c # drop (Suc ?p) ?fs"
      using True by (simp add: Cons_nth_drop_Suc c_def)
    have seg: "seg_of st (Suc ?p - f_p0 st) = seg_of st (?p - f_p0 st) @ [c]"
      using True less.prems(1) by (simp add: seg_of_def take_drop_snoc c_def)
    show ?thesis
    proof (cases "c = CHR ''{'' \<or> c = CHR ''}''")
      case False
      have "next_loop st False False = next_loop (st\<lparr>f_p := Suc ?p\<rparr>) False False"
        using True False by (simp add: next_loop.simps [of st] Let_def c_def)
      also have "\<dots> = rmap (\<lambda>(seg, h, r). (seg_of st (Suc ?p - f_p0 st) @ seg,
             st\<lparr>f_p := length ?fs - length r, f_p0 := length ?fs - length r,
                f_has_placeholder := h\<rparr>)) (lnext (drop (Suc ?p) ?fs))"
        using less.hyps [of "st\<lparr>f_p := Suc ?p\<rparr>"] less.prems True
        by (simp add: seg_of_def)
      finally show ?thesis
        using False by (cases "lnext (drop (Suc ?p) ?fs)") (auto simp: dr seg)
    next
      case brace: True
      show ?thesis
      proof (cases "Suc ?p < length ?fs")
        case False
        then show ?thesis
          using True brace less.prems
          by (auto simp: next_loop.simps [of st] next_loop.simps [of "st\<lparr>f_p := Suc ?p\<rparr>"]
              Let_def dr c_def [symmetric])
      next
        case two: True
        then have dr2: "drop (Suc ?p) ?fs = ?fs ! Suc ?p # drop (Suc (Suc ?p)) ?fs"
          by (simp add: Cons_nth_drop_Suc)
        have len: "length ?fs - (length ?fs - Suc (Suc ?p)) = Suc (Suc ?p)"
          using two by simp
        show ?thesis
          using True two brace less.prems len
          by (auto simp: next_loop.simps [of st] next_loop.simps [of "st\<lparr>f_p := Suc ?p\<rparr>"]
              Let_def dr dr2 c_def [symmetric] seg seg_of_def [of "st\<lparr>f_p := _\<rparr>"]
              seg_of_def [of st, symmetric])
      qed
    qed
  qed
qed

text \<open>A state between two calls of \<^verbatim>\<open>next\<close>: everything before \<^verbatim>\<open>p\<close> has been handed out.\<close>

definition between :: "format_impl \<Rightarrow> string \<Rightarrow> string \<Rightarrow> bool" where
  "between st out rest \<longleftrightarrow>
     f_os st = out \<and> f_p0 st = f_p st \<and> f_p st \<le> length (f_fs st) \<and> drop (f_p st) (f_fs st) = rest"

lemma between_init: "between (format_impl_init dest fs) dest fs"
  by (simp add: between_def format_impl_init_def)

lemma between_write: "between st out rest \<Longrightarrow> between (os_write st s) (out @ s) rest"
  by (simp add: between_def)

lemma lnext_rest_length: "lnext s = Inr (seg, h, r) \<Longrightarrow> \<exists>t. s = t @ r"
  by (induction s arbitrary: seg rule: lnext.induct)
    (auto split: if_splits list.splits simp: res_simps)

lemma next_seg_between:
  assumes "between st out rest"
  shows "case lnext rest of
       Inl e \<Rightarrow> next_seg st = Inl e
     | Inr (seg, h, r) \<Rightarrow> \<exists>st'. next_seg st = Inr (seg, st') \<and> between st' out r \<and>
                          f_has_placeholder st' = h"
proof -
  let ?st = "st\<lparr>f_has_placeholder := False\<rparr>"
  have n: "next_seg st = rmap (\<lambda>(seg, h, r). (seg,
        ?st\<lparr>f_p := length (f_fs st) - length r, f_p0 := length (f_fs st) - length r,
           f_has_placeholder := h\<rparr>)) (lnext rest)"
    using assms next_loop_lnext [of ?st]
    by (simp add: next_seg_def between_def seg_of_def)
  show ?thesis
  proof (cases "lnext rest")
    case (Inl e)
    with n show ?thesis by simp
  next
    case (Inr x)
    obtain seg h r where x: "x = (seg, h, r)" by (cases x)
    obtain t where t: "rest = t @ r"
      using lnext_rest_length Inr x by blast
    have "f_fs st = take (f_p st) (f_fs st) @ t @ r"
      using assms t by (metis append_take_drop_id between_def)
    then have "drop (length (f_fs st) - length r) (f_fs st) = r"
      by (metis append.assoc append_eq_conv_conj diff_add_inverse2 length_append)
    then show ?thesis
      using n Inr x assms by (auto simp: between_def)
  qed
qed

lemma do_arg_loop_spec:
  assumes "between st out r" and "\<not> f_has_placeholder st \<Longrightarrow> seg = [] \<Longrightarrow> r = []"
    and "sp = (if f_has_placeholder st then rmap (\<lambda>u. seg @ a @ u) (fmt_spec r as)
               else rmap (append seg) (fmt_spec r (a # as)))"
  shows "case do_arg_loop st seg of
       Inl (e, st') \<Rightarrow> sp = Inl e \<and> (\<exists>t. f_os st' = out @ t)
     | Inr st' \<Rightarrow> \<exists>t r'. between st' (out @ t) r' \<and>
          (if f_has_placeholder st' then sp = rmap (\<lambda>u. t @ a @ u) (fmt_spec r' as)
           else r' = [] \<and> sp = Inr t)"
  using assms
proof (induction st seg arbitrary: out r sp rule: do_arg_loop.induct)
  case (1 st seg)
  show ?case
  proof (cases "seg = []")
    case True
    then have "do_arg_loop st seg = Inr st"
      by (simp add: do_arg_loop.simps [of st "[]"])
    with True "1.prems" show ?thesis
      by simp (rule exI [of _ "[]"], auto)
  next
    case False
    let ?st1 = "os_write st seg"
    have b1: "between ?st1 (out @ seg) r"
      using "1.prems"(1) by (rule between_write)
    show ?thesis
    proof (cases "f_has_placeholder st")
      case True
      with False b1 "1.prems"(3) show ?thesis
        by (simp add: do_arg_loop.simps [of st seg] Let_def) (rule exI2 [of _ seg r], simp)
    next
      case noh: False
      show ?thesis
      proof (cases "lnext r")
        case (Inl e)
        then have "next_seg ?st1 = Inl e"
          using next_seg_between [OF b1] by simp
        moreover have "fmt_spec r (a # as) = Inl e"
          using Inl by (rule lnext_spec_Inl)
        ultimately show ?thesis
          using False noh "1.prems"(1,3)
          by (auto simp: do_arg_loop.simps [of st seg] Let_def between_def)
      next
        case (Inr x)
        obtain seg' h r' where x: "x = (seg', h, r')" by (cases x)
        obtain st2 where st2: "next_seg ?st1 = Inr (seg', st2)" "between st2 (out @ seg) r'"
          "f_has_placeholder st2 = h"
          using next_seg_between [OF b1] Inr x by auto
        let ?sp = "if h then rmap (\<lambda>u. seg' @ a @ u) (fmt_spec r' as)
                   else rmap (append seg') (fmt_spec r' (a # as))"
        have sp: "sp = rmap (append seg) ?sp"
          using "1.prems"(3) noh lnext_spec_hole [of r seg' r' "a # as"]
            lnext_spec_text [of r seg' r' "a # as"] Inr x
          by auto
        have "\<not> h \<Longrightarrow> seg' = [] \<Longrightarrow> r' = []"
          using Inr x lnext_text_empty [of r r'] by auto
        then have IH: "case do_arg_loop st2 seg' of
             Inl (e, st') \<Rightarrow> ?sp = Inl e \<and> (\<exists>t. f_os st' = (out @ seg) @ t)
           | Inr st' \<Rightarrow> \<exists>t r''. between st' ((out @ seg) @ t) r'' \<and>
                (if f_has_placeholder st' then ?sp = rmap (\<lambda>u. t @ a @ u) (fmt_spec r'' as)
                 else r'' = [] \<and> ?sp = Inr t)"
          using "1.IH" [OF False refl _ st2(1) refl st2(2)] st2(3) noh by simp
        have step: "do_arg_loop st seg = do_arg_loop st2 seg'"
          using False noh st2(1) by (simp add: do_arg_loop.simps [of st seg] Let_def)
        show ?thesis
        proof (cases "do_arg_loop st2 seg'")
          case (Inl y)
          with IH step sp show ?thesis by (cases y) auto
        next
          case (Inr st')
          with IH obtain t r'' where tr: "between st' ((out @ seg) @ t) r''"
            "if f_has_placeholder st' then ?sp = rmap (\<lambda>u. t @ a @ u) (fmt_spec r'' as)
             else r'' = [] \<and> ?sp = Inr t" by auto
          then show ?thesis
            using Inr step sp
            by simp (rule exI2 [of _ "seg @ t" r''], auto simp: comp_def split: if_splits)
        qed
      qed
    qed
  qed
qed

lemma do_arg_spec:
  assumes "between st out rest"
  shows "case do_arg st a of
       Inl (e, st') \<Rightarrow> fmt_spec rest (a # as) = Inl e \<and> (\<exists>t. f_os st' = out @ t)
     | Inr st' \<Rightarrow> \<exists>t r. between st' (out @ t) r \<and>
          fmt_spec rest (a # as) = rmap (append t) (fmt_spec r as)"
proof (cases "lnext rest")
  case (Inl e)
  with next_seg_between [OF assms] lnext_spec_Inl [OF Inl, of "a # as"] assms show ?thesis
    by (auto simp: do_arg_def between_def)
next
  case (Inr x)
  obtain seg h r where x: "x = (seg, h, r)" by (cases x)
  obtain st1 where st1: "next_seg st = Inr (seg, st1)" "between st1 out r"
    "f_has_placeholder st1 = h"
    using next_seg_between [OF assms] Inr x by auto
  have sp: "fmt_spec rest (a # as) =
      (if f_has_placeholder st1 then rmap (\<lambda>u. seg @ a @ u) (fmt_spec r as)
       else rmap (append seg) (fmt_spec r (a # as)))"
    using Inr x st1(3) lnext_spec_hole [of rest seg r "a # as"]
      lnext_spec_text [of rest seg r "a # as"] by auto
  have "\<not> f_has_placeholder st1 \<Longrightarrow> seg = [] \<Longrightarrow> r = []"
    using Inr x st1(3) lnext_text_empty [of rest r] by auto
  from do_arg_loop_spec [OF st1(2) this sp] show ?thesis
  proof (cases "do_arg_loop st1 seg")
    case (Inr st')
    with do_arg_loop_spec [OF st1(2) \<open>_ \<Longrightarrow> _ \<Longrightarrow> r = []\<close> sp] obtain t r'
      where tr: "between st' (out @ t) r'"
        "if f_has_placeholder st'
         then fmt_spec rest (a # as) = rmap (\<lambda>u. t @ a @ u) (fmt_spec r' as)
         else r' = [] \<and> fmt_spec rest (a # as) = Inr t" by auto
    show ?thesis
    proof (cases "f_has_placeholder st'")
      case True
      with tr Inr st1(1) between_write [OF tr(1), of a] show ?thesis
        by (simp add: do_arg_def) (rule exI2 [of _ "t @ a" r'], auto)
    next
      case False
      with tr Inr st1(1) show ?thesis
        by (simp add: do_arg_def) (rule exI2 [of _ t "[]"], auto)
    qed
  qed (auto simp: do_arg_def st1(1) split: prod.splits)
qed

lemma do_args_spec:
  assumes "between st out rest"
  shows "case do_args st args of
       Inl (e, st') \<Rightarrow> fmt_spec rest args = Inl e \<and> (\<exists>t. f_os st' = out @ t)
     | Inr st' \<Rightarrow> \<exists>t r. between st' (out @ t) r \<and>
          fmt_spec rest args = rmap (append t) (fmt_spec r [])"
  using assms
proof (induction args arbitrary: st out rest)
  case Nil
  then show ?case
    by simp (rule exI [of _ "[]"], auto)
next
  case (Cons a as)
  show ?case
  proof (cases "do_arg st a")
    case (Inl x)
    with do_arg_spec [OF Cons.prems, of a as] show ?thesis by (cases x) auto
  next
    case (Inr st1)
    with do_arg_spec [OF Cons.prems, of a as] obtain t r where tr:
      "between st1 (out @ t) r" "fmt_spec rest (a # as) = rmap (append t) (fmt_spec r as)"
      by auto
    show ?thesis
    proof (cases "do_args st1 as")
      case (Inl x)
      with Cons.IH [OF tr(1)] Inr tr(2) show ?thesis by (cases x) auto
    next
      case (Inr st2)
      with Cons.IH [OF tr(1)] obtain u r' where
        "between st2 ((out @ t) @ u) r'" "fmt_spec r as = rmap (append u) (fmt_spec r' [])"
        by auto
      with Inr \<open>do_arg st a = Inr st1\<close> tr(2) show ?thesis
        by simp (rule exI2 [of _ "t @ u" r'], simp add: comp_def)
    qed
  qed
qed

lemma do_rest_spec:
  assumes "between st out rest"
  shows "case do_rest st of
       Inl (e, st') \<Rightarrow> fmt_spec rest [] = Inl e \<and> (\<exists>t. f_os st' = out @ t)
     | Inr st' \<Rightarrow> \<exists>t. fmt_spec rest [] = Inr t \<and> f_os st' = out @ t"
  using assms
proof (induction st arbitrary: out rest rule: do_rest.induct)
  case (1 st)
  show ?case
  proof (cases "lnext rest")
    case (Inl e)
    with next_seg_between [OF "1.prems"] lnext_spec_Inl [OF Inl, of "[]"] "1.prems"
    show ?thesis by (auto simp: do_rest.simps [of st] between_def)
  next
    case (Inr x)
    obtain seg h r where x: "x = (seg, h, r)" by (cases x)
    obtain st1 where st1: "next_seg st = Inr (seg, st1)" "between st1 out r"
      "f_has_placeholder st1 = h"
      using next_seg_between [OF "1.prems"] Inr x by auto
    show ?thesis
    proof (cases "h \<or> seg = []")
      case True
      then show ?thesis
        using st1 Inr x lnext_spec_hole [of rest seg r "[]"] lnext_text_empty [of rest r]
        by (auto simp: do_rest.simps [of st] between_def)
    next
      case False
      with "1.IH" [OF st1(1) refl _ _ between_write [OF st1(2)]] st1(3)
      have "case do_rest (os_write st1 seg) of
          Inl (e, st') \<Rightarrow> fmt_spec r [] = Inl e \<and> (\<exists>t. f_os st' = (out @ seg) @ t)
        | Inr st' \<Rightarrow> \<exists>t. fmt_spec r [] = Inr t \<and> f_os st' = (out @ seg) @ t" by auto
      then show ?thesis
        using False st1 Inr x lnext_spec_text [of rest seg r "[]"]
        by (cases "do_rest (os_write st1 seg)")
          (auto simp: do_rest.simps [of st] split: prod.splits)
    qed
  qed
qed

lemma format_to_cases:
  "case fmt_spec fs args of
     Inl e \<Rightarrow> \<exists>t. format_to dest fs args = Inl (e, dest @ t)
   | Inr t \<Rightarrow> format_to dest fs args = Inr (dest @ t)"
proof (cases "do_args (format_impl_init dest fs) args")
  case (Inl x)
  with do_args_spec [OF between_init [of dest fs], of args] show ?thesis
    by (cases x) (auto simp: format_to_def format_call_def)
next
  case (Inr st)
  with do_args_spec [OF between_init [of dest fs], of args] obtain t r where tr:
    "between st (dest @ t) r" "fmt_spec fs args = rmap (append t) (fmt_spec r [])"
    by auto
  from do_rest_spec [OF tr(1)] tr(2) Inr show ?thesis
    by (cases "do_rest st") (auto simp: format_to_def format_call_def split: prod.splits)
qed


subsection \<open>Escaping\<close>

definition escape_braces :: "string \<Rightarrow> string" where
  "escape_braces s = concat (map (\<lambda>c. if c = CHR ''{'' \<or> c = CHR ''}'' then [c, c] else [c]) s)"

lemma fmt_spec_escape: "fmt_spec (escape_braces s @ fs) args = rmap (append s) (fmt_spec fs args)"
  by (induction s) (auto simp: escape_braces_def comp_def)

text \<open>
  A text whose braces are doubled is written unchanged, whatever arguments are passed
  beside it.
\<close>

theorem format_to_escaped: "format_to dest (escape_braces s) args = Inr (dest @ s)"
  using format_to_cases [where fs = "escape_braces s" and args = args and dest = dest] fmt_spec_escape [of s "[]" args]
  by simp

end
