(* ===== verification/Logger.thy ===== *)
theory Logger
  imports Format
begin

text \<open>
  \<^verbatim>\<open>include/boost/beast2/logger.hpp\<close>, \<^verbatim>\<open>src/logger.cpp\<close> and \<^verbatim>\<open>src/log_service.cpp\<close>: named
  log sections.  A \<^verbatim>\<open>section\<close> is a shared pointer to its \<^verbatim>\<open>impl\<close>, modelled as an address
  into a heap of \<open>section_impl\<close> records, so that two handles to the same section are the
  same value.  The hash map's keys are views of the names stored in that heap, as in the
  source.  Every operation of \<^verbatim>\<open>log_sections\<close> runs under its mutex, so concurrent use is a
  sequence of the operations below.
\<close>

unbundle bit_operations_syntax

subsection \<open>Sections\<close>

record section_impl =
  sec_name :: string
  sec_level :: int

type_synonym section_ptr = nat

text \<open>The constructor \<^verbatim>\<open>section(string_view)\<close>: a fresh \<^verbatim>\<open>impl\<close> with level 0.\<close>

definition make_section :: "string \<Rightarrow> section_impl" where
  "make_section nm = \<lparr>sec_name = nm, sec_level = 0\<rparr>"

definition section_name :: "section_impl list \<Rightarrow> section_ptr \<Rightarrow> string" where
  "section_name h p = sec_name (h ! p)"

definition section_threshold :: "section_impl list \<Rightarrow> section_ptr \<Rightarrow> int" where
  "section_threshold h p = sec_level (h ! p)"

text \<open>\<^verbatim>\<open>section::write\<close>: the line goes to the error stream whatever its level.\<close>

definition section_write :: "string \<Rightarrow> int \<Rightarrow> string \<Rightarrow> string" where
  "section_write cerr level s = cerr @ s @ [CHR 0x0A]"

text \<open>\<^verbatim>\<open>section::operator()\<close>: format into a local string, then write it at level 0.  When
  formatting throws, nothing reaches the error stream.\<close>

definition section_call :: "string \<Rightarrow> string \<Rightarrow> string list \<Rightarrow> exn + string" where
  "section_call cerr fs args =
     (case format_to [] fs args of
        Inl (e, _) \<Rightarrow> Inl e
      | Inr s \<Rightarrow> Inr (section_write cerr 0 s))"

text \<open>The macro \<^verbatim>\<open>LOG_AT_LEVEL(sect, level)(fs, args...)\<close>.\<close>

definition log_at_level ::
  "section_impl list \<Rightarrow> section_ptr \<Rightarrow> int \<Rightarrow> string \<Rightarrow> string \<Rightarrow> string list \<Rightarrow> exn + string" where
  "log_at_level h p level cerr fs args =
     (if level < section_threshold h p then Inr cerr else section_call cerr fs args)"

subsection \<open>The section registry\<close>

text \<open>\<^verbatim>\<open>log_sections::impl::hash\<close> with a 64-bit \<^verbatim>\<open>size_t\<close> and with a 32-bit one.\<close>

definition hash64 :: "string \<Rightarrow> u64" where
  "hash64 s = fold (\<lambda>c h. (h XOR of_int (byte c)) * 1099511628211) s 1469598103934665603"

definition hash32 :: "string \<Rightarrow> u32" where
  "hash32 s = fold (\<lambda>c h. (h XOR of_int (byte c)) * 16777619) s 2166136261"

text \<open>A map entry is the address of the \<^verbatim>\<open>impl\<close> whose name the key views, and the section.\<close>

record log_sections =
  ls_heap :: "section_impl list"
  ls_map :: "(section_ptr \<times> section_ptr) list"
  ls_vec :: "section_ptr list"

definition log_sections_init :: log_sections where
  "log_sections_init = \<lparr>ls_heap = [], ls_map = [], ls_vec = []\<rparr>"

text \<open>\<^verbatim>\<open>unordered_map::find\<close>: an entry of the bucket of the key's hash whose key is equal.\<close>

definition map_find :: "log_sections \<Rightarrow> string \<Rightarrow> section_ptr option" where
  "map_find ls nm =
     map_option snd (List.find (\<lambda>(k, _). hash64 (section_name (ls_heap ls) k) = hash64 nm \<and>
                                 section_name (ls_heap ls) k = nm) (ls_map ls))"

definition log_get :: "string \<Rightarrow> log_sections \<Rightarrow> section_ptr \<times> log_sections" where
  "log_get nm ls =
     (case map_find ls nm of
        Some v \<Rightarrow> (v, ls)
      | None \<Rightarrow>
          (let v = length (ls_heap ls) in
           (v, \<lparr>ls_heap = ls_heap ls @ [make_section nm],
                ls_map = ls_map ls @ [(v, v)],
                ls_vec = ls_vec ls @ [v]\<rparr>)))"

definition log_get_sections :: "log_sections \<Rightarrow> section_ptr list" where
  "log_get_sections ls = ls_vec ls"

subsection \<open>The log service\<close>

text \<open>
  \<^verbatim>\<open>log_service_impl\<close> forwards to the registry it owns; \<^verbatim>\<open>use_log_service\<close> finds it in the
  system context or creates it there.
\<close>

record log_service_impl =
  svc_ls :: log_sections

definition service_get_section :: "string \<Rightarrow> log_service_impl \<Rightarrow> section_ptr \<times> log_service_impl" where
  "service_get_section nm s =
     (case log_get nm (svc_ls s) of (v, ls) \<Rightarrow> (v, s\<lparr>svc_ls := ls\<rparr>))"

definition service_get_sections :: "log_service_impl \<Rightarrow> section_ptr list" where
  "service_get_sections s = log_get_sections (svc_ls s)"

definition use_log_service :: "log_service_impl option \<Rightarrow> log_service_impl" where
  "use_log_service ctx = (case ctx of Some s \<Rightarrow> s | None \<Rightarrow> \<lparr>svc_ls = log_sections_init\<rparr>)"

subsection \<open>What a registry of sections promises\<close>

text \<open>
  The interface a user of the registry relies on: the names of the sections in creation
  order are the abstract state, asking for a name adds it when it is new, and the handle
  that comes back is the one at the position of that name.
\<close>

fun run_gets :: "(string \<Rightarrow> 's \<Rightarrow> nat \<times> 's) \<Rightarrow> string list \<Rightarrow> 's \<Rightarrow> nat list \<times> 's" where
  "run_gets get [] s = ([], s)"
| "run_gets get (nm # nms) s =
     (case get nm s of (v, s1) \<Rightarrow> (case run_gets get nms s1 of (vs, s2) \<Rightarrow> (v # vs, s2)))"

text \<open>The names of a sequence of requests in the order of their first occurrence.\<close>

definition first_occurrences :: "string list \<Rightarrow> string list" where
  "first_occurrences nms = foldl (\<lambda>acc nm. if nm \<in> set acc then acc else acc @ [nm]) [] nms"

locale section_registry =
  fixes empty :: 's
    and get :: "string \<Rightarrow> 's \<Rightarrow> nat \<times> 's"
    and names :: "'s \<Rightarrow> string list"
    and handles :: "'s \<Rightarrow> nat list"
    and inv :: "'s \<Rightarrow> bool"
  assumes inv_empty: "inv empty"
    and names_empty: "names empty = []"
    and inv_get: "inv s \<Longrightarrow> inv (snd (get nm s))"
    and names_get: "inv s \<Longrightarrow>
      names (snd (get nm s)) = (if nm \<in> set (names s) then names s else names s @ [nm])"
    and handle_get: "inv s \<Longrightarrow> get nm s = (v, s') \<Longrightarrow>
      \<exists>i < length (names s'). names s' ! i = nm \<and> handles s' ! i = v"
    and handles_get: "inv s \<Longrightarrow> \<exists>t. handles (snd (get nm s)) = handles s @ t"
    and handles_distinct: "inv s \<Longrightarrow> distinct (handles s) \<and> distinct (names s) \<and>
      length (handles s) = length (names s)"
begin

lemma inv_get_all: "inv s \<Longrightarrow> inv (snd (run_gets get nms s))"
  by (induction nms arbitrary: s) (auto split: prod.splits dest: inv_get, metis inv_get snd_conv)

lemma names_get_all:
  "inv s \<Longrightarrow> names (snd (run_gets get nms s)) =
     foldl (\<lambda>acc nm. if nm \<in> set acc then acc else acc @ [nm]) (names s) nms"
proof (induction nms arbitrary: s)
  case (Cons nm nms)
  obtain v s1 where g: "get nm s = (v, s1)" by (cases "get nm s")
  from inv_get [OF Cons.prems, of nm] g have "inv s1" by simp
  from Cons.IH [OF this] names_get [OF Cons.prems, of nm] g show ?case
    by (auto split: prod.splits)
qed simp

lemma handles_get_all: "inv s \<Longrightarrow> \<exists>t. handles (snd (run_gets get nms s)) = handles s @ t"
proof (induction nms arbitrary: s)
  case (Cons nm nms)
  obtain v s1 where g: "get nm s = (v, s1)" by (cases "get nm s")
  from inv_get [OF Cons.prems, of nm] g have "inv s1" by simp
  from Cons.IH [OF this] handles_get [OF Cons.prems, of nm] g show ?case
    by (auto split: prod.splits)
qed simp

lemma names_prefix_get_all: "inv s \<Longrightarrow> \<exists>t. names (snd (run_gets get nms s)) = names s @ t"
proof (induction nms arbitrary: s)
  case (Cons nm nms)
  obtain v s1 where g: "get nm s = (v, s1)" by (cases "get nm s")
  from inv_get [OF Cons.prems, of nm] g have "inv s1" by simp
  from Cons.IH [OF this] names_get [OF Cons.prems, of nm] g show ?case
    by (auto split: prod.splits if_splits)
qed simp

text \<open>Every handle handed out in a run sits at the position of the name it was asked by.\<close>

lemma get_all_handles:
  assumes "inv s" and "run_gets get nms s = (vs, s')"
  shows "length vs = length nms \<and>
    (\<forall>i < length nms. \<exists>k < length (names s'). names s' ! k = nms ! i \<and> handles s' ! k = vs ! i)"
  using assms
proof (induction nms arbitrary: s vs)
  case (Cons nm nms)
  obtain v s1 where g: "get nm s = (v, s1)" by (cases "get nm s")
  obtain vs1 where r: "run_gets get nms s1 = (vs1, s')" and vs: "vs = v # vs1"
    using Cons.prems(2) g by (auto split: prod.splits)
  have i1: "inv s1" using inv_get [OF Cons.prems(1), of nm] g by simp
  note IH = Cons.IH [OF i1 r]
  obtain k where k: "k < length (names s1)" "names s1 ! k = nm" "handles s1 ! k = v"
    using handle_get [OF Cons.prems(1) g] by blast
  obtain tn th where ext: "names s' = names s1 @ tn" "handles s' = handles s1 @ th"
    using names_prefix_get_all [OF i1, of nms] handles_get_all [OF i1, of nms] r by auto
  have "k < length (handles s1)" using handles_distinct [OF i1] k(1) by simp
  with k ext have "k < length (names s') \<and> names s' ! k = nm \<and> handles s' ! k = v"
    by (simp add: nth_append)
  then show ?case
    using IH vs by (auto simp: nth_Cons split: nat.splits)
qed simp

lemma get_all_same_iff:
  assumes "inv s" and "run_gets get nms s = (vs, s')" and "i < length nms" and "j < length nms"
  shows "vs ! i = vs ! j \<longleftrightarrow> nms ! i = nms ! j"
proof -
  have i': "inv s'" using inv_get_all [OF assms(1), of nms] assms(2) by simp
  obtain k l where "k < length (names s')" "names s' ! k = nms ! i" "handles s' ! k = vs ! i"
    "l < length (names s')" "names s' ! l = nms ! j" "handles s' ! l = vs ! j"
    using get_all_handles [OF assms(1,2)] assms(3,4) by blast
  then show ?thesis
    using handles_distinct [OF i'] by (metis nth_eq_iff_index_eq)
qed

end

subsection \<open>The registry and the service keep the promise\<close>

definition log_names :: "log_sections \<Rightarrow> string list" where
  "log_names ls = map (section_name (ls_heap ls)) (ls_vec ls)"

text \<open>
  The representation invariant: the vector lists the heap's addresses in order, the map
  holds exactly one entry per section, and that entry's key views the section's own name.
\<close>

definition log_inv :: "log_sections \<Rightarrow> bool" where
  "log_inv ls \<longleftrightarrow> ls_vec ls = [0..<length (ls_heap ls)] \<and>
     ls_map ls = map (\<lambda>v. (v, v)) (ls_vec ls) \<and> distinct (log_names ls)"

lemma log_names_heap: "log_inv ls \<Longrightarrow> log_names ls = map sec_name (ls_heap ls)"
  by (rule nth_equalityI) (auto simp: log_names_def log_inv_def section_name_def)

lemma find_map_diag: "List.find P (map (\<lambda>v. (v, v)) xs) = map_option (\<lambda>v. (v, v)) (List.find (\<lambda>v. P (v, v)) xs)"
  by (induction xs) auto

lemma map_find_inv:
  assumes "log_inv ls"
  shows "map_find ls nm = List.find (\<lambda>v. section_name (ls_heap ls) v = nm) (ls_vec ls)"
proof -
  have "(\<lambda>v. hash64 (section_name (ls_heap ls) v) = hash64 nm \<and> section_name (ls_heap ls) v = nm)
      = (\<lambda>v. section_name (ls_heap ls) v = nm)" by auto
  with assms show ?thesis
    by (simp add: map_find_def log_inv_def find_map_diag option.map_comp comp_def
        option.map_ident)
qed

lemma map_find_None: "log_inv ls \<Longrightarrow> map_find ls nm = None \<longleftrightarrow> nm \<notin> set (log_names ls)"
  by (auto simp: map_find_inv find_None_iff log_names_def)

lemma map_find_Some:
  "log_inv ls \<Longrightarrow> map_find ls nm = Some v \<Longrightarrow> v < length (ls_heap ls) \<and> log_names ls ! v = nm"
  by (auto simp: map_find_inv find_Some_iff log_inv_def log_names_def)

lemma log_get_old: "map_find ls nm = Some v \<Longrightarrow> log_get nm ls = (v, ls)"
  by (simp add: log_get_def)

lemma log_get_new:
  assumes "log_inv ls" and "map_find ls nm = None"
  shows "fst (log_get nm ls) = length (ls_heap ls)"
    and "log_inv (snd (log_get nm ls))"
    and "log_names (snd (log_get nm ls)) = log_names ls @ [nm]"
    and "ls_vec (snd (log_get nm ls)) = ls_vec ls @ [length (ls_heap ls)]"
proof -
  have vec: "ls_vec ls = [0..<length (ls_heap ls)]" using assms(1) by (simp add: log_inv_def)
  show "fst (log_get nm ls) = length (ls_heap ls)"
    "ls_vec (snd (log_get nm ls)) = ls_vec ls @ [length (ls_heap ls)]"
    using assms(2) by (simp_all add: log_get_def Let_def)
  have "map (section_name (ls_heap ls @ [make_section nm])) (ls_vec ls) = log_names ls"
    by (auto simp: log_names_def section_name_def nth_append vec)
  then show names: "log_names (snd (log_get nm ls)) = log_names ls @ [nm]"
    using assms(2)
    by (simp add: log_get_def Let_def log_names_def section_name_def make_section_def)
  show "log_inv (snd (log_get nm ls))"
    using assms names map_find_None [OF assms(1), of nm]
    by (simp add: log_inv_def) (simp add: log_get_def Let_def)
qed

interpretation reg: section_registry log_sections_init log_get log_names log_get_sections log_inv
proof (unfold_locales, goal_cases)
  case 1
  show ?case by (simp add: log_inv_def log_sections_init_def log_names_def)
next
  case 2
  show ?case by (simp add: log_sections_init_def log_names_def)
next
  case (3 s nm)
  then show ?case
    by (cases "map_find s nm") (auto simp: log_get_old log_get_new(2))
next
  case (4 s nm)
  then show ?case
    using map_find_None [OF 4, of nm]
    by (cases "map_find s nm") (auto simp: log_get_old log_get_new(3))
next
  case (5 s nm v s')
  show ?case
  proof (cases "map_find s nm")
    case None
    note new = log_get_new [OF 5(1) None]
    from 5 have vec: "ls_vec s = [0..<length (ls_heap s)]" by (simp add: log_inv_def)
    then have "length (log_names s) = length (ls_heap s)" by (simp add: log_names_def)
    with new 5(2) vec show ?thesis
      by (auto simp: log_get_sections_def nth_append intro!: exI [of _ "length (ls_heap s)"])
  next
    case (Some w)
    from map_find_Some [OF 5(1) Some] 5 Some show ?thesis
      by (auto simp: log_get_old log_get_sections_def log_inv_def log_names_def
          intro!: exI [of _ w])
  qed
next
  case (6 s nm)
  then show ?case
    by (cases "map_find s nm") (auto simp: log_get_old log_get_new(4) log_get_sections_def)
next
  case (7 s)
  then show ?case by (auto simp: log_inv_def log_get_sections_def log_names_def)
qed

interpretation svc: section_registry "use_log_service None" service_get_section
  "\<lambda>s. log_names (svc_ls s)" service_get_sections "\<lambda>s. log_inv (svc_ls s)"
proof (unfold_locales, goal_cases)
  case 1
  show ?case using reg.inv_empty by (simp add: use_log_service_def)
next
  case 2
  show ?case using reg.names_empty by (simp add: use_log_service_def)
next
  case (3 s nm)
  with reg.inv_get [of "svc_ls s" nm] show ?case
    by (auto simp: service_get_section_def split: prod.splits)
next
  case (4 s nm)
  with reg.names_get [of "svc_ls s" nm] show ?case
    by (auto simp: service_get_section_def split: prod.splits)
next
  case (5 s nm v s')
  with reg.handle_get [of "svc_ls s" nm v "svc_ls s'"] show ?case
    by (auto simp: service_get_section_def service_get_sections_def split: prod.splits)
next
  case (6 s nm)
  with reg.handles_get [of "svc_ls s" nm] show ?case
    by (auto simp: service_get_section_def service_get_sections_def split: prod.splits)
next
  case (7 s)
  with reg.handles_distinct [of "svc_ls s"] show ?case
    by (simp add: service_get_sections_def)
qed

text \<open>
  C25. Over any sequence of requests to the log service, started from an empty system
  context, two requests return the same section exactly when they ask for the same name,
  every section returned carries the requested name, and the sections listed afterwards
  are the requested names in the order of their first request.
\<close>

theorem log_service_requests:
  assumes "run_gets service_get_section nms (use_log_service None) = (vs, s')"
  shows "length vs = length nms \<and>
    (\<forall>i < length nms. \<forall>j < length nms. vs ! i = vs ! j \<longleftrightarrow> nms ! i = nms ! j) \<and>
    map (section_name (ls_heap (svc_ls s'))) vs = nms \<and>
    map (section_name (ls_heap (svc_ls s'))) (service_get_sections s') = first_occurrences nms"
proof (intro conjI)
  note i0 = svc.inv_empty
  show len: "length vs = length nms"
    using svc.get_all_handles [OF i0 assms] by simp
  show "\<forall>i < length nms. \<forall>j < length nms. vs ! i = vs ! j \<longleftrightarrow> nms ! i = nms ! j"
    using svc.get_all_same_iff [OF i0 assms] by blast
  show "map (section_name (ls_heap (svc_ls s'))) vs = nms"
  proof (rule nth_equalityI)
    fix i assume i: "i < length (map (section_name (ls_heap (svc_ls s'))) vs)"
    then obtain k where k: "k < length (log_names (svc_ls s'))" "log_names (svc_ls s') ! k = nms ! i"
      "service_get_sections s' ! k = vs ! i"
      using svc.get_all_handles [OF i0 assms] len by auto
    then show "map (section_name (ls_heap (svc_ls s'))) vs ! i = nms ! i"
      using i by (simp add: log_names_def service_get_sections_def log_get_sections_def)
  qed (simp add: len)
  show "map (section_name (ls_heap (svc_ls s'))) (service_get_sections s') = first_occurrences nms"
    using svc.names_get_all [OF i0, of nms] assms svc.names_empty
    by (simp add: first_occurrences_def log_names_def service_get_sections_def
        log_get_sections_def)
qed

theorem log_service_requests_witness:
  "\<exists>vs s'. run_gets service_get_section [''a'', ''b'', ''a''] (use_log_service None) = (vs, s') \<and>
     map (section_name (ls_heap (svc_ls s'))) vs = [''a'', ''b'', ''a''] \<and>
     map (section_name (ls_heap (svc_ls s'))) (service_get_sections s') =
       first_occurrences [''a'', ''b'', ''a'']"
proof -
  obtain vs s' where r:
    "run_gets service_get_section [''a'', ''b'', ''a''] (use_log_service None) = (vs, s')"
    by (rule that [OF surjective_pairing])
  note w = conjunct2 [OF conjunct2 [OF log_service_requests [OF r]]]
  show ?thesis
    by (rule exI2, rule conjI [OF r conjI [OF conjunct1 [OF w] conjunct2 [OF w]]])
qed

text \<open>
  Logging: below the section's threshold nothing happens; at or above it the error
  stream gets exactly the formatted line, or the call throws what the formatter throws and
  the stream is left alone.
\<close>

theorem log_at_level_output:
  "log_at_level h p level cerr fs args =
     (if level < section_threshold h p then Inr cerr
      else rmap (\<lambda>t. cerr @ t @ [CHR 0x0A]) (fmt_spec fs args))"
  using format_to_cases [where fs = fs and args = args and dest = "[]"]
  by (cases "fmt_spec fs args")
    (auto simp: log_at_level_def section_call_def section_write_def)

end
