(* ===== verification/Endpoint.thy ===== *)
theory Endpoint
  imports Except
begin

text \<open>
  \<^verbatim>\<open>include/boost/beast2/endpoint.hpp\<close> and \<^verbatim>\<open>src/endpoint.cpp\<close>: a host address and a
  port.  The address is a union whose live member is the one the \<^verbatim>\<open>kind_\<close> field names.  The
  Boost.URL address types are type parameters, their stream output functions are
  arguments of \<open>endpoint_format\<close>.  Reading a union member that is not alive, or calling an
  accessor whose assertion fails, is the value \<open>None\<close>.
\<close>

datatype host_type = host_none | host_name | host_ipv4 | host_ipv6 | host_ipvfuture

datatype ('v4, 'v6) storage = Raw | Ipv4 'v4 | Ipv6 'v6

record ('v4, 'v6) endpoint =
  ep_kind :: host_type
  ep_port :: u16
  ep_addr :: "('v4, 'v6) storage"

definition endpoint_default :: "('v4, 'v6) endpoint" where
  "endpoint_default = \<lparr>ep_kind = host_none, ep_port = 0, ep_addr = Raw\<rparr>"

definition endpoint_of_ipv4 :: "'v4 \<Rightarrow> u16 \<Rightarrow> ('v4, 'v6) endpoint" where
  "endpoint_of_ipv4 a p = \<lparr>ep_kind = host_ipv4, ep_port = p, ep_addr = Ipv4 a\<rparr>"

definition endpoint_of_ipv6 :: "'v6 \<Rightarrow> u16 \<Rightarrow> ('v4, 'v6) endpoint" where
  "endpoint_of_ipv6 a p = \<lparr>ep_kind = host_ipv6, ep_port = p, ep_addr = Ipv6 a\<rparr>"

text \<open>Reading the union: only the live member can be read.\<close>

fun read_ipv4 :: "('v4, 'v6) storage \<Rightarrow> 'v4 option" where
  "read_ipv4 (Ipv4 a) = Some a"
| "read_ipv4 _ = None"

fun read_ipv6 :: "('v4, 'v6) storage \<Rightarrow> 'v6 option" where
  "read_ipv6 (Ipv6 a) = Some a"
| "read_ipv6 _ = None"

text \<open>The copy constructor: kind and port first, then the member the kind selects.\<close>

definition endpoint_copy :: "('v4, 'v6) endpoint \<Rightarrow> ('v4, 'v6) endpoint option" where
  "endpoint_copy other =
     (let self = \<lparr>ep_kind = ep_kind other, ep_port = ep_port other, ep_addr = Raw\<rparr> in
      case ep_kind self of
        host_ipv4 \<Rightarrow> map_option (\<lambda>a. self\<lparr>ep_addr := Ipv4 a\<rparr>) (read_ipv4 (ep_addr other))
      | host_ipv6 \<Rightarrow> map_option (\<lambda>a. self\<lparr>ep_addr := Ipv6 a\<rparr>) (read_ipv6 (ep_addr other))
      | _ \<Rightarrow> Some self)"

text \<open>The destructor ends the life of the member the kind selects.\<close>

definition endpoint_destroy :: "('v4, 'v6) endpoint \<Rightarrow> ('v4, 'v6) storage option" where
  "endpoint_destroy self =
     (case ep_kind self of
        host_ipv4 \<Rightarrow> map_option (\<lambda>_. Raw) (read_ipv4 (ep_addr self))
      | host_ipv6 \<Rightarrow> map_option (\<lambda>_. Raw) (read_ipv6 (ep_addr self))
      | _ \<Rightarrow> Some (ep_addr self))"

text \<open>\<^verbatim>\<open>operator=\<close>: the flag says whether both operands are the same object.\<close>

definition endpoint_assign ::
  "bool \<Rightarrow> ('v4, 'v6) endpoint \<Rightarrow> ('v4, 'v6) endpoint \<Rightarrow> ('v4, 'v6) endpoint option" where
  "endpoint_assign same self other =
     (if same then Some self
      else Option.bind (endpoint_destroy self) (\<lambda>_. endpoint_copy other))"

definition endpoint_is_ipv4 :: "('v4, 'v6) endpoint \<Rightarrow> bool" where
  "endpoint_is_ipv4 ep \<longleftrightarrow> ep_kind ep = host_ipv4"

definition endpoint_is_ipv6 :: "('v4, 'v6) endpoint \<Rightarrow> bool" where
  "endpoint_is_ipv6 ep \<longleftrightarrow> ep_kind ep = host_ipv6"

definition endpoint_get_ipv4 :: "('v4, 'v6) endpoint \<Rightarrow> 'v4 option" where
  "endpoint_get_ipv4 ep = (if ep_kind ep = host_ipv4 then read_ipv4 (ep_addr ep) else None)"

definition endpoint_get_ipv6 :: "('v4, 'v6) endpoint \<Rightarrow> 'v6 option" where
  "endpoint_get_ipv6 ep = (if ep_kind ep = host_ipv6 then read_ipv6 (ep_addr ep) else None)"

definition endpoint_format ::
  "('v4 \<Rightarrow> string) \<Rightarrow> ('v6 \<Rightarrow> string) \<Rightarrow> string \<Rightarrow> ('v4, 'v6) endpoint \<Rightarrow> string option" where
  "endpoint_format show4 show6 os ep =
     map_option
       (\<lambda>host. os @ host @ (if ep_port ep \<noteq> 0 then '':'' @ show_nat (unat (ep_port ep)) else []))
       (case ep_kind ep of
          host_ipv4 \<Rightarrow> map_option show4 (read_ipv4 (ep_addr ep))
        | host_ipv6 \<Rightarrow> map_option show6 (read_ipv6 (ep_addr ep))
        | _ \<Rightarrow> Some ''none'')"

subsection \<open>The live member is the one the kind names\<close>

fun kind_of :: "('v4, 'v6) storage \<Rightarrow> host_type" where
  "kind_of Raw = host_none"
| "kind_of (Ipv4 _) = host_ipv4"
| "kind_of (Ipv6 _) = host_ipv6"

definition endpoint_ok :: "('v4, 'v6) endpoint \<Rightarrow> bool" where
  "endpoint_ok ep \<longleftrightarrow> ep_kind ep = kind_of (ep_addr ep)"

text \<open>The endpoints a program can hold: built by a constructor, a copy or an assignment.\<close>

inductive reachable_endpoint :: "('v4, 'v6) endpoint \<Rightarrow> bool" where
  default: "reachable_endpoint endpoint_default"
| ipv4: "reachable_endpoint (endpoint_of_ipv4 a p)"
| ipv6: "reachable_endpoint (endpoint_of_ipv6 a p)"
| copy: "reachable_endpoint ep \<Longrightarrow> endpoint_copy ep = Some ep' \<Longrightarrow> reachable_endpoint ep'"
| assign: "reachable_endpoint x \<Longrightarrow> reachable_endpoint y \<Longrightarrow>
    endpoint_assign same x y = Some ep' \<Longrightarrow> reachable_endpoint ep'"

lemma endpoint_copy_ok: "endpoint_ok ep \<Longrightarrow> endpoint_copy ep = Some ep"
  by (cases "ep_addr ep") (simp_all add: endpoint_ok_def endpoint_copy_def Let_def)

lemma endpoint_destroy_ok: "endpoint_ok ep \<Longrightarrow> endpoint_destroy ep = Some Raw"
  by (cases "ep_addr ep") (simp_all add: endpoint_ok_def endpoint_destroy_def)

lemma endpoint_assign_ok:
  "endpoint_ok x \<Longrightarrow> endpoint_ok y \<Longrightarrow> endpoint_assign same x y = Some (if same then x else y)"
  by (simp add: endpoint_assign_def endpoint_destroy_ok endpoint_copy_ok)

lemma reachable_endpoint_ok: "reachable_endpoint ep \<Longrightarrow> endpoint_ok ep"
proof (induction rule: reachable_endpoint.induct)
  case (copy ep ep')
  then show ?case by (simp add: endpoint_copy_ok)
next
  case (assign x y same ep')
  then show ?case by (simp add: endpoint_assign_ok split: if_splits)
qed (simp_all add: endpoint_ok_def endpoint_default_def endpoint_of_ipv4_def endpoint_of_ipv6_def)

text \<open>
  C35. Whatever endpoints a program builds, copying and assigning never read a dead union
  member: a copy is an equal endpoint, an assignment yields the right-hand side, and a
  self-assignment leaves the object as it was.
\<close>

theorem endpoint_copy_assign:
  assumes "reachable_endpoint x" and "reachable_endpoint y"
  shows "endpoint_copy x = Some x \<and> endpoint_assign False x y = Some y \<and>
    endpoint_assign True x x = Some x \<and>
    (endpoint_get_ipv4 x \<noteq> None \<longleftrightarrow> endpoint_is_ipv4 x) \<and>
    (endpoint_get_ipv6 x \<noteq> None \<longleftrightarrow> endpoint_is_ipv6 x) \<and>
    endpoint_format show4 show6 os x \<noteq> None"
  using reachable_endpoint_ok [OF assms(1)] reachable_endpoint_ok [OF assms(2)]
  by (cases "ep_addr x")
    (auto simp: endpoint_copy_ok endpoint_assign_ok endpoint_get_ipv4_def endpoint_get_ipv6_def
      endpoint_is_ipv4_def endpoint_is_ipv6_def endpoint_format_def endpoint_ok_def)

theorem endpoint_copy_assign_witness:
  "endpoint_copy (endpoint_of_ipv4 ''10.0.0.1'' 80 :: (string, string) endpoint) =
     Some (endpoint_of_ipv4 ''10.0.0.1'' 80) \<and>
   endpoint_assign False (endpoint_of_ipv4 ''10.0.0.1'' 80) (endpoint_of_ipv6 ''::1'' 443) =
     Some (endpoint_of_ipv6 ''::1'' 443 :: (string, string) endpoint)"
  using endpoint_copy_assign
    [OF reachable_endpoint.ipv4 [of "''10.0.0.1''" 80] reachable_endpoint.ipv6 [of "''::1''" 443]]
  by blast

end
