(* ===== verification/Url_Grammar.thy ===== *)
theory Url_Grammar
  imports Except
begin

text \<open>
  The parsing library of Boost.URL (\<^verbatim>\<open>boost::urls::grammar\<close>) is not part of the
  repository.  Its rule expressions, which the sources build with \<^verbatim>\<open>tuple_rule\<close>,
  \<^verbatim>\<open>token_rule\<close> and so on, are data here (\<open>grule\<close>), and the two functions that run them are
  parameters: \<open>rparse r s\<close> stands for \<^verbatim>\<open>r.parse(it, end)\<close> on the unread characters \<open>s\<close>, and
  \<open>gparse r s\<close> for \<^verbatim>\<open>grammar::parse(s, r)\<close>, which wants the whole string.  The locale
  \<open>url_grammar\<close> states what the library documents about them.
\<close>

datatype gerror =
    err_need_more | err_mismatch | err_end_of_range | err_leftover | err_invalid
  | err_out_of_range | err_syntax

text \<open>The values rules produce; \<open>GAlt i v\<close> is the \<^verbatim>\<open>i\<close>-th alternative of a variant.\<close>

datatype gval =
    GStr string | GChar char | GNum nat | GNone | GSome gval
  | GTuple "gval list" | GAlt nat gval | GRange "gval list"

text \<open>Character set expressions: the library's sets, its lookup tables, unions and
  differences of sets, and the function objects the sources define themselves.\<close>

datatype charset =
    all_chars | digit_chars | alpha_chars | alnum_chars
  | lut_chars string
  | user_chars "char \<Rightarrow> bool"
  | cs_union charset charset
  | cs_diff charset charset

datatype grule =
    token_rule charset
  | delim_rule charset
  | literal_rule string
  | unsigned_rule nat
  | optional_rule grule
  | squelch grule
  | tuple_rule "grule list"
  | variant_rule "grule list"
  | range_rule grule
  | custom_rule "string \<Rightarrow> gerror + gval \<times> string"

type_synonym rparser = "grule \<Rightarrow> string \<Rightarrow> gerror + gval \<times> string"
type_synonym gparser = "grule \<Rightarrow> string \<Rightarrow> gerror + gval"

abbreviation delim_char :: "char \<Rightarrow> grule" where
  "delim_char c \<equiv> delim_rule (lut_chars [c])"

text \<open>The members of a character set, as the library documents them.\<close>

primrec cs_mem :: "charset \<Rightarrow> char \<Rightarrow> bool" where
  "cs_mem all_chars c \<longleftrightarrow> True"
| "cs_mem digit_chars c \<longleftrightarrow> is_digit c"
| "cs_mem alpha_chars c \<longleftrightarrow> is_alpha c"
| "cs_mem alnum_chars c \<longleftrightarrow> is_alpha c \<or> is_digit c"
| "cs_mem (lut_chars s) c \<longleftrightarrow> c \<in> set s"
| "cs_mem (user_chars f) c \<longleftrightarrow> f c"
| "cs_mem (cs_union a b) c \<longleftrightarrow> cs_mem a c \<or> cs_mem b c"
| "cs_mem (cs_diff a b) c \<longleftrightarrow> cs_mem a c \<and> \<not> cs_mem b c"

text \<open>The typed accessors; a rule's value type fixes the shape, so the defaults are not
  met.\<close>

fun g_str :: "gval \<Rightarrow> string" where
  "g_str (GStr s) = s" | "g_str _ = []"

fun g_num :: "gval \<Rightarrow> nat" where
  "g_num (GNum n) = n" | "g_num _ = 0"

fun g_opt :: "gval \<Rightarrow> gval option" where
  "g_opt (GSome v) = Some v" | "g_opt _ = None"

fun g_tuple :: "gval \<Rightarrow> gval list" where
  "g_tuple (GTuple vs) = vs" | "g_tuple _ = []"

fun g_range :: "gval \<Rightarrow> gval list" where
  "g_range (GRange vs) = vs" | "g_range _ = []"

fun g_index :: "gval \<Rightarrow> nat" where
  "g_index (GAlt i _) = i" | "g_index _ = 0"

fun g_alt :: "gval \<Rightarrow> gval" where
  "g_alt (GAlt _ v) = v" | "g_alt v = v"

definition g_get :: "nat \<Rightarrow> gval \<Rightarrow> gval" where
  "g_get i v = (if i < length (g_tuple v) then g_tuple v ! i else GNone)"

fun is_squelch :: "grule \<Rightarrow> bool" where
  "is_squelch (squelch _) = True" | "is_squelch _ = False"

text \<open>A tuple rule with a single value that is kept has that value's type.\<close>

definition mk_tuple :: "gval list \<Rightarrow> gval" where
  "mk_tuple vs = (case vs of [v] \<Rightarrow> v | _ \<Rightarrow> GTuple vs)"

fun seq_parse :: "rparser \<Rightarrow> grule list \<Rightarrow> string \<Rightarrow> gerror + gval list \<times> string" where
  "seq_parse rp [] s = Inr ([], s)"
| "seq_parse rp (r # rs) s =
     (case rp r s of
        Inl e \<Rightarrow> Inl e
      | Inr (v, t) \<Rightarrow>
          rmap (\<lambda>(vs, u). (if is_squelch r then vs else v # vs, u)) (seq_parse rp rs t))"

fun alt_parse :: "rparser \<Rightarrow> nat \<Rightarrow> grule list \<Rightarrow> string \<Rightarrow> gerror + gval \<times> string" where
  "alt_parse rp i [] s = Inl err_mismatch"
| "alt_parse rp i (r # rs) s =
     (case rp r s of
        Inr (v, t) \<Rightarrow> Inr (GAlt i v, t)
      | Inl _ \<Rightarrow> alt_parse rp (Suc i) rs s)"

definition unsigned_parse :: "nat \<Rightarrow> string \<Rightarrow> gerror + gval \<times> string" where
  "unsigned_parse m s =
     (let ds = takeWhile is_digit s in
      if s = [] then Inl err_need_more
      else if ds = [] then Inl err_mismatch
      else if hd ds = CHR ''0'' \<and> length ds > 1 then Inl err_invalid
      else if read_nat ds \<le> m then Inr (GNum (read_nat ds), dropWhile is_digit s)
      else Inl err_invalid)"

text \<open>An absent value, or a non-empty string.\<close>

definition nonempty_opt :: "gval \<Rightarrow> bool" where
  "nonempty_opt v \<longleftrightarrow> v = GNone \<or> (\<exists>w. v = GSome (GStr w) \<and> w \<noteq> [])"

locale url_grammar =
  fixes gparse :: gparser and rparse :: rparser
  assumes parse_all: "gparse r s =
      (case rparse r s of Inl e \<Rightarrow> Inl e
       | Inr (v, t) \<Rightarrow> if t = [] then Inr v else Inl err_leftover)"
    and token: "rparse (token_rule cs) s =
      (if s = [] then Inl err_need_more
       else if cs_mem cs (hd s) then Inr (GStr (takeWhile (cs_mem cs) s), dropWhile (cs_mem cs) s)
       else Inl err_mismatch)"
    and delim: "rparse (delim_rule cs) s =
      (case s of [] \<Rightarrow> Inl err_need_more
       | c # t \<Rightarrow> if cs_mem cs c then Inr (GStr [c], t) else Inl err_mismatch)"
    and literal: "l \<noteq> [] \<Longrightarrow> rparse (literal_rule l) s =
      (if starts_with s l then Inr (GStr l, drop (length l) s)
       else if starts_with l s then Inl err_need_more else Inl err_mismatch)"
    and unsigned: "rparse (unsigned_rule m) s = unsigned_parse m s"
    and optional: "rparse (optional_rule r) s =
      (if s = [] then Inr (GNone, s)
       else case rparse r s of Inl _ \<Rightarrow> Inr (GNone, s) | Inr (v, t) \<Rightarrow> Inr (GSome v, t))"
    and squelched: "rparse (squelch r) s = rparse r s"
    and tupled: "rparse (tuple_rule rs) s =
      rmap (\<lambda>(vs, t). (mk_tuple vs, t)) (seq_parse rparse rs s)"
    and variants: "rparse (variant_rule rs) s = alt_parse rparse 0 rs s"
    and range_end: "rparse r s = Inl e \<Longrightarrow> e \<noteq> err_end_of_range \<Longrightarrow>
      rparse (range_rule r) s = Inr (GRange [], s)"
    and range_step: "rparse r s = Inr (v, t) \<Longrightarrow> length t < length s \<Longrightarrow>
      rparse (range_rule r) s =
        rmap (\<lambda>(vs, u). (GRange (v # g_range vs), u)) (rparse (range_rule r) t)"
    and custom: "rparse (custom_rule f) s = f s"
begin

lemmas rules = token delim unsigned optional squelched tupled variants custom

text \<open>Running a token rule over a delimited field, the step every field of the cookie and
  glob formats takes.\<close>

lemma token_field:
  assumes "f \<noteq> []" "list_all (cs_mem cs) f" "\<not> cs_mem cs d"
  shows "rparse (token_rule cs) (f @ d # t) = Inr (GStr f, d # t)"
  using assms by (cases f) (auto simp: token list_all_iff)

lemma token_all:
  assumes "f \<noteq> []" "list_all (cs_mem cs) f"
  shows "rparse (token_rule cs) f = Inr (GStr f, [])"
proof -
  have "cs_mem cs (hd f)" using assms by (cases f) auto
  moreover have "takeWhile (cs_mem cs) f = f" "dropWhile (cs_mem cs) f = []"
    using assms(2) by (auto simp: list_all_iff takeWhile_eq_all_conv dropWhile_eq_Nil_conv)
  ultimately show ?thesis using assms(1) by (simp add: token)
qed

text \<open>A range whose elements make progress and never report the end of the range parses to a
  list of values the element rule can deliver.\<close>

lemma range_elems:
  assumes progress: "\<And>s v t. rparse r s = Inr (v, t) \<Longrightarrow> length t < length s \<and> P v"
    and noend: "\<And>s e. rparse r s = Inl e \<Longrightarrow> e \<noteq> err_end_of_range"
  shows "\<exists>vs t. rparse (range_rule r) s = Inr (GRange vs, t) \<and> list_all P vs"
proof (induction "length s" arbitrary: s rule: less_induct)
  case less
  show ?case
  proof (cases "rparse r s")
    case (Inl e)
    then show ?thesis using range_end noend by simp
  next
    case (Inr vt)
    obtain v t where vt: "rparse r s = Inr (v, t)" using Inr by (cases vt) simp
    have p: "length t < length s" "P v" using progress [OF vt] by auto
    obtain vs u where "rparse (range_rule r) t = Inr (GRange vs, u)" "list_all P vs"
      using less [OF p(1)] by blast
    then show ?thesis using range_step [OF vt p(1)] p(2) by simp
  qed
qed

lemma optional_token: "\<exists>v t. rparse (optional_rule (token_rule cs)) s = Inr (v, t) \<and>
    nonempty_opt v \<and> length t \<le> length s"
  by (cases s) (auto simp: optional token nonempty_opt_def length_dropWhile_le le_SucI)

lemma optional_delim: "\<exists>v t. rparse (optional_rule (delim_rule cs)) s = Inr (v, t) \<and>
    length t \<le> length s"
  by (cases s) (auto simp: optional delim)

lemma token_shape: "rparse (token_rule cs) s = Inr (v, t) \<Longrightarrow>
    (\<exists>w. v = GStr w \<and> w \<noteq> [] \<and> list_all (cs_mem cs) w \<and> s = w @ t)"
  by (cases s) (auto simp: token list_all_iff dest: set_takeWhileD split: if_splits)

lemma token_error: "rparse (token_rule cs) s = Inl e \<Longrightarrow> e \<noteq> err_end_of_range"
  by (auto simp: token split: if_splits)

lemma delim_error: "rparse (delim_rule cs) s = Inl e \<Longrightarrow> e \<noteq> err_end_of_range"
  by (auto simp: delim split: if_splits list.splits)

end

subsection \<open>A reference engine\<close>

text \<open>
  An engine that satisfies the laws: rules by structural recursion, a range by repeating
  its element while it consumes input.  It shows that the laws are consistent and it is
  the instance the examples of the other theories run on.
\<close>

function ref_range :: "(string \<Rightarrow> gerror + gval \<times> string) \<Rightarrow> string \<Rightarrow> gval list \<times> string" where
  "ref_range p s =
     (case p s of
        Inl _ \<Rightarrow> ([], s)
      | Inr (v, t) \<Rightarrow>
          if length t < length s then (case ref_range p t of (vs, u) \<Rightarrow> (v # vs, u))
          else ([v], t))"
  by pat_completeness auto
termination
  by (relation "measure (\<lambda>(p, s). length s)") auto

declare ref_range.simps [simp del]

fun ref_seq :: "(bool \<times> (string \<Rightarrow> gerror + gval \<times> string)) list \<Rightarrow> string \<Rightarrow>
    gerror + gval list \<times> string" where
  "ref_seq [] s = Inr ([], s)"
| "ref_seq ((q, p) # ps) s =
     (case p s of
        Inl e \<Rightarrow> Inl e
      | Inr (v, t) \<Rightarrow> rmap (\<lambda>(vs, u). (if q then vs else v # vs, u)) (ref_seq ps t))"

fun ref_alt :: "nat \<Rightarrow> (string \<Rightarrow> gerror + gval \<times> string) list \<Rightarrow> string \<Rightarrow>
    gerror + gval \<times> string" where
  "ref_alt i [] s = Inl err_mismatch"
| "ref_alt i (p # ps) s =
     (case p s of Inr (v, t) \<Rightarrow> Inr (GAlt i v, t) | Inl _ \<Rightarrow> ref_alt (Suc i) ps s)"

primrec ref_rparse :: rparser where
  "ref_rparse (token_rule cs) = (\<lambda>s.
     if s = [] then Inl err_need_more
     else if cs_mem cs (hd s) then Inr (GStr (takeWhile (cs_mem cs) s), dropWhile (cs_mem cs) s)
     else Inl err_mismatch)"
| "ref_rparse (delim_rule cs) = (\<lambda>s.
     case s of [] \<Rightarrow> Inl err_need_more
     | c # t \<Rightarrow> if cs_mem cs c then Inr (GStr [c], t) else Inl err_mismatch)"
| "ref_rparse (literal_rule l) = (\<lambda>s.
     if starts_with s l then Inr (GStr l, drop (length l) s)
     else if starts_with l s then Inl err_need_more else Inl err_mismatch)"
| "ref_rparse (unsigned_rule m) = unsigned_parse m"
| "ref_rparse (optional_rule r) = (\<lambda>s.
     if s = [] then Inr (GNone, s)
     else case ref_rparse r s of Inl _ \<Rightarrow> Inr (GNone, s) | Inr (v, t) \<Rightarrow> Inr (GSome v, t))"
| "ref_rparse (squelch r) = ref_rparse r"
| "ref_rparse (tuple_rule rs) = (\<lambda>s.
     rmap (\<lambda>(vs, t). (mk_tuple vs, t)) (ref_seq (zip (map is_squelch rs) (map ref_rparse rs)) s))"
| "ref_rparse (variant_rule rs) = (\<lambda>s. ref_alt 0 (map ref_rparse rs) s)"
| "ref_rparse (range_rule r) = (\<lambda>s.
     case ref_range (ref_rparse r) s of (vs, t) \<Rightarrow> Inr (GRange vs, t))"
| "ref_rparse (custom_rule f) = f"

definition ref_gparse :: gparser where
  "ref_gparse r s =
     (case ref_rparse r s of Inl e \<Rightarrow> Inl e
      | Inr (v, t) \<Rightarrow> if t = [] then Inr v else Inl err_leftover)"

lemma ref_seq_zip: "ref_seq (zip (map is_squelch rs) (map ref_rparse rs)) s = seq_parse ref_rparse rs s"
proof (induction rs arbitrary: s)
  case (Cons r rs)
  show ?case
    by (cases "ref_rparse r s") (auto simp: Cons.IH split: prod.splits)
qed simp

lemma ref_alt_map: "ref_alt i (map ref_rparse rs) s = alt_parse ref_rparse i rs s"
proof (induction rs arbitrary: i)
  case (Cons r rs)
  show ?case
    by (cases "ref_rparse r s") (auto simp: Cons.IH split: prod.splits)
qed simp

interpretation ref: url_grammar ref_gparse ref_rparse
proof (unfold_locales, goal_cases)
  case (10 r s e)
  then show ?case by (simp add: ref_range.simps [of _ s])
next
  case (11 r s v t)
  then show ?case by (simp add: ref_range.simps [of _ s] split: prod.splits)
qed (simp_all add: ref_gparse_def ref_seq_zip ref_alt_map)

end
