(* ===== verification/Route_Rule.thy ===== *)
theory Route_Rule
  imports Url_Grammar
begin

text \<open>
  \<^verbatim>\<open>src/route_rule.hpp\<close>: the owning string of the router and the rules that parse a route
  pattern.  A rule's \<^verbatim>\<open>parse(it, end)\<close> takes the unread characters and returns its result
  together with the characters from the new \<^verbatim>\<open>it\<close> on, on the error paths too.  From
  Boost.URL the rules use \<^verbatim>\<open>find_if_not\<close>, the character set \<^verbatim>\<open>alpha_chars\<close> and the parse of a
  whole string, which are arguments here; \<open>url_charsets\<close> states what they promise.
\<close>

subsection \<open>stable_string\<close>

text \<open>
  Objects of the class and the character arrays they own: \<open>objs\<close> maps a live object to its
  pointer (\<open>None\<close> for the null pointer) and length, \<open>arrs\<close> maps an allocated array to its
  contents, \<open>next_arr\<close> is the next unused address.
\<close>

record ss_state =
  ss_objs :: "nat \<rightharpoonup> nat option \<times> nat"
  ss_arrs :: "nat \<rightharpoonup> string"
  ss_next :: nat

definition ss_init :: ss_state where
  "ss_init = \<lparr>ss_objs = Map.empty, ss_arrs = Map.empty, ss_next = 0\<rparr>"

definition ss_default :: "nat \<Rightarrow> ss_state \<Rightarrow> ss_state" where
  "ss_default x st = st\<lparr>ss_objs := (ss_objs st)(x \<mapsto> (None, 0))\<rparr>"

definition ss_from_view :: "nat \<Rightarrow> string \<Rightarrow> ss_state \<Rightarrow> ss_state" where
  "ss_from_view x s st =
     st\<lparr>ss_arrs := (ss_arrs st)(ss_next st \<mapsto> s),
        ss_objs := (ss_objs st)(x \<mapsto> (Some (ss_next st), length s)),
        ss_next := Suc (ss_next st)\<rparr>"

definition ss_move_construct :: "nat \<Rightarrow> nat \<Rightarrow> ss_state \<Rightarrow> ss_state" where
  "ss_move_construct x other st =
     st\<lparr>ss_objs := (ss_objs st)(x := ss_objs st other, other \<mapsto> (None, 0))\<rparr>"

definition ss_move_assign :: "nat \<Rightarrow> nat \<Rightarrow> ss_state \<Rightarrow> ss_state" where
  "ss_move_assign x other st =
     (let pn = ss_objs st x in
      st\<lparr>ss_objs := (ss_objs st)(x := ss_objs st other, other := pn)\<rparr>)"

definition ss_destroy :: "nat \<Rightarrow> ss_state \<Rightarrow> ss_state" where
  "ss_destroy x st =
     (case ss_objs st x of
        Some (Some p, _) \<Rightarrow>
          st\<lparr>ss_arrs := (ss_arrs st)(p := None), ss_objs := (ss_objs st)(x := None)\<rparr>
      | _ \<Rightarrow> st\<lparr>ss_objs := (ss_objs st)(x := None)\<rparr>)"

text \<open>The conversion to a view; \<open>None\<close> when the pointer does not point to a live array of
  that length.\<close>

definition ss_view :: "nat \<Rightarrow> ss_state \<Rightarrow> string option" where
  "ss_view x st =
     (case ss_objs st x of
        Some (Some p, n) \<Rightarrow>
          (case ss_arrs st p of Some s \<Rightarrow> if length s = n then Some s else None | None \<Rightarrow> None)
      | Some (None, n) \<Rightarrow> if n = 0 then Some [] else None
      | None \<Rightarrow> None)"

inductive ss_step :: "ss_state \<Rightarrow> ss_state \<Rightarrow> bool" where
  default: "ss_objs st x = None \<Longrightarrow> ss_step st (ss_default x st)"
| from_view: "ss_objs st x = None \<Longrightarrow> ss_step st (ss_from_view x s st)"
| move_construct: "ss_objs st x = None \<Longrightarrow> ss_objs st other \<noteq> None \<Longrightarrow>
    ss_step st (ss_move_construct x other st)"
| move_assign: "ss_objs st x \<noteq> None \<Longrightarrow> ss_objs st other \<noteq> None \<Longrightarrow>
    ss_step st (ss_move_assign x other st)"
| destroy: "ss_objs st x \<noteq> None \<Longrightarrow> ss_step st (ss_destroy x st)"

inductive ss_reachable :: "ss_state \<Rightarrow> bool" where
  start: "ss_reachable ss_init"
| step: "ss_reachable st \<Longrightarrow> ss_step st st' \<Longrightarrow> ss_reachable st'"

text \<open>Every array is owned by exactly one object, every pointer leads to an array of the
  stored length, and addresses at or above the counter are unused.\<close>

definition ss_owner :: "ss_state \<Rightarrow> nat \<Rightarrow> nat \<Rightarrow> bool" where
  "ss_owner st x p \<longleftrightarrow> (\<exists>n. ss_objs st x = Some (Some p, n))"

definition ss_inv :: "ss_state \<Rightarrow> bool" where
  "ss_inv st \<longleftrightarrow>
     (\<forall>x p n. ss_objs st x = Some (Some p, n) \<longrightarrow>
        (\<exists>s. ss_arrs st p = Some s \<and> length s = n)) \<and>
     (\<forall>x n. ss_objs st x = Some (None, n) \<longrightarrow> n = 0) \<and>
     (\<forall>x y p. ss_owner st x p \<longrightarrow> ss_owner st y p \<longrightarrow> x = y) \<and>
     (\<forall>p. ss_arrs st p \<noteq> None \<longrightarrow> (\<exists>x. ss_owner st x p)) \<and>
     (\<forall>p \<ge> ss_next st. ss_arrs st p = None)"

lemma ss_invD:
  assumes "ss_inv st"
  shows "ss_objs st x = Some (Some p, n) \<Longrightarrow> \<exists>s. ss_arrs st p = Some s \<and> length s = n"
    and "ss_objs st x = Some (None, n) \<Longrightarrow> n = 0"
    and "ss_objs st x = Some (Some p, n) \<Longrightarrow> ss_objs st y = Some (Some p, m) \<Longrightarrow> x = y"
    and "ss_arrs st p \<noteq> None \<Longrightarrow> \<exists>x n. ss_objs st x = Some (Some p, n)"
    and "ss_next st \<le> p \<Longrightarrow> ss_arrs st p = None"
  using assms unfolding ss_inv_def ss_owner_def by blast+

lemma ss_inv_pointer_bound: "ss_inv st \<Longrightarrow> ss_objs st x = Some (Some p, n) \<Longrightarrow> p < ss_next st"
  using ss_invD(1,5) [of st] by (metis not_le option.distinct(1))

lemma ss_inv_default: "ss_inv st \<Longrightarrow> ss_objs st x = None \<Longrightarrow> ss_inv (ss_default x st)"
  unfolding ss_inv_def ss_owner_def ss_default_def
  by (auto split: if_splits) (metis option.distinct(1))

lemma ss_inv_from_view:
  assumes "ss_inv st" "ss_objs st x = None"
  shows "ss_inv (ss_from_view x s st)"
proof -
  have fresh: "ss_objs st y \<noteq> Some (Some (ss_next st), n)" for y n
    using ss_inv_pointer_bound [OF assms(1)] by blast
  have arr: "\<exists>y n. ss_objs st y = Some (Some p, n) \<and> y \<noteq> x" if "ss_arrs st p \<noteq> None" for p
    using ss_invD(4) [OF assms(1) that] assms(2) by force
  show ?thesis
    using assms ss_invD [OF assms(1)] fresh arr
    unfolding ss_inv_def ss_owner_def ss_from_view_def
    by (auto split: if_splits) (metis fun_upd_other ss_invD(3) [OF assms(1)])+
qed

text \<open>A move relabels the owners: with a permutation of the names, the invariant stays.\<close>

lemma ss_inv_relabel:
  assumes inv: "ss_inv st" and same: "ss_arrs st' = ss_arrs st" "ss_next st' = ss_next st"
    and invol: "\<And>y. g (g y) = y"
    and objs: "\<And>y p n. ss_objs st' y = Some (Some p, n) \<longleftrightarrow> ss_objs st (g y) = Some (Some p, n)"
    and null: "\<And>y n. ss_objs st' y = Some (None, n) \<Longrightarrow> n = 0"
  shows "ss_inv st'"
proof -
  have "\<exists>s. ss_arrs st' p = Some s \<and> length s = n" if "ss_objs st' y = Some (Some p, n)" for y p n
    using that objs same(1) ss_invD(1) [OF inv] by metis
  moreover have "x = y" if "ss_owner st' x p" "ss_owner st' y p" for x y p
  proof -
    have "g x = g y"
      using that objs ss_invD(3) [OF inv] unfolding ss_owner_def by metis
    then show ?thesis using invol by metis
  qed
  moreover have "\<exists>x. ss_owner st' x p" if "ss_arrs st' p \<noteq> None" for p
  proof -
    have "ss_arrs st p \<noteq> None" using that same(1) by simp
    then obtain x n where "ss_objs st x = Some (Some p, n)"
      using ss_invD(4) [OF inv] by blast
    then have "ss_objs st' (g x) = Some (Some p, n)" by (simp add: objs invol)
    then show ?thesis unfolding ss_owner_def by blast
  qed
  moreover have "ss_arrs st' p = None" if "ss_next st' \<le> p" for p
    using ss_invD(5) [OF inv] that same by metis
  ultimately show ?thesis
    using null unfolding ss_inv_def by blast
qed

lemma ss_inv_move_assign: "ss_inv st \<Longrightarrow> ss_inv (ss_move_assign x other st)"
  by (rule ss_inv_relabel [of st _ "id(x := other, other := x)"])
    (auto simp: ss_move_assign_def Let_def dest: ss_invD(2) split: if_splits)

lemma ss_inv_move_construct:
  "ss_inv st \<Longrightarrow> ss_objs st x = None \<Longrightarrow> ss_objs st other \<noteq> None \<Longrightarrow>
     ss_inv (ss_move_construct x other st)"
  by (rule ss_inv_relabel [of st _ "id(x := other, other := x)"])
    (auto simp: ss_move_construct_def dest: ss_invD(2) split: if_splits)

lemma ss_inv_destroy:
  assumes inv: "ss_inv st"
  shows "ss_inv (ss_destroy x st)"
proof (cases "\<exists>p n. ss_objs st x = Some (Some p, n)")
  case True
  then obtain p n where px: "ss_objs st x = Some (Some p, n)" by blast
  have other: "q \<noteq> p" if "ss_objs st y = Some (Some q, m)" "y \<noteq> x" for y q m
    using ss_invD(3) [OF inv px] that by blast
  show ?thesis
    unfolding ss_inv_def ss_owner_def
  proof (intro conjI allI impI)
    fix y q m assume "ss_objs (ss_destroy x st) y = Some (Some q, m)"
    then have "ss_objs st y = Some (Some q, m)" "y \<noteq> x"
      by (auto simp: ss_destroy_def px split: if_splits)
    then show "\<exists>s. ss_arrs (ss_destroy x st) q = Some s \<and> length s = m"
      using other ss_invD(1) [OF inv] by (auto simp: ss_destroy_def px)
  next
    fix q assume "ss_arrs (ss_destroy x st) q \<noteq> None"
    then have q: "ss_arrs st q \<noteq> None" "q \<noteq> p"
      by (auto simp: ss_destroy_def px split: if_splits)
    then obtain y m where "ss_objs st y = Some (Some q, m)"
      using ss_invD(4) [OF inv] by blast
    with q px have "ss_objs (ss_destroy x st) y = Some (Some q, m)"
      by (auto simp: ss_destroy_def px)
    then show "\<exists>y m. ss_objs (ss_destroy x st) y = Some (Some q, m)" by blast
  qed (use inv px in \<open>auto simp: ss_destroy_def ss_invD split: if_splits
        intro: ss_invD(3) dest: ss_invD(2,5)\<close>)
next
  case False
  then have d: "ss_destroy x st = st\<lparr>ss_objs := (ss_objs st)(x := None)\<rparr>"
    by (auto simp: ss_destroy_def split: option.splits)
  show ?thesis
    unfolding ss_inv_def ss_owner_def
  proof (intro conjI allI impI)
    fix q assume "ss_arrs (ss_destroy x st) q \<noteq> None"
    then have "ss_arrs st q \<noteq> None" using d by simp
    then obtain y m where "ss_objs st y = Some (Some q, m)"
      using ss_invD(4) [OF inv] by blast
    then show "\<exists>y m. ss_objs (ss_destroy x st) y = Some (Some q, m)"
      using False d by (intro exI [of _ y] exI [of _ m]) auto
  qed (use inv d in \<open>auto split: if_splits intro: ss_invD(1,3) dest: ss_invD(2,5)\<close>)
qed

lemma ss_step_inv: "ss_step st st' \<Longrightarrow> ss_inv st \<Longrightarrow> ss_inv st'"
  by (induction rule: ss_step.induct)
    (simp_all add: ss_inv_default ss_inv_from_view ss_inv_move_construct ss_inv_move_assign
      ss_inv_destroy)

lemma ss_reachable_inv: "ss_reachable st \<Longrightarrow> ss_inv st"
proof (induction rule: ss_reachable.induct)
  case start
  show ?case by (simp add: ss_inv_def ss_owner_def ss_init_def)
next
  case (step st st')
  then show ?case by (blast intro: ss_step_inv)
qed

text \<open>
  C28. Ownership of the route pattern strings: in every state a program can reach, each
  live \<^verbatim>\<open>stable_string\<close> converts to a view of memory it owns, every allocated array has
  exactly one owner (so it is freed once), and when no object is left no array is left.
\<close>

theorem stable_string_memory_safe:
  assumes "ss_reachable st"
  shows "(\<forall>x. ss_objs st x \<noteq> None \<longrightarrow> ss_view x st \<noteq> None) \<and>
    (\<forall>p. ss_arrs st p \<noteq> None \<longleftrightarrow> (\<exists>!x. ss_owner st x p)) \<and>
    ((\<forall>x. ss_objs st x = None) \<longrightarrow> ss_arrs st = Map.empty)"
proof (intro conjI allI impI)
  note inv = ss_reachable_inv [OF assms]
  fix x assume "ss_objs st x \<noteq> None"
  then obtain p n where "ss_objs st x = Some (p, n)" by auto
  then show "ss_view x st \<noteq> None"
    using ss_invD(1) [OF inv, of x _ n] ss_invD(2) [OF inv, of x n]
    by (cases p) (auto simp: ss_view_def)
next
  note inv = ss_reachable_inv [OF assms]
  fix p
  show "ss_arrs st p \<noteq> None \<longleftrightarrow> (\<exists>!x. ss_owner st x p)"
    using ss_invD(1,3,4) [OF inv] unfolding ss_owner_def by (metis option.distinct(1))
next
  note inv = ss_reachable_inv [OF assms]
  assume none: "\<forall>x. ss_objs st x = None"
  show "ss_arrs st = Map.empty"
  proof
    fix p show "ss_arrs st p = None"
      using ss_invD(4) [OF inv, of p] none by fastforce
  qed
qed

theorem stable_string_memory_safe_witness:
  "ss_reachable (ss_from_view 0 ''/api'' ss_init) \<and> ss_view 0 (ss_from_view 0 ''/api'' ss_init) \<noteq> None"
proof -
  have r: "ss_reachable (ss_from_view 0 ''/api'' ss_init)"
    by (rule ss_reachable.step [OF ss_reachable.start])
      (rule ss_step.from_view, simp add: ss_init_def)
  from stable_string_memory_safe [OF r] have "ss_view 0 (ss_from_view 0 ''/api'' ss_init) \<noteq> None"
    by (simp add: ss_from_view_def)
  with r show ?thesis by blast
qed

subsection \<open>Character classes\<close>

definition unreserved_char :: "char \<Rightarrow> bool" where
  "unreserved_char ch \<longleftrightarrow> ch \<noteq> CHR ''/'' \<and>
     ((0x21 \<le> schar ch \<and> schar ch \<le> 0x2F) \<or> (0x30 \<le> schar ch \<and> schar ch \<le> 0x3B) \<or>
      (0x3D \<le> schar ch \<and> schar ch \<le> 0x5A) \<or> (0x5C \<le> schar ch \<and> schar ch \<le> 0x7E))"

definition constraint_char :: "char \<Rightarrow> bool" where
  "constraint_char ch \<longleftrightarrow> 0x20 \<le> schar ch \<and> schar ch \<le> 0x7E \<and> ch \<noteq> CHR '')''"

definition ident_char :: "char \<Rightarrow> bool" where
  "ident_char ch \<longleftrightarrow>
     (schar (CHR ''a'') \<le> schar ch \<and> schar ch \<le> schar (CHR ''z'')) \<or>
     (schar (CHR ''0'') \<le> schar ch \<and> schar ch \<le> schar (CHR ''9'')) \<or>
     (schar (CHR ''A'') \<le> schar ch \<and> schar ch \<le> schar (CHR ''Z'')) \<or> ch = CHR ''_''"

subsection \<open>The rules\<close>

type_synonym find_fn = "(char \<Rightarrow> bool) \<Rightarrow> string \<Rightarrow> string"

text \<open>The characters between two positions, given by what remains at each.\<close>

definition view_from :: "string \<Rightarrow> string \<Rightarrow> string" where
  "view_from it0 it = take (length it0 - length it) it0"

definition token_rule_parse ::
  "find_fn \<Rightarrow> (char \<Rightarrow> bool) \<Rightarrow> string \<Rightarrow> (gerror + string) \<times> string" where
  "token_rule_parse find_if_not cs it =
     (if it = [] then (Inl err_syntax, it)
      else let it1 = find_if_not cs it in
        if it1 = it then (Inl err_mismatch, it)
        else (Inr (view_from it it1), it1))"

definition literal_segment_rule_parse :: "find_fn \<Rightarrow> string \<Rightarrow> (gerror + string) \<times> string" where
  "literal_segment_rule_parse find_if_not it = token_rule_parse find_if_not unreserved_char it"

text \<open>\<^verbatim>\<open>constraint_rule\<close>: on a bad closing character \<^verbatim>\<open>it\<close> stays where the scan stopped.\<close>

definition constraint_rule_parse :: "find_fn \<Rightarrow> string \<Rightarrow> (gerror + string) \<times> string" where
  "constraint_rule_parse find_if_not it =
     (if it = [] \<or> hd it \<noteq> CHR ''('' then (Inr [], it)
      else let it0 = it; it = find_if_not constraint_char it in
        if length it0 - length it \<le> 1 then (Inl err_syntax, it0)
        else if it = [] then (Inl err_syntax, it0)
        else if hd it \<noteq> CHR '')'' then (Inl err_syntax, it)
        else (Inr (view_from (tl it0) it), tl it))"

definition param_name_rule_parse ::
  "find_fn \<Rightarrow> (char \<Rightarrow> bool) \<Rightarrow> string \<Rightarrow> (gerror + string) \<times> string" where
  "param_name_rule_parse find_if_not alpha it =
     (if it = [] then (Inl err_syntax, it)
      else if \<not> alpha (hd it) then (Inl err_syntax, it)
      else let it0 = it; it = find_if_not ident_char (tl it) in (Inr (view_from it0 it), it))"

text \<open>\<^verbatim>\<open>route_seg\<close>; \<^verbatim>\<open>term\<close> has no initialiser, \<open>None\<close> is the indeterminate value.\<close>

record route_seg =
  rs_prefix :: string
  rs_name :: string
  rs_constraint :: string
  rs_ptype :: "char option"
  rs_modifier :: "char option"
  rs_term :: "char option"

definition route_seg_default :: route_seg where
  "route_seg_default = \<lparr>rs_prefix = [], rs_name = [], rs_constraint = [], rs_ptype = None,
     rs_modifier = None, rs_term = None\<rparr>"

definition is_modifier :: "char \<Rightarrow> bool" where
  "is_modifier c \<longleftrightarrow> c = CHR ''?'' \<or> c = CHR ''*'' \<or> c = CHR ''+''"

definition param_segment_rule_parse ::
  "find_fn \<Rightarrow> (char \<Rightarrow> bool) \<Rightarrow> string \<Rightarrow> (gerror + route_seg) \<times> string" where
  "param_segment_rule_parse find_if_not alpha it =
     (if it = [] then (Inl err_syntax, it)
      else if hd it \<noteq> CHR '':'' \<and> hd it \<noteq> CHR ''*'' then (Inl err_mismatch, it)
      else let v = route_seg_default\<lparr>rs_ptype := Some (hd it)\<rparr> in
        case param_name_rule_parse find_if_not alpha (tl it) of
          (Inl e, it) \<Rightarrow> (Inl e, it)
        | (Inr nm, it) \<Rightarrow>
            (case constraint_rule_parse find_if_not it of
               (Inl e, it) \<Rightarrow> (Inl e, it)
             | (Inr c, it) \<Rightarrow>
                 (let v = v\<lparr>rs_name := nm, rs_constraint := c\<rparr> in
                  if it \<noteq> [] \<and> is_modifier (hd it)
                  then (Inr (v\<lparr>rs_modifier := Some (hd it)\<rparr>), tl it)
                  else (Inr v, it))))"

text \<open>
  \<^verbatim>\<open>path_rule_t::parse\<close>.  \<open>whole\<close> is \<^verbatim>\<open>urls::grammar::parse(string_view(it, end), rule)\<close>, which
  does not move \<^verbatim>\<open>it\<close>; the view \<^verbatim>\<open>{ it2, it1 }\<close> given to the prefix runs backwards.  Since \<^verbatim>\<open>it\<close>
  still points at the marker, the check for a second marker always fires and the
  \<^verbatim>\<open>push_back\<close> below it is not reached.
\<close>

type_synonym whole_fn =
  "(string \<Rightarrow> (gerror + route_seg) \<times> string) \<Rightarrow> string \<Rightarrow> gerror + route_seg"

fun path_loop ::
  "whole_fn \<Rightarrow> (string \<Rightarrow> (gerror + route_seg) \<times> string) \<Rightarrow> string \<Rightarrow> string \<Rightarrow> route_seg list \<Rightarrow>
     gerror + (string \<times> route_seg list)" where
  "path_loop whole rule it1 [] segs = Inr (it1, segs)"
| "path_loop whole rule it1 (c # it') segs =
     (let it = c # it' in
      if c = CHR '':'' \<or> c = CHR ''*'' then
        (case whole rule it of
           Inl e \<Rightarrow> Inl e
         | Inr rs \<Rightarrow>
             if it \<noteq> [] \<and> (hd it = CHR '':'' \<or> hd it = CHR ''*'') then Inl err_syntax
             else Inr (it, segs @ [rs\<lparr>rs_prefix := view_from it it1\<rparr>]))
      else path_loop whole rule it1 it' segs)"

definition path_rule_parse ::
  "find_fn \<Rightarrow> (char \<Rightarrow> bool) \<Rightarrow> whole_fn \<Rightarrow> string \<Rightarrow> (gerror + route_seg list) \<times> string" where
  "path_rule_parse find_if_not alpha whole it0 =
     (case path_loop whole (param_segment_rule_parse find_if_not alpha) it0 it0 [] of
        Inl e \<Rightarrow> (Inl e, it0)
      | Inr (it1, segs) \<Rightarrow>
          (Inr (if it1 \<noteq> [] then segs @ [route_seg_default\<lparr>rs_prefix := it1\<rparr>] else segs),
           drop (length it1) it0))"

subsection \<open>What the rules accept\<close>

text \<open>A parameter segment as the grammar in the header comment writes it.\<close>

definition valid_param :: "route_seg \<Rightarrow> bool" where
  "valid_param v \<longleftrightarrow>
     (rs_ptype v = Some (CHR '':'') \<or> rs_ptype v = Some (CHR ''*'')) \<and>
     rs_name v \<noteq> [] \<and> is_alpha (hd (rs_name v)) \<and> list_all ident_char (tl (rs_name v)) \<and>
     list_all constraint_char (rs_constraint v) \<and>
     (case rs_modifier v of None \<Rightarrow> True | Some m \<Rightarrow> is_modifier m) \<and>
     rs_prefix v = [] \<and> rs_term v = None"

definition print_param :: "route_seg \<Rightarrow> string" where
  "print_param v = the (rs_ptype v) # rs_name v @
     (if rs_constraint v = [] then [] else CHR ''('' # rs_constraint v @ [CHR '')'']) @
     (case rs_modifier v of None \<Rightarrow> [] | Some m \<Rightarrow> [m])"

lemma view_from_dropWhile [view_simps]: "view_from s (dropWhile P s) = takeWhile P s"
proof -
  have "length s = length (takeWhile P s) + length (dropWhile P s)"
    by (metis length_append takeWhile_dropWhile_id)
  then have "length s - length (dropWhile P s) = length (takeWhile P s)" by simp
  then show ?thesis
    unfolding view_from_def by (metis takeWhile_eq_take)
qed

lemma view_from_Cons_dropWhile [view_simps]:
  "view_from (c # s) (dropWhile P s) = c # takeWhile P s"
proof -
  have "length (dropWhile P s) \<le> length s" by (rule length_dropWhile_le)
  then show ?thesis
    using view_from_dropWhile [of s P] by (simp add: view_from_def Suc_diff_le)
qed

lemma not_ident_chars [char_simps]:
  "\<not> ident_char (CHR ''('')" "is_modifier c \<Longrightarrow> \<not> ident_char c" "is_modifier c \<Longrightarrow> c \<noteq> CHR ''(''"
  by (auto simp: ident_char_def is_modifier_def schar_def byte_def)

lemma constraint_chars [char_simps]: "constraint_char (CHR ''('')" "\<not> constraint_char (CHR '')'')"
  by (auto simp: constraint_char_def schar_def byte_def)

lemma dropWhile_stop: "list_all P xs \<Longrightarrow> (ys = [] \<or> \<not> P (hd ys)) \<Longrightarrow> dropWhile P (xs @ ys) = ys"
  by (induction xs) (auto simp: dropWhile_eq_self_iff)

lemma takeWhile_stop: "list_all P xs \<Longrightarrow> (ys = [] \<or> \<not> P (hd ys)) \<Longrightarrow> takeWhile P (xs @ ys) = xs"
  by (induction xs) (auto simp: takeWhile_eq_Nil_iff)

lemma path_loop_no_marker:
  "CHR '':'' \<notin> set it \<Longrightarrow> CHR ''*'' \<notin> set it \<Longrightarrow> path_loop whole rule it1 it segs = Inr (it1, segs)"
  by (induction it) (auto simp: Let_def)

lemma path_loop_marker:
  "CHR '':'' \<in> set it \<or> CHR ''*'' \<in> set it \<Longrightarrow> \<exists>e. path_loop whole rule it1 it segs = Inl e"
  by (induction it) (auto simp: Let_def split: sum.splits)

locale url_charsets =
  fixes find_if_not :: find_fn and alpha :: "char \<Rightarrow> bool" and whole :: whole_fn
  assumes find_law: "find_if_not cs s = dropWhile cs s"
    and alpha_law: "alpha c = is_alpha c"
    and whole_law: "whole rule s =
      (case rule s of (Inl e, _) \<Rightarrow> Inl e
       | (Inr v, t) \<Rightarrow> if t = [] then Inr v else Inl err_leftover)"
begin

lemmas laws = find_law alpha_law whole_law

lemma name_parse:
  "param_name_rule_parse find_if_not alpha it =
     (if it = [] \<or> \<not> is_alpha (hd it) then (Inl err_syntax, it)
      else (Inr (hd it # takeWhile ident_char (tl it)), dropWhile ident_char (tl it)))"
  by (cases it) (auto simp: param_name_rule_parse_def laws Let_def view_simps)

lemma constraint_parse:
  "constraint_rule_parse find_if_not it =
     (if it = [] \<or> hd it \<noteq> CHR ''('' then (Inr [], it)
      else let c = takeWhile constraint_char (tl it); r = dropWhile constraint_char (tl it) in
        if c = [] then (Inl err_syntax, it)
        else if r = [] then (Inl err_syntax, it)
        else if hd r \<noteq> CHR '')'' then (Inl err_syntax, r)
        else (Inr c, tl r))"
proof (cases it)
  case (Cons x xs)
  let ?c = "takeWhile constraint_char xs" and ?r = "dropWhile constraint_char xs"
  have "length xs = length ?c + length ?r"
    by (metis length_append takeWhile_dropWhile_id)
  then have "length (x # xs) - length ?r \<le> 1 \<longleftrightarrow> ?c = []" by auto
  then show ?thesis
    using Cons constraint_chars(1)
    by (auto simp: constraint_rule_parse_def laws Let_def view_simps)
qed (simp add: constraint_rule_parse_def)

lemma param_segment_complete:
  assumes "valid_param v"
  shows "param_segment_rule_parse find_if_not alpha (print_param v) = (Inr v, [])"
proof -
  obtain pt x xs where v: "rs_ptype v = Some pt" "rs_name v = x # xs" "is_alpha x"
    "list_all ident_char xs" "pt = CHR '':'' \<or> pt = CHR ''*''"
    using assms by (cases "rs_name v") (auto simp: valid_param_def)
  define c where "c = rs_constraint v"
  define m where "m = (case rs_modifier v of None \<Rightarrow> [] | Some m \<Rightarrow> [m])"
  define cm where "cm = (if c = [] then [] else CHR ''('' # c @ [CHR '')'']) @ m"
  have m: "m = [] \<or> (\<exists>y. m = [y] \<and> is_modifier y \<and> rs_modifier v = Some y)"
    using assms by (auto simp: m_def valid_param_def split: option.splits)
  have mn: "m = [] \<longleftrightarrow> rs_modifier v = None"
    by (auto simp: m_def split: option.splits)
  have print: "print_param v = pt # x # xs @ cm"
    by (simp add: print_param_def v c_def m_def cm_def)
  have stop: "cm = [] \<or> \<not> ident_char (hd cm)"
    using m by (auto simp: cm_def char_simps)
  have nm: "param_name_rule_parse find_if_not alpha (x # xs @ cm) = (Inr (x # xs), cm)"
    using v dropWhile_stop [OF v(4) stop] takeWhile_stop [OF v(4) stop]
    by (simp add: name_parse)
  have cc: "list_all constraint_char c" using assms by (simp add: valid_param_def c_def)
  have cs: "constraint_rule_parse find_if_not cm = (Inr c, m)"
  proof (cases "c = []")
    case True
    with m show ?thesis by (auto simp: cm_def constraint_parse char_simps)
  next
    case False
    have "dropWhile constraint_char (c @ CHR '')'' # m) = CHR '')'' # m"
      "takeWhile constraint_char (c @ CHR '')'' # m) = c"
      by (rule dropWhile_stop [OF cc], simp add: char_simps)
        (rule takeWhile_stop [OF cc], simp add: char_simps)
    with False show ?thesis by (simp add: cm_def constraint_parse Let_def)
  qed
  have fin: "rs_prefix v = []" "rs_term v = None" using assms by (auto simp: valid_param_def)
  show ?thesis
    using v(5) m mn fin v(1,2)
    by (auto simp: print param_segment_rule_parse_def Let_def nm cs route_seg_default_def c_def)
qed

lemma param_segment_sound:
  assumes "param_segment_rule_parse find_if_not alpha s = (Inr v, [])"
  shows "valid_param v \<and> s = print_param v"
proof -
  obtain pt it where s: "s = pt # it" "pt = CHR '':'' \<or> pt = CHR ''*''"
    using assms by (cases s) (auto simp: param_segment_rule_parse_def split: if_splits)
  obtain nm it2 where nm: "param_name_rule_parse find_if_not alpha it = (Inr nm, it2)"
    using assms s
    by (auto simp: param_segment_rule_parse_def Let_def split: prod.splits sum.splits)
  obtain c it3 where c: "constraint_rule_parse find_if_not it2 = (Inr c, it3)"
    using assms s nm
    by (auto simp: param_segment_rule_parse_def Let_def split: prod.splits sum.splits)
  have it: "it \<noteq> []" "is_alpha (hd it)" "nm = hd it # takeWhile ident_char (tl it)"
    "it2 = dropWhile ident_char (tl it)"
    using nm by (auto simp: name_parse split: if_splits)
  have it_eq: "it = nm @ it2"
    using it by (metis append_Cons list.collapse takeWhile_dropWhile_id)
  have c_eq: "list_all constraint_char c \<and>
      it2 = (if c = [] then [] else CHR ''('' # c @ [CHR '')'']) @ it3"
  proof (cases "it2 = [] \<or> hd it2 \<noteq> CHR ''(''")
    case True
    with c show ?thesis by (auto simp: constraint_parse)
  next
    case False
    let ?r = "dropWhile constraint_char (tl it2)"
    have r0: "c = takeWhile constraint_char (tl it2)" "c \<noteq> []" "?r \<noteq> []" "hd ?r = CHR '')''"
      "tl ?r = it3"
      using False c by (auto simp: constraint_parse Let_def split: if_splits)
    then have r: "c = takeWhile constraint_char (tl it2)" "c \<noteq> []" "?r = CHR '')'' # it3"
      by (simp_all add: list.expand)
    have "it2 = CHR ''('' # tl it2" using False by (metis list.collapse)
    also have "tl it2 = c @ ?r" using r(1) by simp
    finally have "it2 = CHR ''('' # c @ CHR '')'' # it3" by (simp only: r(3))
    moreover have "list_all constraint_char c"
      using r(1) by (auto simp: list_all_iff dest: set_takeWhileD)
    ultimately show ?thesis using r(2) by simp
  qed
  have v: "v = route_seg_default\<lparr>rs_ptype := Some pt, rs_name := nm, rs_constraint := c,
             rs_modifier := (if it3 = [] then None else Some (hd it3))\<rparr>"
    and it3: "it3 = [] \<or> is_modifier (hd it3) \<and> it3 = [hd it3]"
    using assms s(2)
    by (simp_all add: s(1) param_segment_rule_parse_def Let_def nm c list.expand
        route_seg_default_def split: if_splits)
  have idents: "list_all ident_char (tl nm)"
    using it(3) by (auto simp: list_all_iff dest: set_takeWhileD)
  have "valid_param v"
    using s(2) it(2,3) idents c_eq it3 by (auto simp: v valid_param_def route_seg_default_def)
  moreover have "s = print_param v"
    using s(1) it_eq c_eq it3
    by (cases "it3 = []") (simp_all add: v print_param_def route_seg_default_def)
  ultimately show ?thesis by blast
qed

end

interpretation std: url_charsets dropWhile is_alpha
  "\<lambda>rule s. case rule s of (Inl e, _) \<Rightarrow> Inl e | (Inr v, t) \<Rightarrow> if t = [] then Inr v else Inl err_leftover"
  by unfold_locales auto

text \<open>
  C29. Parsing a parameter segment is the inverse of writing it: over a Boost.URL that
  finds, classifies and parses as documented, a string parses as a parameter segment
  exactly when it is the text of a well-formed one (marker, identifier, optional
  constraint, optional modifier), and the result is that segment.
\<close>

theorem param_segment_roundtrip:
  assumes "url_charsets find_if_not alpha whole"
  shows "whole (param_segment_rule_parse find_if_not alpha) s = Inr v \<longleftrightarrow>
    valid_param v \<and> s = print_param v"
proof
  assume w: "whole (param_segment_rule_parse find_if_not alpha) s = Inr v"
  show "valid_param v \<and> s = print_param v"
    using w url_charsets.whole_law [OF assms] url_charsets.param_segment_sound [OF assms, of s v]
    by (auto split: prod.splits sum.splits if_splits)
next
  assume "valid_param v \<and> s = print_param v"
  then show "whole (param_segment_rule_parse find_if_not alpha) s = Inr v"
    using url_charsets.param_segment_complete [OF assms, of v] url_charsets.whole_law [OF assms]
    by simp
qed

theorem param_segment_roundtrip_witness:
  "(case param_segment_rule_parse dropWhile is_alpha '':id(x)+'' of
      (Inl e, _) \<Rightarrow> Inl e | (Inr v, t) \<Rightarrow> if t = [] then Inr v else Inl err_leftover) =
   Inr \<lparr>rs_prefix = [], rs_name = ''id'', rs_constraint = ''x'', rs_ptype = Some (CHR '':''),
        rs_modifier = Some (CHR ''+''), rs_term = None\<rparr>"
proof -
  let ?v = "\<lparr>rs_prefix = [], rs_name = ''id'', rs_constraint = ''x'', rs_ptype = Some (CHR '':''),
        rs_modifier = Some (CHR ''+''), rs_term = None\<rparr> :: route_seg"
  have "valid_param ?v"
    by (simp add: valid_param_def is_alpha_def ident_char_def constraint_char_def is_modifier_def
        schar_def byte_def)
  moreover have "'':id(x)+'' = print_param ?v"
    by (simp add: print_param_def)
  ultimately show ?thesis
    using param_segment_roundtrip [OF std.url_charsets_axioms, of "'':id(x)+''" ?v] by blast
qed

text \<open>
  A route pattern parses exactly when it has no parameter marker: a pattern with a
  colon or an asterisk anywhere is always refused and leaves the input where it was, a
  pattern without one is taken whole as a single literal segment (none for the empty
  pattern).
\<close>

theorem path_rule_outcome:
  "if CHR '':'' \<in> set s \<or> CHR ''*'' \<in> set s
   then isl (fst (path_rule_parse find_if_not alpha whole s)) \<and>
     snd (path_rule_parse find_if_not alpha whole s) = s
   else path_rule_parse find_if_not alpha whole s =
     (Inr (if s = [] then [] else [route_seg_default\<lparr>rs_prefix := s\<rparr>]), [])"
proof (cases "CHR '':'' \<in> set s \<or> CHR ''*'' \<in> set s")
  case True
  then obtain e where
    "path_loop whole (param_segment_rule_parse find_if_not alpha) s s [] = Inl e"
    using path_loop_marker by blast
  with True show ?thesis by (simp add: path_rule_parse_def)
next
  case False
  then show ?thesis by (simp add: path_rule_parse_def path_loop_no_marker)
qed

end
