(* ===== verification/Url_View.thy ===== *)
theory Url_View
  imports Except
begin

text \<open>
  Parsed URLs.  \<^verbatim>\<open>boost::urls::url\<close> belongs to Boost.URL; the sources only build one with the
  library's parser and read it through its observers, so a URL is the record of the values
  the observers return.
\<close>

datatype scheme =
    scheme_none | scheme_unknown | scheme_ftp | scheme_file | scheme_http | scheme_https
  | scheme_ws | scheme_wss

record url_view =
  u_scheme_id :: scheme
  u_scheme :: string
  u_has_userinfo :: bool
  u_userinfo :: string
  u_user :: string
  u_password :: string
  u_host :: string
  u_encoded_host :: string
  u_host_and_port :: string
  u_has_port :: bool
  u_port :: string
  u_path :: string
  u_segments :: "string list"
  u_target :: string
  u_origin :: string
  u_text :: string

text \<open>A default-constructed URL.\<close>

definition url_blank :: url_view where
  "url_blank = \<lparr>u_scheme_id = scheme_none, u_scheme = [], u_has_userinfo = False, u_userinfo = [],
     u_user = [], u_password = [], u_host = [], u_encoded_host = [], u_host_and_port = [], u_has_port = False,
     u_port = [], u_path = [], u_segments = [], u_target = [], u_origin = [], u_text = []\<rparr>"

end
