(* ===== verification/Cookie.thy ===== *)
theory Cookie
  imports Url_Grammar Url_View
begin

text \<open>
  The cookie engine of the burl client (\<^verbatim>\<open>cookie.hpp\<close>, \<^verbatim>\<open>cookie.cpp\<close>): parsing a
  \<^verbatim>\<open>Set-Cookie\<close> value, the jar that adds, selects and expires cookies, and the Netscape file
  format.  A \<^verbatim>\<open>system_clock::time_point\<close> is its count of nanoseconds since the epoch, a signed
  64-bit number whose overflow is undefined.  The clock's reading is an argument of the
  operations that ask for it.  Parameters from outside the repository: \<open>gparse\<close> and \<open>ci\<close>
  (\<^verbatim>\<open>grammar::parse\<close>, \<^verbatim>\<open>ci_is_equal\<close>), \<open>lower\<close> (\<^verbatim>\<open>grammar::to_lower\<close>), \<open>psl\<close>
  (\<^verbatim>\<open>psl_is_cookie_domain_acceptable\<close>, absent when libpsl is not configured) and \<open>cal\<close>, the
  calendar conversion of \<^verbatim>\<open>std::get_time\<close> and \<^verbatim>\<open>std::mktime\<close> in the process's locale and
  time zone.
\<close>

datatype same_site_t = ss_strict | ss_lax | ss_none

record cookie =
  ck_name :: string
  ck_value :: "string option"
  ck_expires :: "int option"
  ck_domain :: "string option"
  ck_path :: "string option"
  ck_same_site :: "same_site_t option"
  ck_partitioned :: bool
  ck_secure :: bool
  ck_http_only :: bool
  ck_tailmatch :: bool

definition cookie_default :: cookie where
  "cookie_default = \<lparr>ck_name = [], ck_value = None, ck_expires = None, ck_domain = None,
     ck_path = None, ck_same_site = None, ck_partitioned = False, ck_secure = False,
     ck_http_only = False, ck_tailmatch = False\<rparr>"

record cookie_jar =
  jar_cookies :: "cookie list"

definition jar_empty :: cookie_jar where
  "jar_empty = \<lparr>jar_cookies = []\<rparr>"

subsection \<open>Character classes\<close>

definition name_chars :: "char \<Rightarrow> bool" where
  "name_chars c \<longleftrightarrow>
     schar c > 0x20 \<and> schar c \<noteq> 0x7F \<and>
     c \<noteq> CHR ''('' \<and> c \<noteq> CHR '')'' \<and> c \<noteq> CHR ''<'' \<and> c \<noteq> CHR ''>'' \<and> c \<noteq> CHR ''@'' \<and>
     c \<noteq> CHR '','' \<and> c \<noteq> CHR '';'' \<and> c \<noteq> CHR '':'' \<and> c \<noteq> CHR 0x5C \<and> c \<noteq> CHR 0x22 \<and>
     c \<noteq> CHR ''/'' \<and> c \<noteq> CHR ''['' \<and> c \<noteq> CHR '']'' \<and> c \<noteq> CHR ''?'' \<and> c \<noteq> CHR ''='' \<and>
     c \<noteq> CHR ''{'' \<and> c \<noteq> CHR ''}''"

definition value_chars :: "char \<Rightarrow> bool" where
  "value_chars c \<longleftrightarrow>
     schar c = 0x21 \<or>
     (schar c \<ge> 0x23 \<and> schar c \<le> 0x2B) \<or>
     (schar c \<ge> 0x2D \<and> schar c \<le> 0x3A) \<or>
     (schar c \<ge> 0x3C \<and> schar c \<le> 0x5B) \<or>
     (schar c \<ge> 0x5D \<and> schar c \<le> 0x7E)"

definition attr_chars :: charset where
  "attr_chars = cs_diff all_chars (lut_chars [CHR 0x1F, CHR 0x7F, CHR '';''])"

subsection \<open>Matching\<close>

definition domain_match :: "string \<Rightarrow> string \<Rightarrow> bool \<Rightarrow> bool" where
  "domain_match r_domain c_domain tailmatch =
     (if \<not> tailmatch then r_domain = c_domain
      else
        let c = (if starts_with c_domain ''.'' then drop 1 c_domain else c_domain) in
        if ends_with r_domain c then
          if length r_domain = length c then True
          else r_domain ! (length r_domain - length c - 1) = CHR ''.''
        else False)"

text \<open>The read of \<^verbatim>\<open>r_path\<close> is at a computed index; past the end it has no meaning.\<close>

definition path_match :: "string \<Rightarrow> string \<Rightarrow> exn + bool" where
  "path_match r_path c_path =
     (if r_path = [] then Inr True
      else if starts_with r_path c_path then
        if length r_path = length c_path then Inr True
        else if ends_with c_path ''/'' then Inr True
        else if length r_path - length c_path < length r_path
        then Inr (r_path ! (length r_path - length c_path) = CHR ''/'')
        else Inl (undefined_behaviour ''path_match'')
      else Inr False)"

subsection \<open>Dates\<close>

definition in_int64 :: "int \<Rightarrow> bool" where
  "in_int64 n \<longleftrightarrow> - (2 ^ 63) \<le> n \<and> n < 2 ^ 63"

definition ns_per_s :: int where
  "ns_per_s = 10 ^ 9"

definition from_time_t :: "int \<Rightarrow> exn + int" where
  "from_time_t t = (if in_int64 (t * ns_per_s) then Inr (t * ns_per_s)
     else Inl (undefined_behaviour ''from_time_t''))"

type_synonym calendar = "string \<Rightarrow> string \<Rightarrow> int"

definition parse_date :: "calendar \<Rightarrow> string \<Rightarrow> exn + int" where
  "parse_date cal sv =
     from_time_t (cal (if CHR ''-'' \<in> set sv then ''%a, %d-%b-%Y %H:%M:%S GMT''
                       else ''%a, %d %b %Y %H:%M:%S GMT'') sv)"

text \<open>\<^verbatim>\<open>system_clock::now() + seconds{n}\<close>.\<close>

definition add_seconds :: "int \<Rightarrow> int \<Rightarrow> exn + int" where
  "add_seconds now n =
     (if in_int64 (n * ns_per_s) \<and> in_int64 (now + n * ns_per_s) then Inr (now + n * ns_per_s)
      else Inl (undefined_behaviour ''time_point overflow''))"

subsection \<open>The Netscape cookie file line\<close>

definition field_chars :: charset where
  "field_chars = cs_diff all_chars (lut_chars [CHR 0x09])"

definition netscape_parser :: grule where
  "netscape_parser = tuple_rule
     [optional_rule (literal_rule ''#HttpOnly_''),
      token_rule field_chars,
      squelch (delim_char (CHR 0x09)),
      variant_rule [literal_rule ''FALSE'', literal_rule ''TRUE''],
      squelch (delim_char (CHR 0x09)),
      token_rule field_chars,
      squelch (delim_char (CHR 0x09)),
      variant_rule [literal_rule ''FALSE'', literal_rule ''TRUE''],
      squelch (delim_char (CHR 0x09)),
      unsigned_rule (2 ^ 32 - 1),
      squelch (delim_char (CHR 0x09)),
      token_rule field_chars,
      squelch (delim_char (CHR 0x09)),
      token_rule field_chars]"

definition epoch_to_expiry :: "nat \<Rightarrow> int option" where
  "epoch_to_expiry epoch = (if epoch = 0 then None else Some (int epoch * ns_per_s))"

definition parse_netscape_cookie :: "gparser \<Rightarrow> string \<Rightarrow> gerror + cookie" where
  "parse_netscape_cookie gparse sv =
     (case gparse netscape_parser sv of
        Inl e \<Rightarrow> Inl e
      | Inr p \<Rightarrow> Inr (cookie_default
          \<lparr>ck_http_only := g_opt (g_get 0 p) \<noteq> None,
           ck_domain := Some (g_str (g_get 1 p)),
           ck_tailmatch := g_index (g_get 2 p) \<noteq> 0,
           ck_path := Some (g_str (g_get 3 p)),
           ck_secure := g_index (g_get 4 p) \<noteq> 0,
           ck_expires := epoch_to_expiry (g_num (g_get 5 p)),
           ck_name := g_str (g_get 6 p),
           ck_value := Some (g_str (g_get 7 p))\<rparr>))"

subsection \<open>Parsing a Set-Cookie value\<close>

definition attr_rule :: grule where
  "attr_rule = tuple_rule
     [squelch (delim_char (CHR '';'')),
      squelch (optional_rule (delim_char (CHR '' ''))),
      token_rule (cs_diff attr_chars (lut_chars ''='')),
      squelch (optional_rule (delim_char (CHR ''=''))),
      optional_rule (token_rule attr_chars)]"

definition cookie_parser :: grule where
  "cookie_parser = tuple_rule
     [token_rule (user_chars name_chars),
      squelch (delim_char (CHR ''='')),
      optional_rule (token_rule (user_chars value_chars)),
      range_rule attr_rule]"

text \<open>One turn of the loop over the attributes.  The outer error is an exception that leaves
  \<^verbatim>\<open>parse_cookie\<close>, the inner one the error it returns.\<close>

definition apply_attr ::
    "(string \<Rightarrow> string \<Rightarrow> bool) \<Rightarrow> calendar \<Rightarrow> int \<Rightarrow> string \<Rightarrow> string option \<Rightarrow> cookie \<Rightarrow>
     exn + (gerror + cookie)" where
  "apply_attr ci cal now nm v rs =
     (if ci nm ''Expires'' then
        (case v of None \<Rightarrow> Inr (Inl err_invalid)
         | Some d \<Rightarrow> rmap (\<lambda>t. Inr (rs\<lparr>ck_expires := Some t\<rparr>)) (parse_date cal d))
      else if ci nm ''Max-Age'' then
        (case v of None \<Rightarrow> Inr (Inl err_invalid)
         | Some d \<Rightarrow> rmap (\<lambda>t. Inr (rs\<lparr>ck_expires := Some t\<rparr>))
                       (rbind (stoll d) (add_seconds now)))
      else if ci nm ''Domain'' then
        (case v of None \<Rightarrow> Inr (Inl err_invalid)
         | Some d \<Rightarrow> Inr (Inr (rs\<lparr>ck_domain := Some d\<rparr>)))
      else if ci nm ''Path'' then
        (case v of None \<Rightarrow> Inr (Inl err_invalid)
         | Some d \<Rightarrow> Inr (Inr (rs\<lparr>ck_path := Some d\<rparr>)))
      else if ci nm ''SameSite'' then
        (let s = case_option [] id v in
         if ci s ''Strict'' then Inr (Inr (rs\<lparr>ck_same_site := Some ss_strict\<rparr>))
         else if ci s ''Lax'' then Inr (Inr (rs\<lparr>ck_same_site := Some ss_lax\<rparr>))
         else if ci s ''None'' then Inr (Inr (rs\<lparr>ck_same_site := Some ss_none\<rparr>))
         else Inr (Inl err_invalid))
      else if ci nm ''Partitioned'' then Inr (Inr (rs\<lparr>ck_partitioned := True\<rparr>))
      else if ci nm ''Secure'' then Inr (Inr (rs\<lparr>ck_secure := True\<rparr>))
      else if ci nm ''HttpOnly'' then Inr (Inr (rs\<lparr>ck_http_only := True\<rparr>))
      else Inr (Inr rs))"

fun apply_attrs ::
    "(string \<Rightarrow> string \<Rightarrow> bool) \<Rightarrow> calendar \<Rightarrow> int \<Rightarrow> gval list \<Rightarrow> cookie \<Rightarrow>
     exn + (gerror + cookie)" where
  "apply_attrs ci cal now [] rs = Inr (Inr rs)"
| "apply_attrs ci cal now (attr # attrs) rs =
     (case apply_attr ci cal now (g_str (g_get 0 attr)) (map_option g_str (g_opt (g_get 1 attr))) rs of
        Inl e \<Rightarrow> Inl e
      | Inr (Inl e) \<Rightarrow> Inr (Inl e)
      | Inr (Inr rs') \<Rightarrow> apply_attrs ci cal now attrs rs')"

definition check_prefixes :: "cookie \<Rightarrow> gerror + cookie" where
  "check_prefixes rs =
     (if starts_with (ck_name rs) ''__Secure-'' \<and> \<not> ck_secure rs then Inl err_invalid
      else if starts_with (ck_name rs) ''__Host-'' then
        if \<not> ck_secure rs then Inl err_invalid
        else if ck_path rs \<noteq> Some ''/'' then Inl err_invalid
        else if ck_domain rs \<noteq> None then Inl err_invalid
        else Inr rs
      else Inr rs)"

definition parse_cookie ::
    "gparser \<Rightarrow> (string \<Rightarrow> string \<Rightarrow> bool) \<Rightarrow> calendar \<Rightarrow> int \<Rightarrow> string \<Rightarrow> exn + (gerror + cookie)" where
  "parse_cookie gparse ci cal now sv =
     (case gparse cookie_parser sv of
        Inl e \<Rightarrow> Inr (Inl e)
      | Inr p \<Rightarrow>
          rmap (\<lambda>r. rbind r check_prefixes)
            (apply_attrs ci cal now (g_range (g_get 2 p))
              (cookie_default\<lparr>ck_name := g_str (g_get 0 p),
                ck_value := map_option g_str (g_opt (g_get 1 p))\<rparr>)))"

subsection \<open>The jar\<close>

type_synonym psl_fn = "string \<Rightarrow> string \<Rightarrow> bool"

definition default_path :: "url_view \<Rightarrow> string" where
  "default_path url =
     (let p = concat (map (\<lambda>s. CHR ''/'' # s) (butlast (u_segments url))) in
      if p = [] then ''/'' else p)"

text \<open>The domain and path a cookie is stored under; \<^verbatim>\<open>None\<close> when the public suffix check
  returns early.\<close>

definition complete_domain ::
    "(char \<Rightarrow> char) \<Rightarrow> psl_fn option \<Rightarrow> url_view \<Rightarrow> cookie \<Rightarrow> cookie option" where
  "complete_domain lower psl url c =
     (case ck_domain c of
        Some d \<Rightarrow>
          (case psl of
             Some acceptable \<Rightarrow>
               if acceptable (map lower (u_host url)) (map lower d) then None
               else Some (c\<lparr>ck_tailmatch := True\<rparr>)
           | None \<Rightarrow> Some (c\<lparr>ck_tailmatch := True\<rparr>))
      | None \<Rightarrow> Some (c\<lparr>ck_domain := Some (u_host url)\<rparr>))"

definition complete_path :: "url_view \<Rightarrow> cookie \<Rightarrow> cookie" where
  "complete_path url c =
     (if ck_path c = None then c\<lparr>ck_path := Some (default_path url)\<rparr> else c)"

definition same_key :: "cookie \<Rightarrow> cookie \<Rightarrow> bool" where
  "same_key c p \<longleftrightarrow> ck_name c = ck_name p \<and> ck_path c = ck_path p \<and> ck_domain c = ck_domain p"

definition jar_add ::
    "(char \<Rightarrow> char) \<Rightarrow> psl_fn option \<Rightarrow> int \<Rightarrow> url_view \<Rightarrow> cookie \<Rightarrow> cookie_jar \<Rightarrow> cookie_jar" where
  "jar_add lower psl now url c0 cj =
     (case complete_domain lower psl url c0 of
        None \<Rightarrow> cj
      | Some c1 \<Rightarrow>
          let c = complete_path url c1 in
          if ck_secure c \<and> u_scheme_id url \<noteq> scheme_https then cj
          else
            let kept = filter (\<lambda>p. \<not> same_key c p) (jar_cookies cj) in
            if (case ck_expires c of Some e \<Rightarrow> e < now | None \<Rightarrow> False)
            then cj\<lparr>jar_cookies := kept\<rparr>
            else cj\<lparr>jar_cookies := kept @ [c]\<rparr>)"

definition expired :: "int \<Rightarrow> cookie \<Rightarrow> bool" where
  "expired now c \<longleftrightarrow> (case ck_expires c of Some e \<Rightarrow> e \<le> now | None \<Rightarrow> False)"

text \<open>The selection test of \<^verbatim>\<open>make_field\<close>; \<^verbatim>\<open>value()\<close> of an empty optional throws.\<close>

definition cookie_selected :: "url_view \<Rightarrow> cookie \<Rightarrow> exn + bool" where
  "cookie_selected url c =
     (case ck_domain c of
        None \<Rightarrow> Inl bad_optional_access
      | Some d \<Rightarrow>
          if domain_match (u_host url) d (ck_tailmatch c) then
            (case ck_path c of
               None \<Rightarrow> Inl bad_optional_access
             | Some p \<Rightarrow>
                 rmap (\<lambda>b. b \<and> (ck_secure c \<longrightarrow> u_scheme_id url = scheme_https))
                   (path_match (u_path url) p))
          else Inr False)"

definition cookie_pair :: "cookie \<Rightarrow> string" where
  "cookie_pair c = ck_name c @ ''='' @ case_option [] id (ck_value c) @ ''; ''"

fun make_field_loop :: "int \<Rightarrow> url_view \<Rightarrow> cookie list \<Rightarrow> string \<Rightarrow> (exn + string) \<times> cookie list" where
  "make_field_loop now url [] rs = (Inr rs, [])"
| "make_field_loop now url (c # cs) rs =
     (if expired now c then make_field_loop now url cs rs
      else
        (case cookie_selected url c of
           Inl e \<Rightarrow> (Inl e, c # cs)
         | Inr b \<Rightarrow>
             (case make_field_loop now url cs (if b then rs @ cookie_pair c else rs) of
                (r, cs') \<Rightarrow> (r, c # cs'))))"

definition make_field :: "int \<Rightarrow> url_view \<Rightarrow> cookie_jar \<Rightarrow> (exn + string) \<times> cookie_jar" where
  "make_field now url cj =
     (case make_field_loop now url (jar_cookies cj) [] of
        (r, cs) \<Rightarrow> (r, cj\<lparr>jar_cookies := cs\<rparr>))"

definition clear_session_cookies :: "cookie_jar \<Rightarrow> cookie_jar" where
  "clear_session_cookies cj = cj\<lparr>jar_cookies := filter (\<lambda>c. ck_expires c \<noteq> None) (jar_cookies cj)\<rparr>"

subsection \<open>The jar as a text file\<close>

definition show_int :: "int \<Rightarrow> string" where
  "show_int n = (if n < 0 then CHR ''-'' # show_nat (nat (- n)) else show_nat (nat n))"

text \<open>\<^verbatim>\<open>duration_cast<seconds>\<close> truncates towards zero.\<close>

definition to_seconds :: "int \<Rightarrow> int" where
  "to_seconds t = (if t < 0 then - ((- t) div ns_per_s) else t div ns_per_s)"

definition show_flag :: "bool \<Rightarrow> string" where
  "show_flag b = (if b then ''TRUE'' else ''FALSE'')"

text \<open>What a failed write leaves in the stream is returned beside the exception.\<close>

definition write_cookie :: "cookie \<Rightarrow> (exn \<times> string) + string" where
  "write_cookie c =
     (let pre = (if ck_http_only c then ''#HttpOnly_'' else []) in
      case ck_domain c of
        None \<Rightarrow> Inl (bad_optional_access, pre)
      | Some d \<Rightarrow>
          let pre2 = pre @ d @ [CHR 0x09] @ show_flag (ck_tailmatch c) @ [CHR 0x09] in
          (case ck_path c of
             None \<Rightarrow> Inl (bad_optional_access, pre2)
           | Some p \<Rightarrow> Inr (pre2 @ p @ [CHR 0x09] @ show_flag (ck_secure c) @ [CHR 0x09] @
               (case ck_expires c of Some e \<Rightarrow> show_int (to_seconds e) | None \<Rightarrow> ''0'') @
               [CHR 0x09] @ ck_name c @ [CHR 0x09] @ case_option [] id (ck_value c) @ [CHR 0x0A])))"

fun write_cookies :: "cookie list \<Rightarrow> string \<Rightarrow> (exn \<times> string) + string" where
  "write_cookies [] os = Inr os"
| "write_cookies (c # cs) os =
     (case write_cookie c of
        Inl (e, t) \<Rightarrow> Inl (e, os @ t)
      | Inr t \<Rightarrow> write_cookies cs (os @ t))"

definition jar_write :: "cookie_jar \<Rightarrow> string \<Rightarrow> (exn \<times> string) + string" where
  "jar_write cj os =
     write_cookies (jar_cookies cj) (os @ ''# Netscape HTTP Cookie File'' @ [CHR 0x0A, CHR 0x0A])"

fun read_lines :: "gparser \<Rightarrow> string list \<Rightarrow> cookie_jar \<Rightarrow> exn option \<times> cookie_jar" where
  "read_lines gparse [] cj = (None, cj)"
| "read_lines gparse (line # ls) cj =
     (if line = [] then read_lines gparse ls cj
      else if starts_with line ''#'' \<and> \<not> starts_with line ''#HttpOnly_''
      then read_lines gparse ls cj
      else
        (case parse_netscape_cookie gparse line of
           Inl e \<Rightarrow> (Some (system_error ''parse_netscape_cookie''), cj)
         | Inr c \<Rightarrow> read_lines gparse ls (cj\<lparr>jar_cookies := jar_cookies cj @ [c]\<rparr>)))"

definition jar_read :: "gparser \<Rightarrow> string \<Rightarrow> cookie_jar \<Rightarrow> exn option \<times> cookie_jar" where
  "jar_read gparse is cj = read_lines gparse (get_lines is) cj"

subsection \<open>Matching as the standard describes it\<close>

text \<open>RFC 6265, section 5.1.4: the cookie path is the request path, or a prefix of it that ends
  in a slash or is followed by one.\<close>

definition rfc_path_match :: "string \<Rightarrow> string \<Rightarrow> bool" where
  "rfc_path_match r c \<longleftrightarrow>
     r = c \<or> (starts_with r c \<and> (ends_with c ''/'' \<or> starts_with (drop (length c) r) ''/''))"

lemma starts_with_singleton: "starts_with s [c] \<longleftrightarrow> 0 < length s \<and> s ! 0 = c"
  by (cases s) (auto simp: starts_with_def)

lemma domain_tail_iff:
  "ends_with r c \<and> (length r = length c \<or> r ! (length r - length c - 1) = d) \<longleftrightarrow>
   r = c \<or> (\<exists>t. r = t @ d # c)"
proof
  assume a: "ends_with r c \<and> (length r = length c \<or> r ! (length r - length c - 1) = d)"
  then obtain t where t: "r = t @ c" by (auto simp: ends_with_iff)
  show "r = c \<or> (\<exists>t. r = t @ d # c)"
  proof (cases t rule: rev_cases)
    case Nil then show ?thesis using t by simp
  next
    case (snoc u x)
    then have "r ! (length r - length c - 1) = x" using t by (simp add: nth_append)
    then have "x = d" using a t snoc by simp
    then show ?thesis using t snoc by simp
  qed
qed (auto simp: ends_with_iff nth_append)

text \<open>
  Domain matching: without the tail flag the host must equal the cookie's domain; with
  it, the host is the domain (a leading dot ignored) or ends in a dot followed by the
  domain, so that a suffix inside a label is never accepted.
\<close>

theorem domain_match_spec:
  "domain_match r c tail \<longleftrightarrow>
     (let d = (if starts_with c ''.'' then tl c else c) in
      if tail then r = d \<or> (\<exists>t. r = t @ ''.'' @ d) else r = c)"
proof -
  define d where "d = (if starts_with c ''.'' then drop 1 c else c)"
  have d': "(if starts_with c ''.'' then tl c else c) = d" by (simp add: d_def drop_Suc)
  have "domain_match r c tail \<longleftrightarrow> (if tail then
      ends_with r d \<and> (length r = length d \<or> r ! (length r - length d - 1) = CHR ''.'') else r = c)"
    unfolding domain_match_def Let_def d_def [symmetric] by simp
  then show ?thesis unfolding Let_def d' domain_tail_iff by simp
qed

text \<open>
  Path matching never reads outside the request path when the cookie has a path, it
  accepts only prefixes, and it agrees with RFC 6265 when the cookie path ends in a slash or
  is exactly half as long as the request path.  Elsewhere it does not: the character it
  tests is counted from the wrong end, so a cookie for \<^verbatim>\<open>/a\<close> is sent to \<^verbatim>\<open>/abc/d\<close> and not to
  \<^verbatim>\<open>/a/bcd\<close>.
\<close>

theorem path_match_outcome:
  assumes "c \<noteq> []"
  shows "(\<exists>b. path_match r c = Inr b) \<and>
    (path_match r c = Inr True \<longrightarrow> r = [] \<or> starts_with r c) \<and>
    (r \<noteq> [] \<and> (ends_with c ''/'' \<or> length r = 2 * length c) \<longrightarrow>
       path_match r c = Inr (rfc_path_match r c)) \<and>
    path_match ''/abc/d'' ''/a'' = Inr True \<and> \<not> rfc_path_match ''/abc/d'' ''/a'' \<and>
    path_match ''/a/bcd'' ''/a'' = Inr False \<and> rfc_path_match ''/a/bcd'' ''/a''"
proof (intro conjI impI)
  show "\<exists>b. path_match r c = Inr b" using assms by (auto simp: path_match_def)
  show "path_match r c = Inr True \<Longrightarrow> r = [] \<or> starts_with r c"
    by (auto simp: path_match_def split: if_splits)
  assume "r \<noteq> [] \<and> (ends_with c ''/'' \<or> length r = 2 * length c)"
  then show "path_match r c = Inr (rfc_path_match r c)"
    using assms
    by (auto simp: path_match_def rfc_path_match_def starts_with_iff [of r c] starts_with_singleton nth_append)
qed (simp_all add: path_match_def rfc_path_match_def starts_with_def ends_with_def)

theorem path_match_outcome_witness:
  "''/a/'' \<noteq> [] \<and> path_match ''/a/b'' ''/a/'' = Inr (rfc_path_match ''/a/b'' ''/a/'')"
  using path_match_outcome [of "''/a/''" "''/a/b''"] by (simp add: ends_with_def)

subsection \<open>What the grammar delivers\<close>

definition attr_shape :: "gval \<Rightarrow> bool" where
  "attr_shape v \<longleftrightarrow> (\<exists>n w. v = GTuple [GStr n, w] \<and> n \<noteq> [] \<and> nonempty_opt w)"

lemma attr_shape_value:
  "attr_shape v \<Longrightarrow> map_option g_str (g_opt (g_get 1 v)) \<noteq> Some []"
  by (auto simp: attr_shape_def nonempty_opt_def g_get_def)

text \<open>A cookie the engine can keep: once stored it has a domain, and its path is not empty.\<close>

definition path_ok :: "cookie \<Rightarrow> bool" where
  "path_ok c \<longleftrightarrow> ck_path c \<noteq> Some []"

lemma apply_attr_path_ok:
  assumes "apply_attr ci cal now nm v rs = Inr (Inr rs')" "path_ok rs" "v \<noteq> Some []"
  shows "path_ok rs' \<and> ck_name rs' = ck_name rs \<and> ck_tailmatch rs' = ck_tailmatch rs"
  using assms
  by (auto simp: apply_attr_def path_ok_def rmap_Inr_iff Let_def split: if_splits option.splits)

lemma apply_attrs_path_ok:
  assumes "apply_attrs ci cal now attrs rs = Inr (Inr rs')" "path_ok rs" "list_all attr_shape attrs"
  shows "path_ok rs' \<and> ck_name rs' = ck_name rs \<and> ck_tailmatch rs' = ck_tailmatch rs"
  using assms
proof (induction attrs arbitrary: rs)
  case (Cons a attrs)
  obtain rs1 where r: "apply_attr ci cal now (g_str (g_get 0 a)) (map_option g_str (g_opt (g_get 1 a))) rs
      = Inr (Inr rs1)" "apply_attrs ci cal now attrs rs1 = Inr (Inr rs')"
    using Cons.prems(1) by (auto split: sum.splits)
  have "path_ok rs1 \<and> ck_name rs1 = ck_name rs \<and> ck_tailmatch rs1 = ck_tailmatch rs"
    using apply_attr_path_ok [OF r(1) Cons.prems(2)] attr_shape_value [of a] Cons.prems(3) by simp
  then show ?case using Cons.IH [OF r(2)] Cons.prems(3) by simp
qed simp

lemma parse_cookie_cases:
  assumes "parse_cookie gparse ci cal now sv = Inr (Inr c)"
  obtains p where "gparse cookie_parser sv = Inr p"
    and "apply_attrs ci cal now (g_range (g_get 2 p))
      (cookie_default\<lparr>ck_name := g_str (g_get 0 p),
         ck_value := map_option g_str (g_opt (g_get 1 p))\<rparr>) = Inr (Inr c)"
    and "check_prefixes c = Inr c"
proof -
  have id: "rs = c" if "check_prefixes rs = Inr c" for rs
    using that by (auto simp: check_prefixes_def split: if_splits)
  obtain p r where "gparse cookie_parser sv = Inr p"
    "apply_attrs ci cal now (g_range (g_get 2 p))
      (cookie_default\<lparr>ck_name := g_str (g_get 0 p),
         ck_value := map_option g_str (g_opt (g_get 1 p))\<rparr>) = Inr r" "rbind r check_prefixes = Inr c"
    using assms by (auto simp: parse_cookie_def rmap_Inr_iff split: sum.splits)
  then show ?thesis using that id by (auto simp: rbind_Inr_iff)
qed

context url_grammar
begin

lemma attr_rule_progress:
  assumes "rparse attr_rule s = Inr (v, t)"
  shows "length t < length s \<and> attr_shape v"
proof -
  obtain d s1 where s1: "s = d # s1" "cs_mem (lut_chars '';'') d"
    using assms by (auto simp: attr_rule_def rules rmap_Inr_iff split: list.splits if_splits sum.splits)
  obtain v2 s2 where s2: "rparse (optional_rule (delim_char (CHR '' ''))) s1 = Inr (v2, s2)"
      "length s2 \<le> length s1"
    using optional_delim by blast
  obtain v3 s3 where s3: "rparse (token_rule (cs_diff attr_chars (lut_chars ''=''))) s2 = Inr (v3, s3)"
    using assms s1 s2
    by (cases "rparse (token_rule (cs_diff attr_chars (lut_chars ''=''))) s2")
       (auto simp: attr_rule_def squelched tupled delim)
  obtain w3 where w3: "v3 = GStr w3" "w3 \<noteq> []" "s2 = w3 @ s3" using token_shape [OF s3] by blast
  obtain v4 s4 where s4: "rparse (optional_rule (delim_char (CHR ''=''))) s3 = Inr (v4, s4)"
      "length s4 \<le> length s3"
    using optional_delim by blast
  obtain v5 s5 where s5: "rparse (optional_rule (token_rule attr_chars)) s4 = Inr (v5, s5)"
      "nonempty_opt v5" "length s5 \<le> length s4"
    using optional_token by blast
  have "v = GTuple [v3, v5]" "t = s5"
    using assms s1 s2(1) s3 s4(1) s5(1)
    by (simp_all add: attr_rule_def squelched tupled delim mk_tuple_def)
  then show ?thesis using s1 s2(2) w3 s4(2) s5(2,3) by (auto simp: attr_shape_def)
qed

lemma attr_rule_error: "rparse attr_rule s = Inl e \<Longrightarrow> e \<noteq> err_end_of_range"
  using optional_delim optional_token
  by (auto simp: attr_rule_def squelched tupled rmap_Inl_iff split: sum.splits prod.splits
      dest: token_error delim_error) (metis Inl_Inr_False)+

lemma cookie_parser_shape:
  assumes "gparse cookie_parser sv = Inr p"
  shows "\<exists>n v vs. p = GTuple [GStr n, v, GRange vs] \<and> n \<noteq> [] \<and> list_all name_chars n \<and>
    list_all attr_shape vs"
proof -
  obtain t where r: "rparse cookie_parser sv = Inr (p, t)"
    using assms by (auto simp: parse_all split: sum.splits if_splits)
  obtain v1 s1 where s1: "rparse (token_rule (user_chars name_chars)) sv = Inr (v1, s1)"
    using r by (cases "rparse (token_rule (user_chars name_chars)) sv")
      (auto simp: cookie_parser_def tupled)
  obtain n where n: "v1 = GStr n" "n \<noteq> []" "list_all name_chars n"
    using token_shape [OF s1] by (auto simp: list_all_iff)
  obtain v2 s2 where s2: "rparse (delim_char (CHR ''='')) s1 = Inr (v2, s2)"
    using r s1 by (cases "rparse (delim_char (CHR ''='')) s1")
      (auto simp: cookie_parser_def tupled squelched)
  obtain v3 s3 where s3: "rparse (optional_rule (token_rule (user_chars value_chars))) s2 = Inr (v3, s3)"
    using optional_token by blast
  obtain vs s4 where s4: "rparse (range_rule attr_rule) s3 = Inr (GRange vs, s4)" "list_all attr_shape vs"
    using range_elems [of attr_rule attr_shape s3] attr_rule_progress attr_rule_error by blast
  have "p = GTuple [v1, v3, GRange vs]"
    using r s1 s2 s3 s4(1) by (simp add: cookie_parser_def tupled squelched mk_tuple_def)
  then show ?thesis using n s4(2) by simp
qed

lemma parse_cookie_path_ok:
  assumes "parse_cookie gparse ci cal now sv = Inr (Inr c)"
  shows "path_ok c \<and> \<not> ck_tailmatch c \<and> ck_name c \<noteq> [] \<and> list_all name_chars (ck_name c)"
proof -
  from assms obtain p where p: "gparse cookie_parser sv = Inr p"
    and a: "apply_attrs ci cal now (g_range (g_get 2 p))
      (cookie_default\<lparr>ck_name := g_str (g_get 0 p),
         ck_value := map_option g_str (g_opt (g_get 1 p))\<rparr>) = Inr (Inr c)"
    by (rule parse_cookie_cases)
  obtain n v vs where g: "p = GTuple [GStr n, v, GRange vs]" "n \<noteq> []" "list_all name_chars n"
      "list_all attr_shape vs"
    using cookie_parser_shape [OF p] by blast
  have c: "apply_attrs ci cal now vs
      (cookie_default\<lparr>ck_name := n, ck_value := map_option g_str (g_opt v)\<rparr>) = Inr (Inr c)"
    using a g(1) by (simp add: g_get_def)
  show ?thesis
    using apply_attrs_path_ok [OF c _ g(4)] g(2,3) by (simp add: path_ok_def cookie_default_def)
qed

lemma parse_netscape_ok:
  assumes "parse_netscape_cookie gparse sv = Inr c"
  shows "path_ok c \<and> ck_domain c \<noteq> None \<and> ck_path c \<noteq> None"
proof -
  obtain p t where r: "rparse netscape_parser sv = Inr (p, t)" and c: "ck_path c = Some (g_str (g_get 3 p))"
      "ck_domain c \<noteq> None"
    using assms by (auto simp: parse_netscape_cookie_def parse_all split: sum.splits if_splits)
  obtain vs where vs: "seq_parse rparse [optional_rule (literal_rule ''#HttpOnly_''),
      token_rule field_chars, squelch (delim_char (CHR 0x09)),
      variant_rule [literal_rule ''FALSE'', literal_rule ''TRUE''], squelch (delim_char (CHR 0x09)),
      token_rule field_chars, squelch (delim_char (CHR 0x09)),
      variant_rule [literal_rule ''FALSE'', literal_rule ''TRUE''], squelch (delim_char (CHR 0x09)),
      unsigned_rule (2 ^ 32 - 1), squelch (delim_char (CHR 0x09)), token_rule field_chars,
      squelch (delim_char (CHR 0x09)), token_rule field_chars] sv = Inr (vs, t)" "p = mk_tuple vs"
    using r unfolding netscape_parser_def tupled by (auto simp: rmap_Inr_iff)
  have "g_str (g_get 3 p) \<noteq> []"
    using vs
    by (auto simp: mk_tuple_def g_get_def rmap_Inr_iff split: sum.splits dest!: token_shape)
  then show ?thesis using c by (simp add: path_ok_def)
qed

end

subsection \<open>Histories of a jar\<close>

text \<open>What the client does with a jar: load a file, store a parsed \<^verbatim>\<open>Set-Cookie\<close> value, ask for
  the request field, drop the session cookies.\<close>

inductive jar_reachable ::
    "gparser \<Rightarrow> (string \<Rightarrow> string \<Rightarrow> bool) \<Rightarrow> calendar \<Rightarrow> (char \<Rightarrow> char) \<Rightarrow> psl_fn option \<Rightarrow>
     cookie_jar \<Rightarrow> bool"
  for gparse ci cal lower psl where
    jr_empty: "jar_reachable gparse ci cal lower psl jar_empty"
  | jr_read: "jar_reachable gparse ci cal lower psl cj \<Longrightarrow>
      jar_reachable gparse ci cal lower psl (snd (jar_read gparse text_in cj))"
  | jr_add: "jar_reachable gparse ci cal lower psl cj \<Longrightarrow>
      parse_cookie gparse ci cal t0 sv = Inr (Inr c) \<Longrightarrow>
      jar_reachable gparse ci cal lower psl (jar_add lower psl t1 url c cj)"
  | jr_field: "jar_reachable gparse ci cal lower psl cj \<Longrightarrow>
      jar_reachable gparse ci cal lower psl (snd (make_field now url cj))"
  | jr_clear: "jar_reachable gparse ci cal lower psl cj \<Longrightarrow>
      jar_reachable gparse ci cal lower psl (clear_session_cookies cj)"

definition stored_ok :: "cookie \<Rightarrow> bool" where
  "stored_ok c \<longleftrightarrow> ck_domain c \<noteq> None \<and> ck_path c \<noteq> None \<and> path_ok c"

definition jar_ok :: "cookie_jar \<Rightarrow> bool" where
  "jar_ok cj \<longleftrightarrow> list_all stored_ok (jar_cookies cj)"

lemma complete_ok:
  assumes "complete_domain lower psl url c = Some c1" "path_ok c"
  shows "stored_ok (complete_path url c1)"
  using assms
  by (auto simp: complete_domain_def complete_path_def stored_ok_def path_ok_def default_path_def Let_def
      split: option.splits if_splits)

lemma jar_add_cookies:
  "jar_cookies (jar_add lower psl now url c0 cj) =
    (case complete_domain lower psl url c0 of
       None \<Rightarrow> jar_cookies cj
     | Some c1 \<Rightarrow>
         if ck_secure c0 \<and> u_scheme_id url \<noteq> scheme_https then jar_cookies cj
         else filter (\<lambda>p. \<not> same_key (complete_path url c1) p) (jar_cookies cj) @
           (if (case ck_expires c0 of Some e \<Rightarrow> e < now | None \<Rightarrow> False) then []
            else [complete_path url c1]))"
  by (auto simp: jar_add_def Let_def complete_domain_def complete_path_def split: option.splits)

lemma jar_add_ok:
  assumes "jar_ok cj" "path_ok c"
  shows "jar_ok (jar_add lower psl now url c cj)"
proof (cases "complete_domain lower psl url c")
  case None then show ?thesis using assms by (simp add: jar_ok_def jar_add_cookies)
next
  case (Some c1)
  then have "stored_ok (complete_path url c1)" using complete_ok assms(2) by blast
  then show ?thesis using assms(1) Some by (auto simp: jar_ok_def jar_add_cookies list_all_iff)
qed

lemma make_field_loop_subseq: "subseq (snd (make_field_loop now url cs rs)) cs"
proof (induction cs arbitrary: rs)
  case (Cons c cs)
  show ?case using Cons.IH [of rs] Cons.IH [of "rs @ cookie_pair c"]
    by (auto split: prod.splits sum.splits)
qed simp

lemma make_field_loop_subset: "set (snd (make_field_loop now url cs rs)) \<subseteq> set cs"
  using make_field_loop_subseq [of now url cs rs] by (auto dest: list_emb_set)



lemma make_field_ok: "jar_ok cj \<Longrightarrow> jar_ok (snd (make_field now url cj))"
  using make_field_loop_subset [of now url "jar_cookies cj" "[]"]
  by (auto simp: jar_ok_def make_field_def list_all_iff split: prod.splits)

context url_grammar
begin

lemma read_lines_ok: "jar_ok cj \<Longrightarrow> jar_ok (snd (read_lines gparse ls cj))"
  by (induction ls arbitrary: cj) (auto simp: jar_ok_def stored_ok_def dest: parse_netscape_ok split: sum.splits)


lemma jar_reachable_ok:
  "jar_reachable gparse ci cal lower psl cj \<Longrightarrow> jar_ok cj"
proof (induction rule: jar_reachable.induct)
  case jr_empty then show ?case by (simp add: jar_ok_def jar_empty_def)
next
  case (jr_read cj text_in) then show ?case by (simp add: jar_read_def read_lines_ok)
next
  case (jr_add cj t0 sv c t1 url)
  then show ?case using jar_add_ok parse_cookie_path_ok by blast
next
  case (jr_field cj now url) then show ?case by (simp add: make_field_ok)
next
  case (jr_clear cj)
  then show ?case by (auto simp: jar_ok_def clear_session_cookies_def list_all_iff)
qed

end

text \<open>The cookies that belong in a request, by their attributes.\<close>

definition cookie_sent :: "url_view \<Rightarrow> cookie \<Rightarrow> bool" where
  "cookie_sent url c \<longleftrightarrow>
     (case (ck_domain c, ck_path c) of
        (Some d, Some p) \<Rightarrow>
          domain_match (u_host url) d (ck_tailmatch c) \<and> path_match (u_path url) p = Inr True \<and>
          (ck_secure c \<longrightarrow> u_scheme_id url = scheme_https)
      | _ \<Rightarrow> False)"

lemma path_match_ok: "c \<noteq> [] \<Longrightarrow> \<exists>b. path_match r c = Inr b"
  by (auto simp: path_match_def)

lemma cookie_selected_ok:
  assumes "stored_ok c" shows "cookie_selected url c = Inr (cookie_sent url c)"
proof -
  obtain d p where dp: "ck_domain c = Some d" "ck_path c = Some p" "p \<noteq> []"
    using assms by (auto simp: stored_ok_def path_ok_def)
  obtain b where "path_match (u_path url) p = Inr b" using path_match_ok [OF dp(3)] by blast
  then show ?thesis using dp by (simp add: cookie_selected_def cookie_sent_def)
qed

lemma make_field_loop_spec:
  "list_all stored_ok cs \<Longrightarrow> make_field_loop now url cs rs =
     (Inr (rs @ concat (map cookie_pair (filter (cookie_sent url) (filter (\<lambda>c. \<not> expired now c) cs)))),
      filter (\<lambda>c. \<not> expired now c) cs)"
  by (induction cs arbitrary: rs) (auto simp: cookie_selected_ok)

text \<open>
  C7. Asking a jar for the \<^verbatim>\<open>Cookie\<close> field never throws, whatever the jar went through: the
  field is the name and value of exactly the unexpired cookies whose domain and path match
  the request, in storage order, a secure cookie only over https; the expired ones are gone
  from the jar afterwards and nothing else changes.
\<close>

theorem make_field_exact:
  assumes "url_grammar gparse rparse"
    and "jar_reachable gparse ci cal lower psl cj"
  shows "make_field now url cj =
    (Inr (concat (map cookie_pair
        (filter (\<lambda>c. \<not> expired now c \<and> cookie_sent url c) (jar_cookies cj)))),
     cj\<lparr>jar_cookies := filter (\<lambda>c. \<not> expired now c) (jar_cookies cj)\<rparr>)"
proof -
  have "list_all stored_ok (jar_cookies cj)"
    using url_grammar.jar_reachable_ok [OF assms] by (simp add: jar_ok_def)
  from make_field_loop_spec [OF this, of now url "[]"] show ?thesis
    by (simp add: make_field_def conj_commute)
qed

definition ex_url :: url_view where
  "ex_url = url_blank\<lparr>u_scheme_id := scheme_https, u_host := ''a.io'', u_path := ''/x/y'',
     u_segments := [''x'', ''y'']\<rparr>"

definition ex_cookie :: cookie where
  "ex_cookie = cookie_default\<lparr>ck_name := ''n'', ck_value := Some ''v'', ck_secure := True\<rparr>"

lemma ex_cookie_parse:
  "parse_cookie ref_gparse (=) (\<lambda>_ _. 0) 0 ''n=v; Secure'' = Inr (Inr ex_cookie)"
  by code_simp

lemma ex_jar:
  "jar_cookies (jar_add id None 0 ex_url ex_cookie jar_empty) =
     [ex_cookie\<lparr>ck_domain := Some ''a.io'', ck_path := Some ''/x''\<rparr>]"
  by code_simp

theorem make_field_exact_witness:
  "make_field 5 ex_url (jar_add id None 0 ex_url ex_cookie jar_empty) =
    (Inr ''n=v; '', jar_add id None 0 ex_url ex_cookie jar_empty)"
proof -
  let ?j = "jar_add id None 0 ex_url ex_cookie jar_empty"
  have "jar_reachable ref_gparse (=) (\<lambda>_ _. 0) id None ?j"
    by (rule jr_add [OF jr_empty ex_cookie_parse])
  from make_field_exact [OF ref.url_grammar_axioms this, of 5 ex_url]
  show ?thesis
    unfolding ex_jar by code_simp
qed

lemma apply_attrs_tailmatch:
  "apply_attrs ci cal now attrs rs = Inr (Inr rs') \<Longrightarrow> ck_tailmatch rs' = ck_tailmatch rs"
proof (induction attrs arbitrary: rs)
  case (Cons a attrs)
  obtain rs1 where r: "apply_attr ci cal now (g_str (g_get 0 a)) (map_option g_str (g_opt (g_get 1 a))) rs
      = Inr (Inr rs1)" "apply_attrs ci cal now attrs rs1 = Inr (Inr rs')"
    using Cons.prems by (auto split: sum.splits)
  have "ck_tailmatch rs1 = ck_tailmatch rs"
    using r(1) by (auto simp: apply_attr_def rmap_Inr_iff Let_def split: if_splits option.splits)
  then show ?case using Cons.IH [OF r(2)] by simp
qed simp

lemma parse_cookie_tailmatch: "parse_cookie gparse ci cal now sv = Inr (Inr c) \<Longrightarrow> \<not> ck_tailmatch c"
  by (erule parse_cookie_cases) (auto simp: cookie_default_def dest!: apply_attrs_tailmatch)

text \<open>What the selection asks of the URL.\<close>

lemma cookie_selected_secure: "cookie_selected url k = Inr True \<Longrightarrow> ck_secure k \<Longrightarrow> u_scheme_id url = scheme_https"
  by (auto simp: cookie_selected_def rmap_Inr_iff split: option.splits if_splits)

lemma cookie_selected_host:
  "cookie_selected url k = Inr True \<Longrightarrow> \<not> ck_tailmatch k \<Longrightarrow> ck_domain k = Some d \<Longrightarrow> u_host url = d"
  by (auto simp: cookie_selected_def domain_match_def split: option.splits if_splits)

text \<open>
  C36. Name prefixes are honoured from parsing to sending.  A cookie that \<^verbatim>\<open>parse_cookie\<close> accepts under
  a name with \<^verbatim>\<open>__Secure-\<close> or \<^verbatim>\<open>__Host-\<close> is secure, changes the jar only when it comes from an https
  URL, and what is stored of it is selected for https requests only.  With \<^verbatim>\<open>__Host-\<close> it also has
  the path \<^verbatim>\<open>/\<close> and no domain attribute, and is selected for no other host than the one it came
  from, subdomains included.
\<close>

theorem cookie_prefix_guarantees:
  assumes "parse_cookie gparse ci cal t0 sv = Inr (Inr c)"
  shows "let j = jar_cookies (jar_add lower psl now url c cj) in
    (starts_with (ck_name c) ''__Secure-'' \<or> starts_with (ck_name c) ''__Host-'' \<longrightarrow>
       ck_secure c \<and> (j = jar_cookies cj \<or> u_scheme_id url = scheme_https) \<and>
       (\<forall>k \<in> set j. k \<in> set (jar_cookies cj) \<or>
          (\<forall>url2. cookie_selected url2 k = Inr True \<longrightarrow> u_scheme_id url2 = scheme_https))) \<and>
    (starts_with (ck_name c) ''__Host-'' \<longrightarrow>
       ck_path c = Some ''/'' \<and> ck_domain c = None \<and>
       (\<forall>k \<in> set j. k \<in> set (jar_cookies cj) \<or>
          ck_path k = Some ''/'' \<and> (\<forall>url2. cookie_selected url2 k = Inr True \<longrightarrow> u_host url2 = u_host url)))"
proof -
  define j where "j = jar_cookies (jar_add lower psl now url c cj)"
  from assms(1) have pre: "check_prefixes c = Inr c" by (rule parse_cookie_cases)
  have secure: "ck_secure c" if "starts_with (ck_name c) ''__Secure-'' \<or> starts_with (ck_name c) ''__Host-''"
    using pre that by (auto simp: check_prefixes_def split: if_splits)
  have host: "ck_path c = Some ''/'' \<and> ck_domain c = None" if "starts_with (ck_name c) ''__Host-''"
    using pre that by (auto simp: check_prefixes_def split: if_splits)
  have new: "\<exists>c1. complete_domain lower psl url c = Some c1 \<and> k = complete_path url c1"
    if "k \<in> set j" "k \<notin> set (jar_cookies cj)" for k
    using that by (auto simp: j_def jar_add_cookies split: option.splits if_splits)
  have kept: "ck_secure k = ck_secure c \<and> (ck_domain c = None \<and> ck_path c = Some p \<longrightarrow>
      ck_domain k = Some (u_host url) \<and> ck_path k = Some p \<and> ck_tailmatch k = ck_tailmatch c)"
    if "k \<in> set j" "k \<notin> set (jar_cookies cj)" for k p
    using new [OF that] by (auto simp: complete_domain_def complete_path_def split: option.splits if_splits)
  have tail: "\<not> ck_tailmatch c" using assms(1) by (rule parse_cookie_tailmatch)
  have origin: "j = jar_cookies cj \<or> u_scheme_id url = scheme_https" if "ck_secure c"
    using that by (auto simp: j_def jar_add_cookies complete_domain_def complete_path_def split: option.splits)
  have https: "u_scheme_id url2 = scheme_https"
    if "k \<in> set j" "k \<notin> set (jar_cookies cj)" "ck_secure c" "cookie_selected url2 k = Inr True" for k url2
    using cookie_selected_secure [OF that(4)] kept [OF that(1,2)] that(3) by simp
  have alone: "ck_path k = Some ''/'' \<and> (\<forall>url2. cookie_selected url2 k = Inr True \<longrightarrow> u_host url2 = u_host url)"
    if "k \<in> set j" "k \<notin> set (jar_cookies cj)" "starts_with (ck_name c) ''__Host-''" for k
    using kept [OF that(1,2), of "''/''"] host [OF that(3)] tail cookie_selected_host [of _ k "u_host url"] by auto
  show ?thesis
    unfolding Let_def j_def [symmetric] using secure host origin https alone by auto
qed

theorem cookie_prefix_guarantees_witness:
  "\<exists>k. jar_cookies (jar_add id None 0 ex_url (cookie_default\<lparr>ck_name := ''__Host-n'', ck_value := Some ''v'',
       ck_path := Some ''/'', ck_secure := True\<rparr>) jar_empty) = [k] \<and>
     cookie_selected ex_url k = Inr True \<and> cookie_selected (ex_url\<lparr>u_host := ''x.a.io''\<rparr>) k \<noteq> Inr True"
proof -
  let ?c = "cookie_default\<lparr>ck_name := ''__Host-n'', ck_value := Some ''v'',
       ck_path := Some ''/'', ck_secure := True\<rparr>"
  let ?k = "?c\<lparr>ck_domain := Some ''a.io''\<rparr>" and ?sub = "ex_url\<lparr>u_host := ''x.a.io''\<rparr>"
  have p: "parse_cookie ref_gparse (=) (\<lambda>_ _. 0) 0 ''__Host-n=v; Path=/; Secure'' = Inr (Inr ?c)"
    by code_simp
  have j: "jar_cookies (jar_add id None 0 ex_url ?c jar_empty) = [?k]" "cookie_selected ex_url ?k = Inr True"
    by code_simp+
  have n: "starts_with (ck_name ?c) ''__Host-''" "jar_cookies jar_empty = []" "u_host ex_url = ''a.io''"
    by code_simp+
  have "\<forall>url2. cookie_selected url2 ?k = Inr True \<longrightarrow> u_host url2 = ''a.io''"
    using cookie_prefix_guarantees [OF p, of id None 0 ex_url jar_empty] n unfolding Let_def j(1) by simp
  from this [rule_format, of ?sub] have "cookie_selected ?sub ?k \<noteq> Inr True" by auto
  then show ?thesis using j by blast
qed

subsection \<open>Replacement\<close>





text \<open>
  C40. The public suffix check works the wrong way round.  When libpsl is configured, a cookie with
  a domain that the library finds acceptable for the host changes nothing.  A cookie with a
  domain the library rejects, such as a public suffix, is stored if it has not expired and is not
  secure on a plain connection; it is then selected for every host that is the domain or lies
  under it, as far as path and scheme agree.
\<close>

theorem jar_add_psl_inverted:
  assumes "ck_domain c = Some d"
  shows "if acceptable (map lower (u_host url)) (map lower d)
    then jar_add lower (Some acceptable) now url c cj = cj
    else (ck_secure c \<longrightarrow> u_scheme_id url = scheme_https) \<and> (\<forall>e. ck_expires c = Some e \<longrightarrow> now \<le> e) \<longrightarrow>
      (\<exists>k \<in> set (jar_cookies (jar_add lower (Some acceptable) now url c cj)).
         ck_name k = ck_name c \<and> ck_value k = ck_value c \<and> ck_domain k = Some d \<and> ck_secure k = ck_secure c \<and>
         (\<forall>url2. (let d' = (if starts_with d ''.'' then tl d else d) in
                  u_host url2 = d' \<or> (\<exists>t. u_host url2 = t @ ''.'' @ d')) \<and>
            path_match (u_path url2) (the (ck_path k)) = Inr True \<and> (ck_secure c \<longrightarrow> u_scheme_id url2 = scheme_https) \<longrightarrow>
            cookie_selected url2 k = Inr True))"
proof (cases "acceptable (map lower (u_host url)) (map lower d)")
  case True
  then show ?thesis using assms by (simp add: jar_add_def complete_domain_def)
next
  case False
  define k where "k = complete_path url (c\<lparr>ck_tailmatch := True\<rparr>)"
  have k: "ck_name k = ck_name c" "ck_value k = ck_value c" "ck_domain k = Some d" "ck_secure k = ck_secure c"
      "ck_tailmatch k" "ck_expires k = ck_expires c" "ck_path k \<noteq> None"
    using assms by (simp_all add: k_def complete_path_def)
  have "k \<in> set (jar_cookies (jar_add lower (Some acceptable) now url c cj))"
    if "ck_secure c \<longrightarrow> u_scheme_id url = scheme_https" "\<forall>e. ck_expires c = Some e \<longrightarrow> now \<le> e"
    using False assms that k by (force simp: jar_add_def complete_domain_def k_def [symmetric] Let_def split: option.split)
  moreover have "cookie_selected url2 k = Inr True"
    if "let d' = (if starts_with d ''.'' then tl d else d) in u_host url2 = d' \<or> (\<exists>t. u_host url2 = t @ ''.'' @ d')"
      "path_match (u_path url2) (the (ck_path k)) = Inr True" "ck_secure c \<longrightarrow> u_scheme_id url2 = scheme_https" for url2
    using that k domain_match_spec [of "u_host url2" d True] by (auto simp: cookie_selected_def)
  ultimately show ?thesis using False k by auto
qed

text \<open>A library that accepts exactly the domain \<^verbatim>\<open>a.io\<close>, and a cookie for the whole of \<^verbatim>\<open>io\<close>.\<close>

theorem jar_add_psl_inverted_witness:
  "jar_add id (Some (\<lambda>h d. d = ''a.io'')) 0 ex_url (ex_cookie\<lparr>ck_domain := Some ''a.io''\<rparr>) jar_empty = jar_empty \<and>
   (\<exists>k \<in> set (jar_cookies (jar_add id (Some (\<lambda>h d. d = ''a.io'')) 0 ex_url (ex_cookie\<lparr>ck_domain := Some ''io''\<rparr>) jar_empty)).
      ck_value k = Some ''v'' \<and> ck_domain k = Some ''io'')"
proof -
  let ?psl = "\<lambda>h d. d = ''a.io''"
  have "\<not> ?psl (map id (u_host ex_url)) (map id ''io'')" by simp
  moreover have "u_scheme_id ex_url = scheme_https" "ck_expires ex_cookie = None" "ck_value ex_cookie = Some ''v''"
    by (simp_all add: ex_url_def ex_cookie_def cookie_default_def)
  ultimately show ?thesis
    using jar_add_psl_inverted [where c = "ex_cookie\<lparr>ck_domain := Some ''a.io''\<rparr>" and d = "''a.io''"
        and url = ex_url and acceptable = ?psl and lower = id and now = 0 and cj = jar_empty]
      jar_add_psl_inverted [where c = "ex_cookie\<lparr>ck_domain := Some ''io''\<rparr>" and d = "''io''"
        and url = ex_url and acceptable = ?psl and lower = id and now = 0 and cj = jar_empty]
    by auto
qed

subsection \<open>The file round trip\<close>

definition clean_field :: "string \<Rightarrow> bool" where
  "clean_field s \<longleftrightarrow> s \<noteq> [] \<and> CHR 0x09 \<notin> set s \<and> CHR 0x0A \<notin> set s"

text \<open>The cookies the file format can carry: fields that are neither empty nor contain a tab
  or newline, a domain that does not look like a comment, an expiry that fits 32 bits.\<close>

definition writable :: "cookie \<Rightarrow> bool" where
  "writable c \<longleftrightarrow>
     (\<exists>d. ck_domain c = Some d \<and> clean_field d \<and> (ck_http_only c \<or> \<not> starts_with d ''#'')) \<and>
     (\<exists>p. ck_path c = Some p \<and> clean_field p) \<and> clean_field (ck_name c) \<and>
     (\<exists>v. ck_value c = Some v \<and> clean_field v) \<and>
     (\<forall>e. ck_expires c = Some e \<longrightarrow> ns_per_s \<le> e \<and> e < 2 ^ 32 * ns_per_s)"

definition saved :: "cookie \<Rightarrow> cookie" where
  "saved c = c\<lparr>ck_expires := map_option (\<lambda>e. (e div ns_per_s) * ns_per_s) (ck_expires c),
     ck_same_site := None, ck_partitioned := False\<rparr>"

definition epoch_of :: "cookie \<Rightarrow> nat" where
  "epoch_of c = (case ck_expires c of Some e \<Rightarrow> nat (e div ns_per_s) | None \<Rightarrow> 0)"

definition netscape_line :: "bool \<Rightarrow> string \<Rightarrow> bool \<Rightarrow> string \<Rightarrow> bool \<Rightarrow> nat \<Rightarrow> string \<Rightarrow> string \<Rightarrow> string" where
  "netscape_line h d tm p sec n nm v =
     (if h then ''#HttpOnly_'' else []) @ d @ CHR 0x09 # show_flag tm @ CHR 0x09 # p @ CHR 0x09 #
     show_flag sec @ CHR 0x09 # show_nat n @ CHR 0x09 # nm @ CHR 0x09 # v"

context url_grammar
begin

lemma tab_step: "rparse (squelch (delim_char d)) (d # t) = Inr (GStr [d], t)"
  by (simp add: squelched delim)

lemma flag_step:
  "rparse (variant_rule [literal_rule ''FALSE'', literal_rule ''TRUE'']) (show_flag b @ t) =
     Inr (GAlt (if b then 1 else 0) (GStr (show_flag b)), t)"
  by (simp add: variants literal show_flag_def starts_with_def)

lemma unsigned_step:
  assumes "n \<le> m" "\<not> is_digit d"
  shows "rparse (unsigned_rule m) (show_nat n @ d # t) = Inr (GNum n, d # t)"
proof -
  have dig: "\<forall>c \<in> set (show_nat n). is_digit c" using show_nat_digits by (simp add: list_all_iff)
  have tw: "takeWhile is_digit (show_nat n @ d # t) = show_nat n"
    using dig assms(2) by (simp add: takeWhile_append2)
  have dw: "dropWhile is_digit (show_nat n @ d # t) = d # t"
    using dig assms(2) by (simp add: dropWhile_append2)
  have "hd (show_nat n) = CHR ''0'' \<Longrightarrow> length (show_nat n) = 1"
    using show_nat_hd_zero [of n] show_nat_zero by (simp add: digit_char_zero)
  then show ?thesis using assms(1) by (auto simp: unsigned unsigned_parse_def Let_def tw dw)
qed

lemma field_step:
  "clean_field f \<Longrightarrow> rparse (token_rule field_chars) (f @ CHR 0x09 # t) = Inr (GStr f, CHR 0x09 # t)"
  "clean_field f \<Longrightarrow> rparse (token_rule field_chars) f = Inr (GStr f, [])"
  by (rule token_field token_all; auto simp: clean_field_def field_chars_def list_all_iff)+

lemma http_only_step:
  assumes "h \<or> \<not> starts_with t ''#''" "t \<noteq> []"
  shows "rparse (optional_rule (literal_rule ''#HttpOnly_'')) ((if h then ''#HttpOnly_'' else []) @ t) =
    Inr (if h then GSome (GStr ''#HttpOnly_'') else GNone, t)"
  using assms by (cases t) (auto simp: optional literal starts_with_def)

lemma netscape_line_steps:
  assumes "clean_field d" "h \<or> \<not> starts_with d ''#''" "clean_field p" "clean_field nm" "n < 2 ^ 32"
  shows "rparse netscape_parser (netscape_line h d tm p sec n nm v) =
    (case rparse (token_rule field_chars) v of
       Inl e \<Rightarrow> Inl e
     | Inr (w, t) \<Rightarrow> Inr (GTuple [if h then GSome (GStr ''#HttpOnly_'') else GNone, GStr d,
         GAlt (if tm then 1 else 0) (GStr (show_flag tm)), GStr p,
         GAlt (if sec then 1 else 0) (GStr (show_flag sec)), GNum n, GStr nm, w], t))"
proof -
  have hs: "rparse (optional_rule (literal_rule ''#HttpOnly_''))
      ((if h then ''#HttpOnly_'' else []) @ d @ t) =
      Inr (if h then GSome (GStr ''#HttpOnly_'') else GNone, d @ t)" for t
    using assms(1,2) by (intro http_only_step) (cases d; auto simp: starts_with_def clean_field_def)+
  have us: "rparse (unsigned_rule 4294967295) (show_nat n @ CHR 0x09 # t) = Inr (GNum n, CHR 0x09 # t)" for t
    using assms(5) by (intro unsigned_step) (auto simp: is_digit_def byte_def)
  show ?thesis
    by (simp add: netscape_parser_def netscape_line_def tupled hs us field_step assms tab_step
        flag_step mk_tuple_def del: append.simps split: sum.split prod.split)
qed

lemma parse_netscape_line:
  assumes "clean_field d" "h \<or> \<not> starts_with d ''#''" "clean_field p" "clean_field nm"
    "clean_field v" "n < 2 ^ 32"
  shows "parse_netscape_cookie gparse (netscape_line h d tm p sec n nm v) =
    Inr (cookie_default\<lparr>ck_http_only := h, ck_domain := Some d, ck_tailmatch := tm,
      ck_path := Some p, ck_secure := sec, ck_expires := epoch_to_expiry n, ck_name := nm,
      ck_value := Some v\<rparr>)"
  using assms by (simp add: parse_netscape_cookie_def parse_all g_get_def field_step
      netscape_line_steps [OF assms(1-4,6)])

lemma parse_netscape_line_empty:
  assumes "clean_field d" "h \<or> \<not> starts_with d ''#''" "clean_field p" "clean_field nm" "n < 2 ^ 32"
  shows "parse_netscape_cookie gparse (netscape_line h d tm p sec n nm []) = Inl err_need_more"
  using assms by (simp add: parse_netscape_cookie_def parse_all token netscape_line_steps [OF assms])

end

lemma seconds_bounds:
  assumes "ns_per_s \<le> e" "e < 2 ^ 32 * ns_per_s"
  shows "1 \<le> e div ns_per_s \<and> e div ns_per_s < 2 ^ 32"
proof
  have ns: "0 < ns_per_s" by (simp add: ns_per_s_def)
  show "1 \<le> e div ns_per_s" using zdiv_mono1 [OF assms(1) ns] ns by simp
  show "e div ns_per_s < 2 ^ 32" by (rule int_div_less [OF ns assms(2)])
qed

lemma writable_expiry:
  assumes "writable c"
  shows "(case ck_expires c of Some e \<Rightarrow> show_int (to_seconds e) | None \<Rightarrow> ''0'') = show_nat (epoch_of c)"
proof (cases "ck_expires c")
  case None then show ?thesis by (simp add: epoch_of_def show_nat_zero)
next
  case (Some e)
  then have "ns_per_s \<le> e" using assms by (simp add: writable_def)
  then have "0 \<le> e" "0 \<le> e div ns_per_s" by (simp_all add: ns_per_s_def pos_imp_zdiv_nonneg_iff)
  then show ?thesis using Some by (simp add: epoch_of_def show_int_def to_seconds_def)
qed

lemma writable_obtain:
  assumes "writable c"
  obtains d p v where "ck_domain c = Some d" "clean_field d" "ck_http_only c \<or> \<not> starts_with d ''#''"
    "ck_path c = Some p" "clean_field p" "clean_field (ck_name c)" "ck_value c = Some v" "clean_field v"
    "epoch_of c < 2 ^ 32" "epoch_to_expiry (epoch_of c) = ck_expires (saved c)"
    "write_cookie c = Inr (netscape_line (ck_http_only c) d (ck_tailmatch c) p (ck_secure c) (epoch_of c)
       (ck_name c) v @ [CHR 0x0A])"
proof -
  obtain d p v where f: "ck_domain c = Some d" "clean_field d" "ck_http_only c \<or> \<not> starts_with d ''#''"
    "ck_path c = Some p" "clean_field p" "clean_field (ck_name c)" "ck_value c = Some v" "clean_field v"
    and ex: "\<forall>e. ck_expires c = Some e \<longrightarrow> ns_per_s \<le> e \<and> e < 2 ^ 32 * ns_per_s"
    using assms by (auto simp: writable_def)
  have b: "1 \<le> e div ns_per_s \<and> e div ns_per_s < 2 ^ 32 \<and> 0 \<le> e" if "ck_expires c = Some e" for e
    using seconds_bounds [of e] ex that by (auto simp: ns_per_s_def)
  have "epoch_of c < 2 ^ 32" using b by (auto simp: epoch_of_def split: option.split)
  moreover have "epoch_to_expiry (epoch_of c) = ck_expires (saved c)"
    using b by (cases "ck_expires c") (auto simp: epoch_of_def epoch_to_expiry_def saved_def)
  ultimately show thesis
    using that f writable_expiry [OF assms] by (simp add: write_cookie_def netscape_line_def Let_def)
qed

lemma get_lines_line:
  "CHR 0x0A \<notin> set l \<Longrightarrow> get_lines (l @ CHR 0x0A # t) = l # get_lines t"
proof -
  assume "CHR 0x0A \<notin> set l"
  then have "takeWhile (\<lambda>c. c \<noteq> CHR 0x0A) (l @ CHR 0x0A # t) = l"
    "dropWhile (\<lambda>c. c \<noteq> CHR 0x0A) (l @ CHR 0x0A # t) = CHR 0x0A # t"
    by (subst takeWhile_append2 dropWhile_append2; force)+
  then show ?thesis by (simp add: get_lines.simps [of "l @ CHR 0x0A # t"])
qed

lemma netscape_line_clean:
  assumes "clean_field d" "h \<or> \<not> starts_with d ''#''" "clean_field p" "clean_field nm"
    "CHR 0x0A \<notin> set v"
  shows "CHR 0x0A \<notin> set (netscape_line h d tm p sec n nm v)"
    "netscape_line h d tm p sec n nm v \<noteq> []"
    "starts_with (netscape_line h d tm p sec n nm v) ''#'' \<Longrightarrow>
      starts_with (netscape_line h d tm p sec n nm v) ''#HttpOnly_''"
proof -
  have "CHR 0x0A \<notin> set (show_nat n)"
    using show_nat_digits [of n] by (auto simp: list_all_iff is_digit_def byte_def)
  then show "CHR 0x0A \<notin> set (netscape_line h d tm p sec n nm v)"
    using assms by (auto simp: netscape_line_def clean_field_def show_flag_def)
qed (use assms in \<open>auto simp: netscape_line_def starts_with_def clean_field_def neq_Nil_conv
  split: if_splits\<close>)

context url_grammar
begin

lemma read_written:
  "list_all writable cs \<Longrightarrow>
   \<exists>text. write_cookies cs os = Inr (os @ text) \<and>
     read_lines gparse (get_lines text) cj =
       (None, cj\<lparr>jar_cookies := jar_cookies cj @ map saved cs\<rparr>)"
proof (induction cs arbitrary: os cj)
  case Nil
  then show ?case by (simp add: get_lines.simps)
next
  case (Cons c cs)
  obtain d p v where w: "ck_domain c = Some d" "clean_field d" "ck_http_only c \<or> \<not> starts_with d ''#''"
    "ck_path c = Some p" "clean_field p" "clean_field (ck_name c)" "ck_value c = Some v" "clean_field v"
    "epoch_of c < 2 ^ 32" "epoch_to_expiry (epoch_of c) = ck_expires (saved c)"
    and wr: "write_cookie c = Inr (netscape_line (ck_http_only c) d (ck_tailmatch c) p (ck_secure c)
       (epoch_of c) (ck_name c) v @ [CHR 0x0A])"
    using Cons.prems writable_obtain [of c] by (metis list.pred_inject(2))
  let ?l = "netscape_line (ck_http_only c) d (ck_tailmatch c) p (ck_secure c) (epoch_of c) (ck_name c) v"
  have parsed: "parse_netscape_cookie gparse ?l = Inr (saved c)"
    using parse_netscape_line [OF w(2,3,5,6,8,9)] w(1,4,7,10)
    by (simp add: saved_def cookie_default_def)
  obtain t where t: "write_cookies cs (os @ ?l @ [CHR 0x0A]) = Inr ((os @ ?l @ [CHR 0x0A]) @ t)"
    "read_lines gparse (get_lines t) (cj\<lparr>jar_cookies := jar_cookies cj @ [saved c]\<rparr>) =
       (None, cj\<lparr>jar_cookies := jar_cookies cj @ [saved c] @ map saved cs\<rparr>)"
    using Cons.IH [of "os @ ?l @ [CHR 0x0A]" "cj\<lparr>jar_cookies := jar_cookies cj @ [saved c]\<rparr>"]
      Cons.prems by auto
  have vc: "CHR 0x0A \<notin> set v" using w(8) by (simp add: clean_field_def)
  note clean = netscape_line_clean [OF w(2,3,5,6) vc, of "ck_tailmatch c" "ck_secure c" "epoch_of c"]
  have "read_lines gparse (get_lines (?l @ CHR 0x0A # t)) cj =
      (None, cj\<lparr>jar_cookies := jar_cookies cj @ map saved (c # cs)\<rparr>)"
    using clean(2,3) t(2) by (auto simp: get_lines_line [OF clean(1)] parsed)
  then show ?case using t(1) wr by (intro exI [of _ "?l @ CHR 0x0A # t"]) simp
qed

end

text \<open>
  Saving a jar and loading the file again gives the same cookies in the same order, up
  to the fractions of a second of the expiry and the two attributes the format has no column
  for, provided every cookie has a domain, path, name and value that the format can carry.
\<close>

theorem jar_file_roundtrip:
  assumes "url_grammar gparse rparse" and "list_all writable (jar_cookies cj)"
  shows "\<exists>file_text. jar_write cj [] = Inr file_text \<and>
    jar_read gparse file_text jar_empty = (None, \<lparr>jar_cookies = map saved (jar_cookies cj)\<rparr>)"
proof -
  let ?h = "''# Netscape HTTP Cookie File'' @ [CHR 0x0A, CHR 0x0A]"
  obtain t where t: "write_cookies (jar_cookies cj) ?h = Inr (?h @ t)"
    "read_lines gparse (get_lines t) jar_empty = (None, \<lparr>jar_cookies = map saved (jar_cookies cj)\<rparr>)"
    using url_grammar.read_written [OF assms, of ?h jar_empty] by (auto simp: jar_empty_def)
  have "get_lines (?h @ t) = ''# Netscape HTTP Cookie File'' # [] # get_lines t"
    using get_lines_line [of "''# Netscape HTTP Cookie File''" "CHR 0x0A # t"] get_lines_line [of "[]" t]
    by simp
  then have "jar_read gparse (?h @ t) jar_empty = (None, \<lparr>jar_cookies = map saved (jar_cookies cj)\<rparr>)"
    using t(2) by (simp add: jar_read_def starts_with_def)
  then show ?thesis using t(1) by (intro exI [of _ "?h @ t"]) (simp add: jar_write_def)
qed

text \<open>A jar in which some cookie has no value is written, but its file cannot be read again.\<close>

definition has_value :: "cookie \<Rightarrow> bool" where
  "has_value c \<longleftrightarrow> ck_value c \<noteq> None \<and> ck_value c \<noteq> Some []"

text \<open>Like \<open>writable\<close>, but the value may be absent or empty.\<close>

definition storable :: "cookie \<Rightarrow> bool" where
  "storable c \<longleftrightarrow> writable (c\<lparr>ck_value := Some (if has_value c then the (ck_value c) else ''-'')\<rparr>)"

lemma storable_writable: "storable c \<Longrightarrow> has_value c \<Longrightarrow> writable c"
proof -
  assume "storable c" "has_value c"
  moreover from this have "c\<lparr>ck_value := Some (the (ck_value c))\<rparr> = c" by (simp add: has_value_def)
  ultimately show ?thesis by (simp add: storable_def)
qed

lemma storable_empty_line:
  assumes "storable c" "\<not> has_value c"
  obtains d p where "clean_field d" "ck_http_only c \<or> \<not> starts_with d ''#''" "clean_field p" "clean_field (ck_name c)"
    "epoch_of c < 2 ^ 32"
    "write_cookie c = Inr (netscape_line (ck_http_only c) d (ck_tailmatch c) p (ck_secure c) (epoch_of c)
       (ck_name c) [] @ [CHR 0x0A])"
proof -
  let ?c = "c\<lparr>ck_value := Some ''-''\<rparr>"
  have w: "writable ?c" using assms by (simp add: storable_def)
  have e: "epoch_of ?c = epoch_of c" by (simp add: epoch_of_def)
  from w obtain d p v where "ck_domain ?c = Some d" "clean_field d" "ck_http_only ?c \<or> \<not> starts_with d ''#''"
      "ck_path ?c = Some p" "clean_field p" "clean_field (ck_name ?c)" "epoch_of ?c < 2 ^ 32"
    by (elim writable_obtain)
  then have "ck_domain c = Some d" "clean_field d" "ck_http_only c \<or> \<not> starts_with d ''#''"
      "ck_path c = Some p" "clean_field p" "clean_field (ck_name c)" "epoch_of c < 2 ^ 32"
    by (simp_all add: e)
  moreover have "(case ck_expires c of Some t \<Rightarrow> show_int (to_seconds t) | None \<Rightarrow> ''0'') = show_nat (epoch_of c)"
    using writable_expiry [OF w] by (simp add: e)
  moreover have "case_option [] id (ck_value c) = []" using assms(2) by (auto simp: has_value_def)
  ultimately show thesis
    using that by (simp add: write_cookie_def netscape_line_def Let_def)
qed

lemma storable_write: "storable c \<Longrightarrow> \<exists>t. write_cookie c = Inr t"
  by (cases "has_value c") (metis storable_writable writable_obtain, metis storable_empty_line)

lemma write_cookies_storable: "list_all storable cs \<Longrightarrow> \<exists>t. write_cookies cs os = Inr (os @ t)"
proof (induction cs arbitrary: os)
  case (Cons c cs)
  obtain t where "write_cookie c = Inr t" using Cons.prems storable_write [of c] by auto
  moreover obtain t' where "write_cookies cs (os @ t) = Inr ((os @ t) @ t')"
    using Cons.IH [of "os @ t"] Cons.prems by auto
  ultimately show ?case by simp
qed simp

context url_grammar
begin

lemma read_written_empty:
  "list_all storable cs \<Longrightarrow> \<not> list_all has_value cs \<Longrightarrow>
   \<exists>text cj'. write_cookies cs os = Inr (os @ text) \<and>
     read_lines gparse (get_lines text) cj = (Some (system_error ''parse_netscape_cookie''), cj')"
proof (induction cs arbitrary: os cj)
  case (Cons c cs)
  show ?case
  proof (cases "has_value c")
    case True
    with Cons.prems have w: "writable c" using storable_writable [of c] by simp
    obtain t where wt: "write_cookies [c] os = Inr (os @ t)"
      "read_lines gparse (get_lines t) cj = (None, cj\<lparr>jar_cookies := jar_cookies cj @ [saved c]\<rparr>)"
      using read_written [of "[c]" os cj] w by auto
    from w obtain d p v where f: "clean_field d" "ck_http_only c \<or> \<not> starts_with d ''#''" "clean_field p"
        "clean_field (ck_name c)" "clean_field v"
        "write_cookie c = Inr (netscape_line (ck_http_only c) d (ck_tailmatch c) p (ck_secure c) (epoch_of c)
           (ck_name c) v @ [CHR 0x0A])"
      by (elim writable_obtain)
    let ?l = "netscape_line (ck_http_only c) d (ck_tailmatch c) p (ck_secure c) (epoch_of c) (ck_name c) v"
    have t: "t = ?l @ [CHR 0x0A]" using wt(1) f(6) by simp
    have nl: "CHR 0x0A \<notin> set ?l" using netscape_line_clean(1) [OF f(1-4)] f(5) by (simp add: clean_field_def)
    have "get_lines (t @ u) = ?l # get_lines u" for u using get_lines_line [OF nl, of u] by (simp add: t)
    moreover have "get_lines t = [?l]" using get_lines_line [OF nl, of "[]"] by (simp add: t get_lines.simps)
    ultimately have step: "read_lines gparse (get_lines (t @ u)) cj =
        read_lines gparse (get_lines u) (cj\<lparr>jar_cookies := jar_cookies cj @ [saved c]\<rparr>)" for u
      using wt(2) by (auto split: if_splits sum.splits)
    obtain u cj' where u: "write_cookies cs (os @ t) = Inr ((os @ t) @ u)"
      "read_lines gparse (get_lines u) (cj\<lparr>jar_cookies := jar_cookies cj @ [saved c]\<rparr>) =
         (Some (system_error ''parse_netscape_cookie''), cj')"
      using Cons.IH [of "os @ t" "cj\<lparr>jar_cookies := jar_cookies cj @ [saved c]\<rparr>"] Cons.prems True by auto
    then show ?thesis using f(6) t step [of u] by (intro exI [of _ "t @ u"]) simp
  next
    case False
    obtain d p where f: "clean_field d" "ck_http_only c \<or> \<not> starts_with d ''#''" "clean_field p" "clean_field (ck_name c)"
        "epoch_of c < 2 ^ 32"
      and wr: "write_cookie c = Inr (netscape_line (ck_http_only c) d (ck_tailmatch c) p (ck_secure c) (epoch_of c)
           (ck_name c) [] @ [CHR 0x0A])"
      using Cons.prems(1) False storable_empty_line [of c] by auto
    let ?l = "netscape_line (ck_http_only c) d (ck_tailmatch c) p (ck_secure c) (epoch_of c) (ck_name c) []"
    obtain u where u: "write_cookies cs (os @ ?l @ [CHR 0x0A]) = Inr ((os @ ?l @ [CHR 0x0A]) @ u)"
      using write_cookies_storable [of cs "os @ ?l @ [CHR 0x0A]"] Cons.prems(1) by auto
    note clean = netscape_line_clean [OF f(1-4), of "[]" "ck_tailmatch c" "ck_secure c" "epoch_of c"]
    have "get_lines (?l @ CHR 0x0A # u) = ?l # get_lines u" using clean(1) by (intro get_lines_line) simp
    then have "read_lines gparse (get_lines (?l @ CHR 0x0A # u)) cj = (Some (system_error ''parse_netscape_cookie''), cj)"
      using clean(2,3) parse_netscape_line_empty [OF f] by auto
    then show ?thesis using wr u by (intro exI [of _ "?l @ CHR 0x0A # u"]) simp
  qed
qed simp

end

lemma jar_file_unreadable:
  assumes "url_grammar gparse rparse" "list_all storable (jar_cookies cj)" "\<not> list_all has_value (jar_cookies cj)"
  shows "\<exists>file_text cj'. jar_write cj [] = Inr file_text \<and>
    jar_read gparse file_text jar_empty = (Some (system_error ''parse_netscape_cookie''), cj')"
proof -
  let ?h = "''# Netscape HTTP Cookie File'' @ [CHR 0x0A, CHR 0x0A]"
  obtain t cj' where t: "write_cookies (jar_cookies cj) ?h = Inr (?h @ t)"
    "read_lines gparse (get_lines t) jar_empty = (Some (system_error ''parse_netscape_cookie''), cj')"
    using url_grammar.read_written_empty [OF assms, of ?h jar_empty] by blast
  have "get_lines (?h @ t) = ''# Netscape HTTP Cookie File'' # [] # get_lines t"
    using get_lines_line [of "''# Netscape HTTP Cookie File''" "CHR 0x0A # t"] get_lines_line [of "[]" t]
    by simp
  then have "jar_read gparse (?h @ t) jar_empty = (Some (system_error ''parse_netscape_cookie''), cj')"
    using t(2) by (simp add: jar_read_def starts_with_def)
  then show ?thesis using t(1) by (intro exI [of _ "?h @ t"] exI [of _ cj']) (simp add: jar_write_def)
qed

theorem jar_file_roundtrip_witness:
  "\<exists>file_text. jar_write \<lparr>jar_cookies = [ex_cookie\<lparr>ck_domain := Some ''a.io'', ck_path := Some ''/''\<rparr>]\<rparr> [] =
      Inr file_text \<and>
    jar_read ref_gparse file_text jar_empty =
      (None, \<lparr>jar_cookies = [saved (ex_cookie\<lparr>ck_domain := Some ''a.io'', ck_path := Some ''/''\<rparr>)]\<rparr>)"
  using jar_file_roundtrip [OF ref.url_grammar_axioms,
      of "\<lparr>jar_cookies = [ex_cookie\<lparr>ck_domain := Some ''a.io'', ck_path := Some ''/''\<rparr>]\<rparr>"]
  by (simp add: writable_def clean_field_def ex_cookie_def cookie_default_def starts_with_def)

text \<open>
  A cookie without a value, which \<^verbatim>\<open>parse_cookie\<close> accepts and the jar stores, is written
  with an empty last column; loading the file then throws, and the cookies of the following
  lines are lost.
\<close>

theorem jar_file_empty_value:
  assumes "url_grammar gparse rparse" and "writable c"
  shows "parse_cookie ref_gparse (=) (\<lambda>_ _. 0) 0 ''n='' = Inr (Inr (cookie_default\<lparr>ck_name := ''n''\<rparr>)) \<and>
    (\<exists>file_text. jar_write \<lparr>jar_cookies = [c\<lparr>ck_value := None\<rparr>]\<rparr> [] = Inr file_text \<and>
      jar_read gparse (file_text @ later) jar_empty =
        (Some (system_error ''parse_netscape_cookie''), jar_empty))"
proof
  show "parse_cookie ref_gparse (=) (\<lambda>_ _. 0) 0 ''n='' = Inr (Inr (cookie_default\<lparr>ck_name := ''n''\<rparr>))"
    by code_simp
  obtain d p where w: "ck_domain c = Some d" "clean_field d" "ck_http_only c \<or> \<not> starts_with d ''#''"
    "ck_path c = Some p" "clean_field p" "clean_field (ck_name c)" "epoch_of c < 2 ^ 32"
    and wr: "(case ck_expires c of Some e \<Rightarrow> show_int (to_seconds e) | None \<Rightarrow> ''0'') = show_nat (epoch_of c)"
    using assms(2) writable_obtain [of c] writable_expiry [of c] by metis
  let ?l = "netscape_line (ck_http_only c) d (ck_tailmatch c) p (ck_secure c) (epoch_of c) (ck_name c) []"
  let ?h = "''# Netscape HTTP Cookie File'' @ [CHR 0x0A, CHR 0x0A]"
  have out: "jar_write \<lparr>jar_cookies = [c\<lparr>ck_value := None\<rparr>]\<rparr> [] = Inr (?h @ ?l @ [CHR 0x0A])"
    using w(1,4) wr by (simp add: jar_write_def write_cookie_def netscape_line_def Let_def)
  note clean = netscape_line_clean [OF w(2,3,5,6), of "[]" "ck_tailmatch c" "ck_secure c" "epoch_of c"]
  have "get_lines (?h @ ?l @ CHR 0x0A # later) =
      ''# Netscape HTTP Cookie File'' # [] # ?l # get_lines later"
    using get_lines_line [of "''# Netscape HTTP Cookie File''"] get_lines_line [of "[]"]
      get_lines_line [of ?l] clean(1) by simp
  then have "jar_read gparse ((?h @ ?l @ [CHR 0x0A]) @ later) jar_empty =
      (Some (system_error ''parse_netscape_cookie''), jar_empty)"
    using clean(2,3) url_grammar.parse_netscape_line_empty [OF assms(1) w(2,3,5,6,7)]
    by (auto simp: jar_read_def starts_with_def [of "CHR ''#'' # _"])
  then show "\<exists>file_text. jar_write \<lparr>jar_cookies = [c\<lparr>ck_value := None\<rparr>]\<rparr> [] = Inr file_text \<and>
      jar_read gparse (file_text @ later) jar_empty =
        (Some (system_error ''parse_netscape_cookie''), jar_empty)"
    using out by blast
qed

theorem jar_file_empty_value_witness:
  "\<exists>file_text. jar_write \<lparr>jar_cookies = [ex_cookie\<lparr>ck_domain := Some ''a.io'', ck_path := Some ''/'',
        ck_value := None\<rparr>]\<rparr> [] = Inr file_text \<and>
    jar_read ref_gparse (file_text @ []) jar_empty =
      (Some (system_error ''parse_netscape_cookie''), jar_empty)"
  using jar_file_empty_value [OF ref.url_grammar_axioms,
      of "ex_cookie\<lparr>ck_domain := Some ''a.io'', ck_path := Some ''/''\<rparr>" "[]"]
  by (simp add: writable_def clean_field_def ex_cookie_def cookie_default_def starts_with_def)

end
