(* ===== verification/Glob.thy ===== *)
theory Glob
  imports Url_Grammar
begin

text \<open>
  URL globbing of the burl client (\<^verbatim>\<open>glob.hpp\<close>, \<^verbatim>\<open>glob.cpp\<close>): the four kinds of generators, the
  translation of a pattern into a list of them, the stack machine that enumerates their
  combinations, and the interpolation of the chosen tokens into an output name.  The
  enumerating closure may run forever (a step of zero, a range that wraps around), so it is
  a partial function and the theorem about it says when it returns.
\<close>

subsection \<open>Generators\<close>

datatype gen =
    RangeGen u8 u64 u64 u64
  | CharGen u8 u8 u8
  | SetGen "string list" nat
  | StaticGen "string option"

definition word_char :: "u8 \<Rightarrow> char" where
  "word_char w = char_of (unat w)"

definition char_word :: "char \<Rightarrow> u8" where
  "char_word c = of_nat (of_char c)"

definition range_gen_next :: "u8 \<Rightarrow> u64 \<Rightarrow> u64 \<Rightarrow> u64 \<Rightarrow> string option \<times> gen" where
  "range_gen_next width low high step =
     (if low > high then (None, RangeGen width low high step)
      else
        let rs = show_nat (unat low);
            rs' = (if unat width > length rs then replicate (unat width - length rs) (CHR ''0'') @ rs
                   else rs) in
        (Some rs', RangeGen width (low + step) high step))"

text \<open>Both bounds are of type \<^verbatim>\<open>char\<close>: they compare as signed numbers, and the sum is reduced
  to eight bits when it is stored back.\<close>

definition char_gen_next :: "u8 \<Rightarrow> u8 \<Rightarrow> u8 \<Rightarrow> string option \<times> gen" where
  "char_gen_next low high step =
     (if sint low > sint high then (None, CharGen low high step)
      else (Some [word_char low], CharGen (low + step) high step))"

definition set_gen_next :: "string list \<Rightarrow> nat \<Rightarrow> string option \<times> gen" where
  "set_gen_next items i =
     (if i = length items then (None, SetGen items i) else (Some (items ! i), SetGen items (i + 1)))"

definition static_gen_next :: "string option \<Rightarrow> string option \<times> gen" where
  "static_gen_next s = (s, StaticGen None)"

fun gen_next :: "gen \<Rightarrow> string option \<times> gen" where
  "gen_next (RangeGen width low high step) = range_gen_next width low high step"
| "gen_next (CharGen low high step) = char_gen_next low high step"
| "gen_next (SetGen items i) = set_gen_next items i"
| "gen_next (StaticGen s) = static_gen_next s"

fun holds_static_gen :: "gen \<Rightarrow> bool" where
  "holds_static_gen (StaticGen _) = True"
| "holds_static_gen _ = False"

subsection \<open>Patterns\<close>

definition static_rule :: grule where
  "static_rule = token_rule (cs_diff all_chars (lut_chars ''{[''))"

definition num_range_rule :: grule where
  "num_range_rule = tuple_rule
     [squelch (delim_char (CHR ''['')), token_rule digit_chars, squelch (delim_char (CHR ''-'')),
      unsigned_rule (2 ^ 64 - 1),
      optional_rule (tuple_rule [squelch (delim_char (CHR '':'')), unsigned_rule (2 ^ 64 - 1)]),
      squelch (delim_char (CHR '']''))]"

definition char_range_rule :: grule where
  "char_range_rule = tuple_rule
     [squelch (delim_char (CHR ''['')), delim_rule alpha_chars, squelch (delim_char (CHR ''-'')),
      delim_rule alpha_chars,
      optional_rule (tuple_rule [squelch (delim_char (CHR '':'')), unsigned_rule (2 ^ 8 - 1)]),
      squelch (delim_char (CHR '']''))]"

definition set_rule :: grule where
  "set_rule = tuple_rule
     [squelch (delim_char (CHR ''{'')),
      range_rule (tuple_rule
        [token_rule (cs_diff all_chars (lut_chars '',}'')),
         squelch (optional_rule (delim_char (CHR '','')))]),
      squelch (delim_char (CHR ''}''))]"

definition glob_rule :: grule where
  "glob_rule = range_rule (variant_rule [static_rule, num_range_rule, char_range_rule, set_rule])"

text \<open>\<^verbatim>\<open>low.at(0)\<close> of a one-character view.\<close>

definition view_at0 :: "gval \<Rightarrow> exn + char" where
  "view_at0 v = (case g_str v of [] \<Rightarrow> Inl (out_of_range ''at'') | c # _ \<Rightarrow> Inr c)"

definition make_gen :: "gval \<Rightarrow> exn + gen" where
  "make_gen v =
     (let w = g_alt v in
      if g_index v = 0 then Inr (StaticGen (Some (g_str w)))
      else if g_index v = 1 then
        rmap (\<lambda>low. RangeGen (of_nat (length (g_str (g_get 0 w)))) low (of_nat (g_num (g_get 1 w)))
                 (case g_opt (g_get 2 w) of Some n \<Rightarrow> of_nat (g_num n) | None \<Rightarrow> 1))
          (stoull (g_str (g_get 0 w)))
      else if g_index v = 2 then
        rbind (view_at0 (g_get 0 w)) (\<lambda>low. rmap (\<lambda>high. CharGen (char_word low) (char_word high)
                 (case g_opt (g_get 2 w) of Some n \<Rightarrow> of_nat (g_num n) | None \<Rightarrow> 1))
          (view_at0 (g_get 1 w)))
      else Inr (SetGen (map g_str (g_range w)) 0))"

fun make_gens :: "gval list \<Rightarrow> exn + gen list" where
  "make_gens [] = Inr []"
| "make_gens (v # vs) = rbind (make_gen v) (\<lambda>g. rmap (\<lambda>gs. g # gs) (make_gens vs))"

subsection \<open>The enumerating closure\<close>

record glob_result =
  gr_result :: string
  gr_tokens :: "string list"

text \<open>The captured variables; the top of the stack is the head of the list.\<close>

record glob_state =
  gs_stack :: "(string \<times> gen list) list"
  gs_tokens :: "string list"

definition make_glob_generator :: "gparser \<Rightarrow> string \<Rightarrow> exn + glob_state" where
  "make_glob_generator gparse pattern =
     (case gparse glob_rule pattern of
        Inl _ \<Rightarrow> Inl (runtime_error ''Bad URL pattern'')
      | Inr p \<Rightarrow> rmap (\<lambda>gs. \<lparr>gs_stack = [([], gs)], gs_tokens = []\<rparr>) (make_gens (g_range p)))"

definition pop_token :: "(string \<times> gen list) list \<Rightarrow> string list \<Rightarrow> string list" where
  "pop_token stack tokens =
     (case stack of
        (_, g # _) # _ \<Rightarrow> if \<not> holds_static_gen g then butlast tokens else tokens
      | _ \<Rightarrow> tokens)"

text \<open>One turn of the loop: it returns a result, fails, or goes round again.\<close>

datatype glob_turn = Turn_return "glob_result option" glob_state | Turn_throw exn | Turn_next glob_state

definition glob_turn_of :: "glob_state \<Rightarrow> glob_turn" where
  "glob_turn_of st =
     (case gs_stack st of
        [] \<Rightarrow> Turn_return None st
      | (pre, []) # stack \<Rightarrow> Turn_throw (undefined_behaviour ''front of an empty vector'')
      | (pre, g # gs) # stack \<Rightarrow>
          (case gen_next g of
             (Some s, g') \<Rightarrow>
               let tokens = (if holds_static_gen g then gs_tokens st else gs_tokens st @ [s]);
                   stack' = (pre, g' # gs) # stack in
               if gs = []
               then Turn_return (Some \<lparr>gr_result = pre @ s, gr_tokens = tokens\<rparr>) (st\<lparr>gs_stack := stack'\<rparr>)
               else Turn_next (st\<lparr>gs_stack := (pre @ s, gs) # stack', gs_tokens := tokens\<rparr>)
           | (None, g') \<Rightarrow>
               Turn_next (st\<lparr>gs_stack := stack, gs_tokens := pop_token stack (gs_tokens st)\<rparr>)))"

partial_function (option) glob_call ::
    "glob_state \<Rightarrow> (exn + (glob_result option \<times> glob_state)) option" where
  "glob_call st =
     (case glob_turn_of st of
        Turn_return r st' \<Rightarrow> Some (Inr (r, st'))
      | Turn_throw e \<Rightarrow> Some (Inl e)
      | Turn_next st' \<Rightarrow> glob_call st')"

declare glob_call.simps [code]

text \<open>Calling the closure a number of times.\<close>

fun glob_calls :: "nat \<Rightarrow> glob_state \<Rightarrow> glob_result option list option" where
  "glob_calls 0 st = Some []"
| "glob_calls (Suc n) st =
     (case glob_call st of
        Some (Inr (r, st')) \<Rightarrow> map_option (\<lambda>rs. r # rs) (glob_calls n st')
      | _ \<Rightarrow> None)"

subsection \<open>Interpolation\<close>

definition interpolate_rule :: grule where
  "interpolate_rule = range_rule
     (variant_rule
       [token_rule (cs_diff all_chars (lut_chars ''#'')),
        tuple_rule [squelch (delim_char (CHR ''#'')), token_rule digit_chars],
        tuple_rule [squelch (delim_char (CHR ''#''))]])"

definition interpolate_piece :: "string list \<Rightarrow> gval \<Rightarrow> exn + string" where
  "interpolate_piece tokens v =
     (if g_index v = 0 then Inr (g_str (g_alt v))
      else if g_index v = 1 then
        rmap (\<lambda>n. let index = n - 1 in
                if unat index < length tokens then tokens ! unat index
                else CHR ''#'' # g_str (g_alt v))
          (stoull (g_str (g_alt v)))
      else Inr ''#'')"

fun interpolate_loop :: "string list \<Rightarrow> gval list \<Rightarrow> string \<Rightarrow> exn + string" where
  "interpolate_loop tokens [] rs = Inr rs"
| "interpolate_loop tokens (v # vs) rs =
     rbind (interpolate_piece tokens v) (\<lambda>s. interpolate_loop tokens vs (rs @ s))"

definition interpolate :: "gparser \<Rightarrow> string list \<Rightarrow> string \<Rightarrow> exn + string" where
  "interpolate gparse tokens format =
     (case gparse interpolate_rule format of
        Inl _ \<Rightarrow> Inl (system_error ''parse'')
      | Inr p \<Rightarrow> interpolate_loop tokens (g_range p) [])"

subsection \<open>What a generator yields\<close>

inductive gen_yields :: "gen \<Rightarrow> string list \<Rightarrow> bool" where
  yields_end: "gen_next g = (None, g') \<Longrightarrow> gen_yields g []"
| yields_step: "gen_next g = (Some s, g') \<Longrightarrow> gen_yields g' xs \<Longrightarrow> gen_yields g (s # xs)"

inductive_cases gen_yields_NilE: "gen_yields g []"
inductive_cases gen_yields_ConsE: "gen_yields g (x # xs)"

lemma gen_next_static: "gen_next g = (r, g') \<Longrightarrow> holds_static_gen g' = holds_static_gen g"
  by (cases g) (auto simp: range_gen_next_def char_gen_next_def set_gen_next_def static_gen_next_def
      Let_def split: if_splits)

text \<open>The combinations of the remaining texts of a list of generators, the last one varying
  fastest; a generator that is not fixed text contributes a token.\<close>

fun combos :: "string \<Rightarrow> string list \<Rightarrow> (bool \<times> string list) list \<Rightarrow> glob_result list" where
  "combos p ts [] = [\<lparr>gr_result = p, gr_tokens = ts\<rparr>]"
| "combos p ts ((fixed, xs) # rest) =
     concat (map (\<lambda>x. combos (p @ x) (if fixed then ts else ts @ [x]) rest) xs)"

definition gens_yield :: "gen list \<Rightarrow> (bool \<times> string list) list \<Rightarrow> bool" where
  "gens_yield gs ys \<longleftrightarrow>
     list_all2 (\<lambda>g (fixed, xs). gen_yields g xs \<and> fixed = holds_static_gen g) gs ys"

text \<open>The number of turns a frame still takes.\<close>

fun frame_weight :: "(bool \<times> string list) list \<Rightarrow> nat" where
  "frame_weight [] = 0"
| "frame_weight ((_, xs) # rest) = 1 + length xs * (1 + frame_weight rest)"

inductive glob_repr :: "(string \<times> gen list) list \<Rightarrow> string list \<Rightarrow> glob_result list \<Rightarrow> nat \<Rightarrow> bool" where
  repr_empty: "glob_repr [] ts [] 0"
| repr_frame: "gens_yield gs ys \<Longrightarrow> gs \<noteq> [] \<Longrightarrow> glob_repr stack (pop_token stack ts) outs n \<Longrightarrow>
    glob_repr ((p, gs) # stack) ts (combos p ts ys @ outs) (frame_weight ys + n)"

inductive_cases glob_repr_ConsE: "glob_repr ((p, gs) # stack) ts outs n"
inductive_cases glob_repr_NilE: "glob_repr [] ts outs n"

lemma gens_yield_Cons:
  "gens_yield (g # gs) ys \<longleftrightarrow> (\<exists>xs rest. ys = (holds_static_gen g, xs) # rest \<and> gen_yields g xs \<and> gens_yield gs rest)"
  by (cases ys) (auto simp: gens_yield_def)

lemma gens_yield_Nil: "gens_yield [] ys \<longleftrightarrow> ys = []"
  by (simp add: gens_yield_def)

lemma glob_turn_repr:
  assumes "glob_repr stack ts outs n"
  shows "case glob_turn_of \<lparr>gs_stack = stack, gs_tokens = ts\<rparr> of
      Turn_return r st' \<Rightarrow>
        (r = None \<and> outs = [] \<and> glob_repr (gs_stack st') (gs_tokens st') [] 0) \<or>
        (\<exists>m. r = Some (hd outs) \<and> outs \<noteq> [] \<and> glob_repr (gs_stack st') (gs_tokens st') (tl outs) m)
    | Turn_throw e \<Rightarrow> False
    | Turn_next st' \<Rightarrow> \<exists>m < n. glob_repr (gs_stack st') (gs_tokens st') outs m"
  using assms
proof cases
  case repr_empty
  then show ?thesis by (simp add: glob_turn_of_def glob_repr.repr_empty)
next
  case (repr_frame gs ys stack0 outs0 k p)
  obtain g gs' where gs: "gs = g # gs'" using repr_frame(5) by (cases gs) auto
  obtain xs rest where ys: "ys = (holds_static_gen g, xs) # rest" "gen_yields g xs" "gens_yield gs' rest"
    using repr_frame(4) gs by (auto simp: gens_yield_Cons)
  show ?thesis
  proof (cases xs)
    case Nil
    obtain g' where "gen_next g = (None, g')" using ys(2) Nil by (auto elim: gen_yields_NilE)
    then show ?thesis using repr_frame gs ys Nil by (auto simp: glob_turn_of_def)
  next
    case (Cons x xs')
    obtain g' where g': "gen_next g = (Some x, g')" "gen_yields g' xs'"
      using ys(2) Cons by (auto elim: gen_yields_ConsE)
    have st: "holds_static_gen g' = holds_static_gen g" using gen_next_static [OF g'(1)] .
    have y': "gens_yield (g' # gs') ((holds_static_gen g, xs') # rest)"
      using g'(2) ys(3) st by (auto simp: gens_yield_Cons)
    have base: "glob_repr ((p, g' # gs') # stack0) ts
        (combos p ts ((holds_static_gen g, xs') # rest) @ outs0)
        (frame_weight ((holds_static_gen g, xs') # rest) + k)"
      using y' repr_frame(6) by (intro glob_repr.repr_frame) auto
    show ?thesis
    proof (cases "gs' = []")
      case True
      then have "rest = []" using ys(3) by (simp add: gens_yield_Nil)
      then show ?thesis
        using base repr_frame gs ys(1) Cons True g'(1)
        by (auto simp: glob_turn_of_def Let_def)
    next
      case False
      let ?ts = "if holds_static_gen g then ts else ts @ [x]"
      have pop: "pop_token ((p, g' # gs') # stack0) ?ts = ts" using st by (simp add: pop_token_def)
      have r: "glob_repr ((p @ x, gs') # (p, g' # gs') # stack0) ?ts
          (combos (p @ x) ?ts rest @ combos p ts ((holds_static_gen g, xs') # rest) @ outs0)
          (frame_weight rest + (frame_weight ((holds_static_gen g, xs') # rest) + k))"
        using ys(3) False base pop by (intro glob_repr.repr_frame) auto
      have lt: "frame_weight rest + (frame_weight ((holds_static_gen g, xs') # rest) + k) < n"
        using repr_frame(3) ys(1) Cons by simp
      have turn: "glob_turn_of \<lparr>gs_stack = stack, gs_tokens = ts\<rparr> =
          Turn_next \<lparr>gs_stack = (p @ x, gs') # (p, g' # gs') # stack0, gs_tokens = ?ts\<rparr>"
        using repr_frame(1) gs False g'(1) by (simp add: glob_turn_of_def Let_def)
      have outs: "outs = combos (p @ x) ?ts rest @ combos p ts ((holds_static_gen g, xs') # rest) @ outs0"
        using repr_frame(2) ys(1) Cons by simp
      show ?thesis
        unfolding turn glob_turn.case glob_state.simps using r lt outs by blast
    qed
  qed
qed

lemma glob_call_repr:
  "glob_repr (gs_stack st) (gs_tokens st) outs n \<Longrightarrow>
   \<exists>st' m. glob_call st = Some (Inr (if outs = [] then None else Some (hd outs), st')) \<and>
     glob_repr (gs_stack st') (gs_tokens st') (tl outs) m"
proof (induction n arbitrary: st rule: less_induct)
  case (less n)
  have st: "\<lparr>gs_stack = gs_stack st, gs_tokens = gs_tokens st\<rparr> = st" by simp
  note turn = glob_turn_repr [OF less.prems, unfolded st]
  show ?case
  proof (cases "glob_turn_of st")
    case (Turn_return r st')
    then show ?thesis using turn by (auto simp: glob_call.simps [of st])
  next
    case (Turn_next st')
    then obtain m where "m < n" "glob_repr (gs_stack st') (gs_tokens st') outs m"
      using turn by auto
    from less.IH [OF this] show ?thesis by (simp add: glob_call.simps [of st] Turn_next)
  qed (use turn in auto)
qed

lemma glob_calls_repr:
  "glob_repr (gs_stack st) (gs_tokens st) outs n \<Longrightarrow>
   glob_calls (length outs + k) st = Some (map Some outs @ replicate k None)"
proof (induction "length outs + k" arbitrary: st outs k n)
  case (Suc l)
  obtain st' m where c: "glob_call st = Some (Inr (if outs = [] then None else Some (hd outs), st'))"
    "glob_repr (gs_stack st') (gs_tokens st') (tl outs) m"
    using glob_call_repr [OF Suc.prems] by blast
  show ?case
  proof (cases outs)
    case Nil
    then obtain k' where k: "k = Suc k'" using Suc.hyps(2) by (cases k) auto
    have "glob_calls (length (tl outs) + k') st' = Some (map Some (tl outs) @ replicate k' None)"
      using Suc.hyps(2) c(2) Nil k by (intro Suc.hyps(1)) auto
    then show ?thesis using c(1) Nil k by simp
  next
    case (Cons y ys)
    have "glob_calls (length (tl outs) + k) st' = Some (map Some (tl outs) @ replicate k None)"
      using Suc.hyps(2) c(2) Cons by (intro Suc.hyps(1)) auto
    then show ?thesis using c(1) Cons by simp
  qed
qed simp

lemma glob_start_repr:
  assumes "make_glob_generator gparse pattern = Inr st" "gens_yield (snd (hd (gs_stack st))) ys" "ys \<noteq> []"
  shows "\<exists>n. glob_repr (gs_stack st) (gs_tokens st) (combos [] [] ys) n"
proof -
  obtain gs where st: "st = \<lparr>gs_stack = [([], gs)], gs_tokens = []\<rparr>"
    using assms(1) by (auto simp: make_glob_generator_def rmap_Inr_iff split: sum.splits)
  have "gs \<noteq> []" using assms(2,3) st by (auto simp: gens_yield_Nil)
  moreover have "gens_yield gs ys" using assms(2) st by simp
  ultimately have "glob_repr (gs_stack st) (gs_tokens st) (combos [] [] ys @ []) (frame_weight ys + 0)"
    unfolding st glob_state.simps by (intro repr_frame repr_empty)
  then show ?thesis by auto
qed

text \<open>
  C2. Enumeration: if each generator of a pattern has finitely many texts left, calling the
  closure always returns; the calls deliver every combination of the texts exactly once, the
  last generator varying fastest, with the tokens chosen for it, and from then on none.
\<close>

theorem glob_enumerates:
  assumes "make_glob_generator gparse pattern = Inr st"
    and "gens_yield (snd (hd (gs_stack st))) ys" and "ys \<noteq> []"
  shows "glob_calls (length (combos [] [] ys) + k) st =
    Some (map Some (combos [] [] ys) @ replicate k None)"
  using glob_start_repr [OF assms] glob_calls_repr by blast

subsection \<open>Numeric ranges\<close>

definition pad_left :: "nat \<Rightarrow> string \<Rightarrow> string" where
  "pad_left w s = replicate (w - length s) (CHR ''0'') @ s"

definition range_count :: "nat \<Rightarrow> nat \<Rightarrow> nat \<Rightarrow> nat" where
  "range_count low high step = (if low > high then 0 else (high - low) div step + 1)"

lemma range_count_step:
  assumes "low \<le> high" "0 < step"
  shows "range_count low high step = Suc (range_count (low + step) high step)"
proof (cases "low + step \<le> high")
  case True
  then obtain d where d: "high = low + step + d" using le_Suc_ex by blast
  have "(step + d) div step = Suc (d div step)" using assms(2) by (simp add: div_add_self1)
  then show ?thesis using assms unfolding d range_count_def by (simp add: add.assoc)
next
  case False
  then show ?thesis using assms by (simp add: range_count_def)
qed

lemma range_gen_some:
  assumes "low \<le> high"
  shows "gen_next (RangeGen w low high step) =
    (Some (pad_left (unat w) (show_nat (unat low))), RangeGen w (low + step) high step)"
  using assms by (simp add: range_gen_next_def Let_def pad_left_def)

lemma range_gen_yields:
  assumes "step \<noteq> 0" "unat high + unat step < 2 ^ 64"
  shows "gen_yields (RangeGen w low high step)
    (map (\<lambda>i. pad_left (unat w) (show_nat (unat low + i * unat step)))
       [0 ..< range_count (unat low) (unat high) (unat step)])"
proof (induction "range_count (unat low) (unat high) (unat step)" arbitrary: low)
  case 0
  then have "low > high" by (auto simp: range_count_def word_less_nat_alt split: if_splits)
  then show ?case using 0 by (auto simp: range_gen_next_def intro: yields_end)
next
  case (Suc n)
  have le: "low \<le> high" using Suc.hyps(2) by (auto simp: range_count_def word_le_nat_alt split: if_splits)
  have pos: "0 < unat step" using assms(1) by (simp add: unat_gt_0)
  have add: "unat (low + step) = unat low + unat step"
    using le assms(2) by (intro unat_add_lem [THEN iffD1]) (auto simp: word_le_nat_alt)
  have cnt: "range_count (unat low) (unat high) (unat step) =
      Suc (range_count (unat (low + step)) (unat high) (unat step))"
    using range_count_step [of "unat low" "unat high" "unat step"] le pos add
    by (simp add: word_le_nat_alt)
  have rec: "gen_yields (RangeGen w (low + step) high step)
    (map (\<lambda>i. pad_left (unat w) (show_nat (unat (low + step) + i * unat step)))
       [0 ..< range_count (unat (low + step)) (unat high) (unat step)])"
    using Suc.hyps cnt by (intro Suc.hyps(1)) simp
  have "map (\<lambda>i. pad_left (unat w) (show_nat (unat low + i * unat step)))
      [0 ..< range_count (unat low) (unat high) (unat step)] =
    pad_left (unat w) (show_nat (unat low)) #
    map (\<lambda>i. pad_left (unat w) (show_nat (unat (low + step) + i * unat step)))
      [0 ..< range_count (unat (low + step)) (unat high) (unat step)]"
    unfolding cnt by (simp add: upt_conv_Cons map_Suc_upt [symmetric] add algebra_simps comp_def del: upt_Suc map_Suc_upt)
  then show ?case using yields_step [OF range_gen_some [OF le] rec] by simp
qed

lemma range_gen_zero_step:
  assumes "gen_yields g xs" "g = RangeGen w low high 0" "low \<le> high" shows False
  using assms
proof (induction rule: gen_yields.induct)
  case (yields_end g g')
  then show ?case using range_gen_some [of low high w 0] by simp
next
  case (yields_step g s g' xs)
  then show ?case using range_gen_some [of low high w 0] by simp
qed

text \<open>
  A numeric range with a step counts as it reads: as long as the upper bound plus the
  step fits 64 bits, the generator delivers the numbers from the lower bound to the upper
  bound in steps, each padded with zeros to the width the lower bound was written with, and
  then ends.  A zero step between ordered bounds never ends.
\<close>

theorem range_gen_exact:
  "(step \<noteq> 0 \<and> unat high + unat step < 2 ^ 64 \<longrightarrow>
      gen_yields (RangeGen w low high step)
        (map (\<lambda>i. pad_left (unat w) (show_nat (unat low + i * unat step)))
           [0 ..< range_count (unat low) (unat high) (unat step)])) \<and>
   (low \<le> high \<longrightarrow> (\<nexists>xs. gen_yields (RangeGen w low high 0) xs))"
  using range_gen_yields range_gen_zero_step by blast

theorem range_gen_exact_witness:
  "gen_yields (RangeGen 2 8 10 1) [''08'', ''09'', ''10'']"
proof -
  have "gen_yields (RangeGen 2 8 10 1)
        (map (\<lambda>i. pad_left (unat (2 :: u8)) (show_nat (unat (8 :: u64) + i * unat (1 :: u64))))
           [0 ..< range_count (unat (8 :: u64)) (unat (10 :: u64)) (unat (1 :: u64))])"
    using range_gen_exact [of 1 10 2 8] by simp
  moreover have "map (\<lambda>i. pad_left (unat (2 :: u8)) (show_nat (unat (8 :: u64) + i * unat (1 :: u64))))
           [0 ..< range_count (unat (8 :: u64)) (unat (10 :: u64)) (unat (1 :: u64))] =
      [''08'', ''09'', ''10'']"
    by code_simp
  ultimately show ?thesis by simp
qed

lemma static_gen_yields: "gen_yields (StaticGen (Some s)) [s]"
  by (rule yields_step [of _ _ "StaticGen None"]) (auto simp: static_gen_next_def intro: yields_end)

lemma set_gen_yields: "i \<le> length items \<Longrightarrow> gen_yields (SetGen items i) (drop i items)"
proof (induction "length items - i" arbitrary: i)
  case 0
  then show ?case by (auto simp: set_gen_next_def intro: yields_end)
next
  case (Suc n)
  then have lt: "i < length items" by simp
  have rec: "gen_yields (SetGen items (i + 1)) (drop (i + 1) items)"
    using Suc lt by (intro Suc.hyps(1)) auto
  have "gen_next (SetGen items i) = (Some (items ! i), SetGen items (i + 1))"
    using lt by (simp add: set_gen_next_def)
  from yields_step [OF this rec] show ?case using lt by (simp add: Cons_nth_drop_Suc)
qed

theorem glob_enumerates_witness:
  "\<exists>st. make_glob_generator ref_gparse ''a[1-2]{x,y}'' = Inr st \<and>
     glob_calls (4 + 1) st =
       Some (map Some [\<lparr>gr_result = ''a1x'', gr_tokens = [''1'', ''x'']\<rparr>,
         \<lparr>gr_result = ''a1y'', gr_tokens = [''1'', ''y'']\<rparr>,
         \<lparr>gr_result = ''a2x'', gr_tokens = [''2'', ''x'']\<rparr>,
         \<lparr>gr_result = ''a2y'', gr_tokens = [''2'', ''y'']\<rparr>] @ replicate 1 None)"
proof -
  let ?st = "\<lparr>gs_stack = [([], [StaticGen (Some ''a''), RangeGen 1 1 2 1, SetGen [''x'', ''y''] 0])],
    gs_tokens = []\<rparr>"
  let ?ys = "[(True, [''a'']), (False, [''1'', ''2'']), (False, [''x'', ''y''])]"
  have st: "make_glob_generator ref_gparse ''a[1-2]{x,y}'' = Inr ?st"
    by (simp add: make_glob_generator_def ref_gparse_def glob_rule_def static_rule_def num_range_rule_def
        char_range_rule_def set_rule_def ref_range.simps unsigned_parse_def Let_def mk_tuple_def
        make_gen_def g_get_def stoull_digits is_digit_def is_alpha_def byte_def read_nat_def digit_val_def)
  have "map (\<lambda>i. pad_left (unat (1 :: u8)) (show_nat (unat (1 :: u64) + i * unat (1 :: u64))))
           [0 ..< range_count (unat (1 :: u64)) (unat (2 :: u64)) (unat (1 :: u64))] = [''1'', ''2'']"
    by code_simp
  then have "gen_yields (RangeGen 1 1 2 1) [''1'', ''2'']"
    using range_gen_yields [of 1 2 1 1] by simp
  then have "gens_yield (snd (hd (gs_stack ?st))) ?ys"
    using static_gen_yields [of "''a''"] set_gen_yields [of 0 "[''x'', ''y'']"] by (simp add: gens_yield_def)
  from glob_enumerates [OF st this, of 1] st show ?thesis by (simp add: eval_nat_numeral)
qed

subsection \<open>Interpolation by reading the format\<close>

text \<open>A hash sign and a number stand for the token with that number, counted from one, and
  for themselves when there is none; everything else is copied.\<close>

function interp_spec :: "string list \<Rightarrow> string \<Rightarrow> exn + string" where
  "interp_spec tokens s =
     (if s = [] then Inr []
      else if hd s \<noteq> CHR ''#'' then rmap (\<lambda>t. hd s # t) (interp_spec tokens (tl s))
      else
        let ds = takeWhile is_digit (tl s); n = read_nat ds in
        if ds = [] then rmap (\<lambda>t. CHR ''#'' # t) (interp_spec tokens (tl s))
        else if n \<ge> 2 ^ 64 then Inl (out_of_range ''stoull'')
        else rmap (\<lambda>t. (if 1 \<le> n \<and> n \<le> length tokens then tokens ! (n - 1) else CHR ''#'' # ds) @ t)
               (interp_spec tokens (dropWhile is_digit (tl s))))"
  by pat_completeness auto
termination
proof (relation "measure (\<lambda>(tokens, s). length s)")
  fix tokens :: "string list" and s :: string
  assume "s \<noteq> []"
  then show "((tokens, dropWhile is_digit (tl s)), tokens, s) \<in> measure (\<lambda>(tokens, s). length s)"
    by (cases s) (auto intro: le_imp_less_Suc length_dropWhile_le)
qed auto

declare interp_spec.simps [simp del]

lemma interp_spec_literal:
  "CHR ''#'' \<notin> set w \<Longrightarrow> interp_spec tokens (w @ s) = rmap (\<lambda>t. w @ t) (interp_spec tokens s)"
proof (induction w)
  case (Cons c w)
  then have "interp_spec tokens ((c # w) @ s) = rmap (\<lambda>t. c # t) (interp_spec tokens (w @ s))"
    by (subst interp_spec.simps) auto
  then show ?case using Cons by (simp add: comp_def)
qed (cases "interp_spec tokens s", auto)

lemma interpolate_loop_acc:
  "interpolate_loop tokens vs rs = rmap (\<lambda>t. rs @ t) (interpolate_loop tokens vs [])"
proof (induction vs arbitrary: rs)
  case (Cons v vs)
  show ?case
  proof (cases "interpolate_piece tokens v")
    case (Inr s)
    have "interpolate_loop tokens vs (rs @ s) = rmap (\<lambda>t. (rs @ s) @ t) (interpolate_loop tokens vs [])"
      by (rule Cons.IH)
    moreover have "interpolate_loop tokens vs s = rmap (\<lambda>t. s @ t) (interpolate_loop tokens vs [])"
      by (rule Cons.IH)
    ultimately show ?thesis using Inr by (simp add: comp_def)
  qed simp
qed simp

text \<open>Subtracting one from the parsed number wraps around at zero, which no token count
  reaches.\<close>

lemma token_index:
  assumes "n < 2 ^ 64" "length (tokens :: string list) < 2 ^ 64"
  shows "(let index = (of_nat n :: u64) - 1 in
      if unat index < length tokens then tokens ! unat index else r) =
    (if 1 \<le> n \<and> n \<le> length tokens then tokens ! (n - 1) else r)"
proof (cases n)
  case 0
  have "unat (- 1 :: u64) = 2 ^ 64 - 1" by (simp add: unsigned_minus_1_eq_mask mask_eq_exp_minus_1)
  then show ?thesis using 0 assms(2) by (simp add: Let_def)
next
  case (Suc m)
  then have "unat ((of_nat n :: u64) - 1) = m"
    using assms(1) by (simp add: unsigned_of_nat take_bit_nat_eq_self)
  then show ?thesis using Suc by (simp add: Let_def Suc_le_eq)
qed

abbreviation piece_rule :: grule where
  "piece_rule \<equiv> variant_rule
       [token_rule (cs_diff all_chars (lut_chars ''#'')),
        tuple_rule [squelch (delim_char (CHR ''#'')), token_rule digit_chars],
        tuple_rule [squelch (delim_char (CHR ''#''))]]"

lemma cs_not_hash: "cs_mem (cs_diff all_chars (lut_chars ''#'')) = (\<lambda>c. c \<noteq> CHR ''#'')"
  by (simp add: fun_eq_iff)

lemma cs_digits: "cs_mem digit_chars = is_digit"
  by (simp add: fun_eq_iff)

context url_grammar
begin

lemma piece_rule_cases:
  "rparse piece_rule s =
     (if s = [] then Inl err_mismatch
      else if hd s \<noteq> CHR ''#'' then
        Inr (GAlt 0 (GStr (takeWhile (\<lambda>c. c \<noteq> CHR ''#'') s)), dropWhile (\<lambda>c. c \<noteq> CHR ''#'') s)
      else if takeWhile is_digit (tl s) \<noteq> [] then
        Inr (GAlt 1 (GStr (takeWhile is_digit (tl s))), dropWhile is_digit (tl s))
      else Inr (GAlt 2 (GTuple []), tl s))"
  by (cases s; cases "tl s")
     (auto simp: variants token tupled squelched delim mk_tuple_def cs_not_hash cs_digits)

lemma piece_rule_progress:
  assumes "rparse piece_rule s = Inr (v, t)"
  shows "length t < length s"
proof -
  obtain c u where s: "s = c # u" using assms by (cases s) (auto simp: piece_rule_cases)
  have "length (dropWhile P u) < length s" for P
    unfolding s by (simp add: le_imp_less_Suc length_dropWhile_le)
  then show ?thesis
    using assms unfolding piece_rule_cases s by (auto split: if_splits)
qed

lemma piece_spec:
  assumes vt: "rparse piece_rule s = Inr (v, t)" and ne: "s \<noteq> []"
    and len: "length (tokens :: string list) < 2 ^ 64"
  shows "rbind (interpolate_piece tokens v) (\<lambda>w. rmap (\<lambda>u. w @ u) (interp_spec tokens t)) =
    interp_spec tokens s"
proof (cases "hd s = CHR ''#''")
  case False
  let ?w = "takeWhile (\<lambda>c. c \<noteq> CHR ''#'') s"
  have "v = GAlt 0 (GStr ?w)" "t = dropWhile (\<lambda>c. c \<noteq> CHR ''#'') s"
    using vt ne False by (auto simp: piece_rule_cases)
  moreover have "CHR ''#'' \<notin> set ?w" by (auto dest: set_takeWhileD)
  ultimately show ?thesis
    using interp_spec_literal [of ?w tokens t] by (simp add: interpolate_piece_def)
next
  case hash: True
  let ?ds = "takeWhile is_digit (tl s)"
  show ?thesis
  proof (cases "?ds = []")
    case True
    then have "v = GAlt 2 (GTuple [])" "t = tl s" using vt ne hash by (auto simp: piece_rule_cases)
    then show ?thesis
      using True ne hash
      by (cases "interp_spec tokens (tl s)") (simp_all add: interpolate_piece_def interp_spec.simps [of tokens s])
  next
    case False
    then have v: "v = GAlt 1 (GStr ?ds)" and t: "t = dropWhile is_digit (tl s)"
      using vt ne hash by (auto simp: piece_rule_cases)
    have "list_all is_digit ?ds" by (auto simp: list_all_iff dest: set_takeWhileD)
    note st = stoull_digits [OF False this]
    show ?thesis
    proof (cases "read_nat ?ds < 2 ^ 64")
      case True
      then have p: "interpolate_piece tokens v = Inr (if 1 \<le> read_nat ?ds \<and> read_nat ?ds \<le> length tokens
          then tokens ! (read_nat ?ds - 1) else CHR ''#'' # ?ds)"
        using token_index [OF True len, of "CHR ''#'' # ?ds"] unfolding v interpolate_piece_def
        by (simp only: st g_index.simps g_alt.simps g_str.simps if_True rmap.simps) simp
      show ?thesis
        unfolding p t rbind.simps
        by (subst interp_spec.simps [of tokens s]) (use ne hash False True in \<open>simp add: Let_def\<close>)
    next
      case big: False
      then have "interpolate_piece tokens v = Inl (out_of_range ''stoull'')"
        unfolding v by (simp add: interpolate_piece_def st)
      then show ?thesis
        using ne hash False big by (simp add: interp_spec.simps [of tokens s] Let_def)
    qed
  qed
qed

lemma piece_rule_parse:
  "length (tokens :: string list) < 2 ^ 64 \<Longrightarrow>
   \<exists>vs. rparse (range_rule piece_rule) s = Inr (GRange vs, []) \<and>
     interpolate_loop tokens vs [] = interp_spec tokens s"
proof (induction "length s" arbitrary: s rule: less_induct)
  case less
  show ?case
  proof (cases "s = []")
    case True
    then show ?thesis using range_end [of piece_rule s err_mismatch]
      by (simp add: piece_rule_cases interp_spec.simps)
  next
    case False
    then have "\<exists>v t. rparse piece_rule s = Inr (v, t)" by (simp add: piece_rule_cases)
    then obtain v t where vt: "rparse piece_rule s = Inr (v, t)" by blast
    have lt: "length t < length s"
      by (rule piece_rule_progress [OF vt])
    obtain vs where vs: "rparse (range_rule piece_rule) t = Inr (GRange vs, [])"
        "interpolate_loop tokens vs [] = interp_spec tokens t"
      using less.hyps [OF lt less.prems] by blast
    have "rbind (interpolate_piece tokens v) (\<lambda>w. rmap (\<lambda>u. w @ u) (interp_spec tokens t)) = interp_spec tokens s"
      by (rule piece_spec [OF vt False less.prems])
    then have "interpolate_loop tokens (v # vs) [] = interp_spec tokens s"
      by (simp add: vs(2) interpolate_loop_acc [of tokens vs w for w, unfolded vs(2)])
    moreover have "rparse (range_rule piece_rule) s = Inr (GRange (v # vs), [])"
      using range_step [OF vt lt] vs(1) by simp
    ultimately show ?thesis by blast
  qed
qed

end

text \<open>
  Output names: over a Boost.URL that parses as documented, interpolation never rejects
  a format; it replaces every \<^verbatim>\<open>#n\<close> that numbers one of the chosen tokens by that token, copies
  everything else, \<^verbatim>\<open>#0\<close> and numbers beyond the last token included, and throws only on a
  number that does not fit 64 bits.
\<close>

theorem interpolate_spec:
  assumes "url_grammar gparse rparse" and "length tokens < 2 ^ 64"
  shows "interpolate gparse tokens format = interp_spec tokens format"
proof -
  obtain vs where "rparse interpolate_rule format = Inr (GRange vs, [])"
    "interpolate_loop tokens vs [] = interp_spec tokens format"
    using url_grammar.piece_rule_parse [OF assms, of format] unfolding interpolate_rule_def by blast
  then show ?thesis
    by (simp add: interpolate_def url_grammar.parse_all [OF assms(1)])
qed

theorem interpolate_spec_witness:
  "length [''x'', ''y''] < 2 ^ 64 \<and>
   interpolate ref_gparse [''x'', ''y''] ''a#2.#0#'' = interp_spec [''x'', ''y''] ''a#2.#0#''"
  using interpolate_spec [OF ref.url_grammar_axioms, of "[''x'', ''y'']" "''a#2.#0#''"] by simp

end
