(* ===== verification/Base64.thy ===== *)
theory Base64
  imports Prelude
begin

text \<open>
  The Base64 encoder of the burl client (\<^verbatim>\<open>base64.cpp\<close>), which writes the credentials of a
  request: the table, the loop over groups of three and the padded tail, with the bit
  operations of the source on sign-extended characters; the arithmetic description of RFC
  4648 and a decoder to compare it with.
\<close>

unbundle bit_operations_syntax

definition b64_tab :: string where
  "b64_tab = ''ABCDEFGHIJKLMNOP'' @ ''QRSTUVWXYZabcdef'' @ ''ghijklmnopqrstuv'' @ ''wxyz0123456789+/''"

definition tab_at :: "int \<Rightarrow> char" where
  "tab_at i = b64_tab ! nat i"

text \<open>\<^verbatim>\<open>in[i]\<close>, promoted to \<^verbatim>\<open>int\<close>.\<close>

definition in_at :: "string \<Rightarrow> nat \<Rightarrow> int" where
  "in_at inp i = schar (inp ! i)"

fun b64_loop :: "nat \<Rightarrow> string \<Rightarrow> string \<Rightarrow> string \<times> string" where
  "b64_loop 0 dest inp = (dest, inp)"
| "b64_loop (Suc n) dest inp =
     b64_loop n
       (dest @
        [tab_at (drop_bit 2 (in_at inp 0 AND 0xfc)),
         tab_at (push_bit 4 (in_at inp 0 AND 0x03) + drop_bit 4 (in_at inp 1 AND 0xf0)),
         tab_at (drop_bit 6 (in_at inp 2 AND 0xc0) + push_bit 2 (in_at inp 1 AND 0x0f)),
         tab_at (in_at inp 2 AND 0x3f)])
       (drop 3 inp)"

definition base64_encode :: "string \<Rightarrow> string \<Rightarrow> string" where
  "base64_encode dest src =
     (case b64_loop (length src div 3) dest src of
        (dest1, inp) \<Rightarrow>
          if length src mod 3 = 2 then
            dest1 @
            [tab_at (drop_bit 2 (in_at inp 0 AND 0xfc)),
             tab_at (push_bit 4 (in_at inp 0 AND 0x03) + drop_bit 4 (in_at inp 1 AND 0xf0)),
             tab_at (push_bit 2 (in_at inp 1 AND 0x0f)),
             CHR ''='']
          else if length src mod 3 = 1 then
            dest1 @
            [tab_at (drop_bit 2 (in_at inp 0 AND 0xfc)),
             tab_at (push_bit 4 (in_at inp 0 AND 0x03)),
             CHR ''='',
             CHR ''='']
          else dest1)"

subsection \<open>RFC 4648\<close>

text \<open>A group of three octets is a 24-bit number, written as four digits to base 64; a short
  last group is filled with zero bits and padded.\<close>

text \<open>The alphabet of the standard (its table 1), by ranges of code points: the capital letters, the
  small letters, the digits, plus and slash.\<close>

definition rfc4648_char :: "int \<Rightarrow> char" where
  "rfc4648_char v =
     (if v < 26 then char_of (nat (65 + v))
      else if v < 52 then char_of (nat (97 + (v - 26)))
      else if v < 62 then char_of (nat (48 + (v - 52)))
      else if v = 62 then CHR ''+'' else CHR ''/'')"

definition b64_digit :: "int \<Rightarrow> nat \<Rightarrow> char" where
  "b64_digit n k = rfc4648_char (n div 64 ^ k mod 64)"

fun b64_spec :: "string \<Rightarrow> string" where
  "b64_spec [] = []"
| "b64_spec [a] =
     (let n = byte a * 65536 in [b64_digit n 3, b64_digit n 2, CHR ''='', CHR ''=''])"
| "b64_spec [a, b] =
     (let n = byte a * 65536 + byte b * 256 in [b64_digit n 3, b64_digit n 2, b64_digit n 1, CHR ''=''])"
| "b64_spec (a # b # c # s) =
     (let n = byte a * 65536 + byte b * 256 + byte c in
      [b64_digit n 3, b64_digit n 2, b64_digit n 1, b64_digit n 0] @ b64_spec s)"

text \<open>A decoder that refuses what is not canonical.\<close>

definition b64_value :: "char \<Rightarrow> int option" where
  "b64_value c = map_option int (find_char c b64_tab)"

definition byte_char :: "int \<Rightarrow> char" where
  "byte_char n = char_of (nat n)"

fun b64_decode :: "string \<Rightarrow> string option" where
  "b64_decode [] = Some []"
| "b64_decode (w # x # y # z # s) =
     (case (b64_value w, b64_value x) of
        (Some i, Some j) \<Rightarrow>
          (if y = CHR ''='' then
             if z = CHR ''='' \<and> s = [] then Some [byte_char (i * 4 + j div 16)] else None
           else
             (case b64_value y of
                None \<Rightarrow> None
              | Some k \<Rightarrow>
                  if z = CHR ''='' then
                    if s = [] then Some [byte_char (i * 4 + j div 16), byte_char (j mod 16 * 16 + k div 4)]
                    else None
                  else
                    (case b64_value z of
                       None \<Rightarrow> None
                     | Some l \<Rightarrow>
                         map_option (\<lambda>r. byte_char (i * 4 + j div 16) #
                             byte_char (j mod 16 * 16 + k div 4) # byte_char (k mod 4 * 64 + l) # r)
                           (b64_decode s))))
      | _ \<Rightarrow> None)"
| "b64_decode _ = None"

subsection \<open>Masks and shifts as division\<close>

lemma mask_and:
  "x AND 0x3f = x mod (64 :: int)" "x AND 0x0f = x mod (16 :: int)" "x AND 0x03 = x mod (4 :: int)"
  using take_bit_eq_mask [of 6 x] take_bit_eq_mask [of 4 x] take_bit_eq_mask [of 2 x]
  by (simp_all add: mask_eq_exp_minus_1 take_bit_eq_mod)

lemma shift_and:
  "drop_bit 2 (x AND 0xfc) = x div 4 mod (64 :: int)"
  "drop_bit 4 (x AND 0xf0) = x div 16 mod (16 :: int)"
  "drop_bit 6 (x AND 0xc0) = x div 64 mod (4 :: int)"
proof -
  have "drop_bit 2 (x AND 0xfc) = drop_bit 2 x AND 0x3f" by (subst drop_bit_and) simp
  then show "drop_bit 2 (x AND 0xfc) = x div 4 mod 64" by (simp only: mask_and) (simp add: drop_bit_eq_div)
  have "drop_bit 4 (x AND 0xf0) = drop_bit 4 x AND 0x0f" by (subst drop_bit_and) simp
  then show "drop_bit 4 (x AND 0xf0) = x div 16 mod 16" by (simp only: mask_and) (simp add: drop_bit_eq_div)
  have "drop_bit 6 (x AND 0xc0) = drop_bit 6 x AND 0x03" by (subst drop_bit_and) simp
  then show "drop_bit 6 (x AND 0xc0) = x div 64 mod 4" by (simp only: mask_and) (simp add: drop_bit_eq_div)
qed

lemma schar_cases: "schar c = byte c \<or> schar c = byte c - 256"
  by (auto simp: schar_def)

lemma schar_mod: "m dvd 256 \<Longrightarrow> schar c mod m = byte c mod m"
proof (elim dvdE)
  fix k assume "256 = m * k"
  then have "byte c - 256 = byte c + m * (- k)" by simp
  then have "(byte c - 256) mod m = byte c mod m" by (simp only: mod_mult_self2)
  then show ?thesis using schar_cases [of c] by auto
qed

lemma schar_div:
  assumes "d * m = 256" "0 < d" "0 < m"
  shows "schar c div d mod m = byte c div d"
proof -
  have "byte c div d < m"
    using byte_range(2) [of c] assms by (intro int_div_less) (simp_all add: mult.commute)
  moreover have "0 \<le> byte c div d" using byte_range(1) assms(2) by (simp add: pos_imp_zdiv_nonneg_iff)
  ultimately have r: "byte c div d mod m = byte c div d" by simp
  have "(byte c - 256) div d = (byte c + (- m) * d) div d" using assms(1) by (simp add: mult.commute)
  also have "\<dots> = byte c div d - m" using assms(2) by (simp only: div_mult_self1)
  finally have "(byte c - 256) div d mod m = byte c div d mod m" by simp
  then show ?thesis using schar_cases [of c] r by auto
qed

lemma schar_masks:
  "drop_bit 2 (schar c AND 0xfc) = byte c div 4"
  "push_bit 4 (schar c AND 0x03) = byte c mod 4 * 16"
  "drop_bit 4 (schar c AND 0xf0) = byte c div 16"
  "push_bit 2 (schar c AND 0x0f) = byte c mod 16 * 4"
  "drop_bit 6 (schar c AND 0xc0) = byte c div 64"
  "schar c AND 0x3f = byte c mod 64"
proof -
  show "drop_bit 2 (schar c AND 0xfc) = byte c div 4" unfolding shift_and by (rule schar_div) simp_all
  show "drop_bit 4 (schar c AND 0xf0) = byte c div 16" unfolding shift_and by (rule schar_div) simp_all
  show "drop_bit 6 (schar c AND 0xc0) = byte c div 64" unfolding shift_and by (rule schar_div) simp_all
  show "schar c AND 0x3f = byte c mod 64" unfolding mask_and by (rule schar_mod) simp
  show "push_bit 4 (schar c AND 0x03) = byte c mod 4 * 16"
    unfolding mask_and push_bit_eq_mult by (simp add: schar_mod)
  show "push_bit 2 (schar c AND 0x0f) = byte c mod 16 * 4"
    unfolding mask_and push_bit_eq_mult by (simp add: schar_mod)
qed

lemmas in_at_masks = schar_masks [of "inp ! i" for inp i, folded in_at_def]

subsection \<open>The encoder follows the standard\<close>

lemma div_mod_parts:
  assumes "0 \<le> r" "r < (d :: int)"
  shows "(x * d + r) div d = x" "(x * d + r) mod d = r"
  using assms by auto

lemma digit_parts:
  fixes q s u t v w :: int
  assumes "0 \<le> q" "q < 64" "0 \<le> s" "s < 4" "0 \<le> u" "u < 16" "0 \<le> t" "t < 16"
    "0 \<le> v" "v < 4" "0 \<le> w" "w < 64"
  defines "n \<equiv> (q * 4 + s) * 65536 + (u * 16 + t) * 256 + (v * 64 + w)"
  shows "n div 262144 mod 64 = q" "n div 4096 mod 64 = s * 16 + u"
    "n div 64 mod 64 = v + t * 4" "n mod 64 = w"
proof -
  have n3: "n = q * 262144 + (s * 65536 + u * 4096 + t * 256 + v * 64 + w)"
    and n2: "n = (q * 64 + (s * 16 + u)) * 4096 + (t * 256 + v * 64 + w)"
    and n1: "n = ((q * 64 + s * 16 + u) * 64 + (v + t * 4)) * 64 + w"
    unfolding n_def by simp_all
  have "n div 262144 = q"
    unfolding n3 by (rule div_mod_parts) (use assms(3-12) in linarith)+
  then show "n div 262144 mod 64 = q" using assms(1,2) by simp
  have d2: "n div 4096 = q * 64 + (s * 16 + u)"
    unfolding n2 by (rule div_mod_parts) (use assms(7-12) in linarith)+
  show "n div 4096 mod 64 = s * 16 + u"
    unfolding d2 by (rule div_mod_parts) (use assms(3-6) in linarith)+
  have d1: "n div 64 = (q * 64 + s * 16 + u) * 64 + (v + t * 4)"
    unfolding n1 by (rule div_mod_parts) (use assms(11,12) in linarith)+
  show "n div 64 mod 64 = v + t * 4"
    unfolding d1 by (rule div_mod_parts) (use assms(7-10) in linarith)+
  show "n mod 64 = w" unfolding n1 by (rule div_mod_parts) (use assms(11,12) in linarith)+
qed

lemma byte_parts:
  "0 \<le> byte a div 4" "byte a div 4 < 64" "0 \<le> byte a mod 4" "byte a mod 4 < 4"
  "0 \<le> byte a div 16" "byte a div 16 < 16" "0 \<le> byte a mod 16" "byte a mod 16 < 16"
  "0 \<le> byte a div 64" "byte a div 64 < 4" "0 \<le> byte a mod 64" "byte a mod 64 < 64"
  using byte_range [of a] by (simp_all add: pos_imp_zdiv_nonneg_iff int_div_less)

lemma digit_arith:
  "(byte a * 65536 + byte b * 256 + byte c) div 262144 mod 64 = byte a div 4"
  "(byte a * 65536 + byte b * 256 + byte c) div 4096 mod 64 = byte a mod 4 * 16 + byte b div 16"
  "(byte a * 65536 + byte b * 256 + byte c) div 64 mod 64 = byte c div 64 + byte b mod 16 * 4"
  "(byte a * 65536 + byte b * 256 + byte c) mod 64 = byte c mod 64"
  using digit_parts [OF byte_parts(1-4) [of a] byte_parts(5-8) [of b] byte_parts(9-12) [of c]]
  unfolding div_mult_mod_eq by blast+

text \<open>The table of the source is that alphabet.\<close>

lemma b64_tab_rfc4648: "b64_tab = map rfc4648_char [0..63]"
  by code_simp

lemma tab_at_rfc4648: "0 \<le> v \<Longrightarrow> v < 64 \<Longrightarrow> rfc4648_char v = tab_at v"
  by (simp add: tab_at_def b64_tab_rfc4648)

lemma b64_digit_tab: "b64_digit n k = tab_at (n div 64 ^ k mod 64)"
  by (simp add: b64_digit_def tab_at_rfc4648)

lemma digits_of_group:
  "[b64_digit (byte a * 65536 + byte b * 256 + byte c) 3, b64_digit (byte a * 65536 + byte b * 256 + byte c) 2,
    b64_digit (byte a * 65536 + byte b * 256 + byte c) 1, b64_digit (byte a * 65536 + byte b * 256 + byte c) 0] =
     [tab_at (byte a div 4), tab_at (byte a mod 4 * 16 + byte b div 16),
      tab_at (byte c div 64 + byte b mod 16 * 4), tab_at (byte c mod 64)]"
proof -
  have p: "(64 :: int) ^ 3 = 262144" "(64 :: int) ^ 2 = 4096" "(64 :: int) ^ 1 = 64" "(64 :: int) ^ 0 = 1"
    by simp_all
  show ?thesis
    unfolding b64_digit_tab p div_by_1 digit_arith
    by (rule refl)
qed

lemma b64_loop_spec:
  "b64_loop (length s div 3) dest s = (dest1, rest) \<Longrightarrow>
     length rest = length s mod 3 \<and> dest1 @ b64_spec rest = dest @ b64_spec s"
proof (induction s arbitrary: dest rule: b64_spec.induct)
  case (4 a b c s)
  have len: "length (a # b # c # s) = length s + 3" by simp
  have n: "length (a # b # c # s) div 3 = Suc (length s div 3)"
    and m: "length (a # b # c # s) mod 3 = length s mod 3"
    unfolding len by simp_all
  let ?g = "[tab_at (byte a div 4), tab_at (byte a mod 4 * 16 + byte b div 16),
      tab_at (byte c div 64 + byte b mod 16 * 4), tab_at (byte c mod 64)]"
  have "b64_loop (length s div 3) (dest @ ?g) s = (dest1, rest)"
    using "4.prems" unfolding n b64_loop.simps in_at_masks by simp
  from "4.IH" [OF refl this] have "length rest = length s mod 3"
    "dest1 @ b64_spec rest = dest @ ?g @ b64_spec s" by simp_all
  then show ?case unfolding m using digits_of_group [of a b c] by (simp add: Let_def)
qed auto

lemma tail_digits:
  "b64_spec [a, b] = [tab_at (byte a div 4), tab_at (byte a mod 4 * 16 + byte b div 16),
      tab_at (byte b mod 16 * 4), CHR ''='']"
  "b64_spec [a] = [tab_at (byte a div 4), tab_at (byte a mod 4 * 16), CHR ''='', CHR ''='']"
proof -
  have z: "byte (CHR 0x00) = 0" by (simp add: byte_def)
  show "b64_spec [a, b] = [tab_at (byte a div 4), tab_at (byte a mod 4 * 16 + byte b div 16),
      tab_at (byte b mod 16 * 4), CHR ''='']"
    using digits_of_group [of a b "CHR 0x00"] by (simp add: z Let_def)
  show "b64_spec [a] = [tab_at (byte a div 4), tab_at (byte a mod 4 * 16), CHR ''='', CHR ''='']"
    using digits_of_group [of a "CHR 0x00" "CHR 0x00"] by (simp add: z Let_def)
qed

lemma base64_encode_eq: "base64_encode dest src = dest @ b64_spec src"
proof -
  obtain dest1 rest where l: "b64_loop (length src div 3) dest src = (dest1, rest)"
    by (cases "b64_loop (length src div 3) dest src")
  note r = b64_loop_spec [OF l]
  show ?thesis
  proof (cases rest rule: b64_spec.cases)
    case 1 then show ?thesis using r l by (simp add: base64_encode_def)
  next
    case (2 a)
    then show ?thesis
      using r l unfolding base64_encode_def in_at_masks by (simp add: tail_digits(2) del: b64_spec.simps)
  next
    case (3 a b)
    then show ?thesis
      using r l unfolding base64_encode_def in_at_masks by (simp add: tail_digits(1) del: b64_spec.simps)
  next
    case (4 a b c s)
    have "length rest < 3" using r by simp
    then show ?thesis using 4 by simp
  qed
qed

text \<open>
  C22. The encoder writes what RFC 4648 prescribes: each group of three octets as the four
  base-64 digits of its 24-bit value, a short last group padded, appended to what the string
  held before; octets above 127, which \<^verbatim>\<open>char\<close> holds as negative numbers, included.
\<close>

theorem base64_encode_rfc4648: "base64_encode dest src = dest @ b64_spec src"
  by (rule base64_encode_eq)

lemma b64_tab_distinct: "distinct b64_tab" "length b64_tab = 64"
  by (simp_all add: b64_tab_def)

lemma find_char_nth: "distinct s \<Longrightarrow> i < length s \<Longrightarrow> find_char (s ! i) s = Some i"
proof (induction s arbitrary: i)
  case (Cons x s)
  then show ?case by (cases i) auto
qed simp

lemma b64_value_tab: "0 \<le> i \<Longrightarrow> i < 64 \<Longrightarrow> b64_value (tab_at i) = Some i"
  using find_char_nth [OF b64_tab_distinct(1), of "nat i"] b64_tab_distinct(2)
  by (simp add: b64_value_def tab_at_def)

lemma tab_not_pad: "0 \<le> i \<Longrightarrow> i < 64 \<Longrightarrow> tab_at i \<noteq> CHR ''=''"
  using b64_value_tab [of i] by (auto simp: b64_value_def b64_tab_def)

lemma byte_char_byte: "byte_char (byte c) = c"
  by (simp add: byte_char_def byte_def)

lemma digit_ranges:
  "0 \<le> byte a div 4" "byte a div 4 < 64" "0 \<le> byte a mod 4 * 16 + byte b div 16"
  "byte a mod 4 * 16 + byte b div 16 < 64" "0 \<le> byte c div 64 + byte b mod 16 * 4"
  "byte c div 64 + byte b mod 16 * 4 < 64" "0 \<le> byte c mod 64" "byte c mod 64 < 64"
proof -
  have "0 \<le> s * 16 + u \<and> s * 16 + u < 64" if "0 \<le> s" "s < 4" "0 \<le> u" "u < 16" for s u :: int
    using that by linarith
  from this [OF byte_parts(3,4) [of a] byte_parts(5,6) [of b]]
  show "0 \<le> byte a mod 4 * 16 + byte b div 16" "byte a mod 4 * 16 + byte b div 16 < 64" by blast+
  have "0 \<le> v + t * 4 \<and> v + t * 4 < 64" if "0 \<le> v" "v < 4" "0 \<le> t" "t < 16" for v t :: int
    using that by linarith
  from this [OF byte_parts(9,10) [of c] byte_parts(7,8) [of b]]
  show "0 \<le> byte c div 64 + byte b mod 16 * 4" "byte c div 64 + byte b mod 16 * 4 < 64" by blast+
qed (rule byte_parts)+

lemma undo_digits:
  "byte a div 4 * 4 + (byte a mod 4 * 16 + byte b div 16) div 16 = byte a"
  "(byte a mod 4 * 16 + byte b div 16) mod 16 * 16 + (byte c div 64 + byte b mod 16 * 4) div 4 = byte b"
  "(byte c div 64 + byte b mod 16 * 4) mod 4 * 64 + byte c mod 64 = byte c"
proof -
  note p = div_mod_parts [OF byte_parts(5,6) [of b], of "byte a mod 4"] div_mod_parts [OF byte_parts(9,10) [of c], of "byte b mod 16"]
  have c: "byte c div 64 + byte b mod 16 * 4 = byte b mod 16 * 4 + byte c div 64" by simp
  show "byte a div 4 * 4 + (byte a mod 4 * 16 + byte b div 16) div 16 = byte a"
    unfolding p by (rule div_mult_mod_eq)
  show "(byte a mod 4 * 16 + byte b div 16) mod 16 * 16 + (byte c div 64 + byte b mod 16 * 4) div 4 = byte b"
    unfolding c p by (rule div_mult_mod_eq)
  show "(byte c div 64 + byte b mod 16 * 4) mod 4 * 64 + byte c mod 64 = byte c"
    unfolding c p by (rule div_mult_mod_eq)
qed

lemma b64_decode_group:
  assumes "0 \<le> i" "i < 64" "0 \<le> j" "j < 64" "0 \<le> k" "k < 64" "0 \<le> l" "l < 64"
  shows "b64_decode ([tab_at i, tab_at j, tab_at k, tab_at l] @ s) =
    map_option (\<lambda>r. byte_char (i * 4 + j div 16) # byte_char (j mod 16 * 16 + k div 4) #
      byte_char (k mod 4 * 64 + l) # r) (b64_decode s)"
  using assms by (simp add: b64_value_tab tab_not_pad)

lemma b64_decode_tails:
  assumes "0 \<le> i" "i < 64" "0 \<le> j" "j < 64" "0 \<le> k" "k < 64"
  shows "b64_decode [tab_at i, tab_at j, tab_at k, CHR ''=''] =
      Some [byte_char (i * 4 + j div 16), byte_char (j mod 16 * 16 + k div 4)]"
    "b64_decode [tab_at i, tab_at j, CHR ''='', CHR ''=''] = Some [byte_char (i * 4 + j div 16)]"
  using assms by (simp_all add: b64_value_tab tab_not_pad)

lemma b64_decode_spec: "b64_decode (b64_spec s) = Some s"
proof (induction s rule: b64_spec.induct)
  case (2 a)
  have e: "b64_spec [a] = [tab_at (byte a div 4), tab_at (byte a mod 4 * 16 + byte (CHR 0x00) div 16),
      CHR ''='', CHR ''='']"
    unfolding tail_digits(2) by (simp add: byte_def)
  show ?case
    unfolding e b64_decode_tails(2) [OF digit_ranges(1-4) digit_ranges(1,2)] undo_digits byte_char_byte
    by (rule refl)
next
  case (3 a b)
  have e: "b64_spec [a, b] = [tab_at (byte a div 4), tab_at (byte a mod 4 * 16 + byte b div 16),
      tab_at (byte (CHR 0x00) div 64 + byte b mod 16 * 4), CHR ''='']"
    unfolding tail_digits(1) by (simp add: byte_def)
  show ?case
    unfolding e b64_decode_tails(1) [OF digit_ranges(1-6)] undo_digits byte_char_byte by (rule refl)
next
  case (4 a b c s)
  have e: "b64_spec (a # b # c # s) = [tab_at (byte a div 4), tab_at (byte a mod 4 * 16 + byte b div 16),
      tab_at (byte c div 64 + byte b mod 16 * 4), tab_at (byte c mod 64)] @ b64_spec s"
    using digits_of_group [of a b c] by (simp add: Let_def)
  show ?case
    unfolding e b64_decode_group [OF digit_ranges] undo_digits byte_char_byte "4.IH" [OF refl] by simp
qed simp

text \<open>
  Base64 loses nothing: decoding what the encoder wrote for any byte string gives the
  string back.
\<close>

theorem base64_roundtrip: "b64_decode (base64_encode [] src) = Some src"
  by (simp add: base64_encode_eq b64_decode_spec)

end
