(* ===== verification/Utils.thy ===== *)
theory Utils
  imports Url_Grammar Url_View
begin

text \<open>
  The text utilities of the burl client (\<^verbatim>\<open>utils.cpp\<close>, \<^verbatim>\<open>mime_type.cpp\<close>): the quoted string of a
  header field, the file name of a \<^verbatim>\<open>Content-Disposition\<close> field, the guess of a missing URL
  scheme and the content type of a file name.  The scanner of quoted strings reads past the
  end of its input in some cases; its model says which, and the functions that run it inside
  the grammar take a rule \<open>q\<close> that agrees with it wherever it has a meaning.
\<close>

definition attr_char :: "char \<Rightarrow> bool" where
  "attr_char c \<longleftrightarrow> is_alpha c \<or> is_digit c \<or> c \<in> set ''!#$&+-.^_`|~''"

definition value_char :: "char \<Rightarrow> bool" where
  "value_char c \<longleftrightarrow> attr_char c \<or> c = CHR ''%''"

subsection \<open>Quoted strings\<close>

text \<open>The scanning loop, from the first character after the opening quote.  It stops at the
  end or at a quote; a backslash skips the character after it, which can carry the position
  beyond the end.\<close>

fun quoted_scan :: "string \<Rightarrow> (string \<times> string) option" where
  "quoted_scan [] = Some ([], [])"
| "quoted_scan (c # s) =
     (if c = CHR 0x22 then Some ([], c # s)
      else if c = CHR 0x5C then
        (case s of
           [] \<Rightarrow> None
         | d # t \<Rightarrow> map_option (\<lambda>(u, r). (c # d # u, r)) (quoted_scan t))
      else map_option (\<lambda>(u, r). (c # u, r)) (quoted_scan s))"

text \<open>\<^verbatim>\<open>quoted_string_t::parse\<close>.  After the loop the source reads \<^verbatim>\<open>*it\<close> without asking whether
  the end was reached.\<close>

definition quoted_string_parse :: "string \<Rightarrow> exn + (gerror + string \<times> string)" where
  "quoted_string_parse s =
     (case s of
        [] \<Rightarrow> Inr (Inl err_need_more)
      | c # t \<Rightarrow>
          if c \<noteq> CHR 0x22 then Inr (Inl err_mismatch)
          else
            (case quoted_scan t of
               None \<Rightarrow> Inl (undefined_behaviour ''quoted_string: past the end'')
             | Some (u, []) \<Rightarrow> Inl (undefined_behaviour ''quoted_string: read at the end'')
             | Some (u, d # r) \<Rightarrow> Inr (Inr (c # u @ [d], r))))"

fun unquote_loop :: "string \<Rightarrow> exn + string" where
  "unquote_loop [] = Inr []"
| "unquote_loop (c # s) =
     (if c = CHR 0x5C then
        (case s of
           [] \<Rightarrow> Inl (undefined_behaviour ''unquote_string: past the end'')
         | d # t \<Rightarrow> rmap (\<lambda>r. d # r) (unquote_loop t))
      else rmap (\<lambda>r. c # r) (unquote_loop s))"

definition unquote_string :: "string \<Rightarrow> exn + string" where
  "unquote_string sv = unquote_loop (butlast (tl sv))"

text \<open>Rules the grammar can run in place of the scanner.\<close>

definition quoted_rule :: "(string \<Rightarrow> gerror + gval \<times> string) \<Rightarrow> bool" where
  "quoted_rule q \<longleftrightarrow>
     (\<forall>s r. quoted_string_parse s = Inr r \<longrightarrow> q s = rmap (\<lambda>(v, t). (GStr v, t)) r)"

subsection \<open>Content-Disposition\<close>

definition disposition_param :: "(string \<Rightarrow> gerror + gval \<times> string) \<Rightarrow> grule" where
  "disposition_param q = tuple_rule
     [squelch (optional_rule (delim_char (CHR '';''))),
      squelch (optional_rule (delim_char (CHR '' ''))),
      token_rule (user_chars attr_char),
      squelch (optional_rule (delim_char (CHR ''=''))),
      optional_rule (variant_rule [custom_rule q, token_rule (user_chars value_char)])]"

fun find_filename :: "gval list \<Rightarrow> exn + string option" where
  "find_filename [] = Inr None"
| "find_filename (p # ps) =
     (if g_str (g_get 0 p) = ''filename'' then
        (case g_opt (g_get 1 p) of
           Some v \<Rightarrow>
             if g_index v = 0 then rmap Some (unquote_string (g_str (g_alt v)))
             else Inr (Some (g_str (g_alt v)))
         | None \<Rightarrow> find_filename ps)
      else find_filename ps)"

definition extract_filename_form_content_disposition ::
    "gparser \<Rightarrow> (string \<Rightarrow> gerror + gval \<times> string) \<Rightarrow> string \<Rightarrow> exn + string option" where
  "extract_filename_form_content_disposition gparse q sv =
     (case gparse (range_rule (disposition_param q)) sv of
        Inl _ \<Rightarrow> Inr None
      | Inr p \<Rightarrow> find_filename (g_range p))"

subsection \<open>URLs without a scheme\<close>

definition scheme_rule :: grule where
  "scheme_rule = tuple_rule
     [token_rule (cs_union alnum_chars (lut_chars ''+-.'')), delim_char (CHR '':''), token_rule all_chars]"

text \<open>\<^verbatim>\<open>urls::parse_uri\<close> and \<^verbatim>\<open>url::normalize\<close> are parameters.\<close>

definition normalize_and_parse_url ::
    "gparser \<Rightarrow> (string \<Rightarrow> gerror + url_view) \<Rightarrow> (url_view \<Rightarrow> url_view) \<Rightarrow> string \<Rightarrow> gerror + url_view" where
  "normalize_and_parse_url gparse parse_uri normal str =
     rmap normal (parse_uri
       (case gparse scheme_rule str of Inl _ \<Rightarrow> ''http://'' @ str | Inr _ \<Rightarrow> str))"

subsection \<open>Content types\<close>

text \<open>\<^verbatim>\<open>path.rfind(".")\<close> and the suffix from there.\<close>

definition file_ext :: "string \<Rightarrow> string" where
  "file_ext path =
     (if CHR ''.'' \<in> set path then CHR ''.'' # rev (takeWhile (\<lambda>c. c \<noteq> CHR ''.'') (rev path)) else [])"

definition mime_type :: "(string \<Rightarrow> string \<Rightarrow> bool) \<Rightarrow> string \<Rightarrow> string" where
  "mime_type ci path =
     (let ext = file_ext path in
      if ci ext ''.gif'' then ''image/gif''
      else if ci ext ''.jpg'' then ''image/jpeg''
      else if ci ext ''.jpeg'' then ''image/jpeg''
      else if ci ext ''.png'' then ''image/png''
      else if ci ext ''.svg'' then ''image/svg+xml''
      else if ci ext ''.txt'' then ''text/plain''
      else if ci ext ''.htm'' then ''text/html''
      else if ci ext ''.html'' then ''text/html''
      else if ci ext ''.pdf'' then ''application/pdf''
      else if ci ext ''.xml'' then ''application/xml''
      else ''application/octet-stream'')"

subsection \<open>Quoting and unquoting\<close>

text \<open>The quoted form of a text: quotes and backslashes escaped.\<close>

fun escape_quoted :: "string \<Rightarrow> string" where
  "escape_quoted [] = []"
| "escape_quoted (c # s) =
     (if c = CHR 0x22 \<or> c = CHR 0x5C then [CHR 0x5C, c] else [c]) @ escape_quoted s"

definition quote :: "string \<Rightarrow> string" where
  "quote s = CHR 0x22 # escape_quoted s @ [CHR 0x22]"

lemma quoted_scan_escape: "quoted_scan (escape_quoted s @ CHR 0x22 # r) = Some (escape_quoted s, CHR 0x22 # r)"
  by (induction s) auto

lemma quoted_parse_quote: "quoted_string_parse (quote s @ r) = Inr (Inr (quote s, r))"
  by (simp add: quoted_string_parse_def quote_def quoted_scan_escape)

lemma unquote_escape: "unquote_loop (escape_quoted s) = Inr s"
  by (induction s) auto

lemma unquote_quote: "unquote_string (quote s) = Inr s"
  by (simp add: unquote_string_def quote_def unquote_escape butlast_append)

lemma quoted_scan_no_quote:
  "CHR 0x22 \<notin> set s \<Longrightarrow> quoted_scan s = None \<or> (\<exists>u. quoted_scan s = Some (u, []))"
proof (induction s rule: quoted_scan.induct)
  case (2 c s)
  then have nq: "c \<noteq> CHR 0x22" by auto
  show ?case
  proof (cases "c = CHR 0x5C")
    case True
    show ?thesis
    proof (cases s)
      case (Cons d t)
      then have "quoted_scan t = None \<or> (\<exists>u. quoted_scan t = Some (u, []))"
        using 2 True nq by auto
      then show ?thesis using True Cons by auto
    qed (simp add: True)
  next
    case False
    then have "quoted_scan s = None \<or> (\<exists>u. quoted_scan s = Some (u, []))" using 2 nq by auto
    then show ?thesis using False nq by auto
  qed
qed simp

lemma quoted_scan_safe:
  "quoted_scan s = Some (u, d # r) \<Longrightarrow> d = CHR 0x22 \<and> s = u @ d # r \<and> is_ok (unquote_loop u)"
proof (induction s arbitrary: u rule: quoted_scan.induct)
  case (2 c s)
  show ?case
  proof (cases "c = CHR 0x22")
    case nq: False
    show ?thesis
    proof (cases "c = CHR 0x5C")
      case True
      then obtain e t u' where s: "s = e # t" "quoted_scan t = Some (u', d # r)" "u = c # e # u'"
        using "2.prems" by (auto split: list.splits)
      have "d = CHR 0x22 \<and> t = u' @ d # r \<and> is_ok (unquote_loop u')"
        by (rule "2.IH"(1) [OF nq True s(1,2)])
      then show ?thesis using s True by (auto simp: is_ok_iff)
    next
      case False
      then obtain u' where s: "quoted_scan s = Some (u', d # r)" "u = c # u'"
        using "2.prems" nq by auto
      have "d = CHR 0x22 \<and> s = u' @ d # r \<and> is_ok (unquote_loop u')"
        by (rule "2.IH"(2) [OF nq False s(1)])
      then show ?thesis using s False by (auto simp: is_ok_iff)
    qed
  qed (use "2.prems" in auto)
qed simp

text \<open>
  Quoted strings: the scanner takes exactly the quoted form of a text off the front of
  its input and unquoting gives the text back; whatever it accepts can be unquoted without
  leaving the view.  An opening quote without a closing one sends it past the end of its input.
\<close>

theorem quoted_string_roundtrip:
  "quoted_string_parse (quote s @ r) = Inr (Inr (quote s, r)) \<and> unquote_string (quote s) = Inr s \<and>
   (\<forall>i v t. quoted_string_parse i = Inr (Inr (v, t)) \<longrightarrow> i = v @ t \<and> is_ok (unquote_string v)) \<and>
   (CHR 0x22 \<notin> set s \<longrightarrow> (\<exists>e. quoted_string_parse (CHR 0x22 # s) = Inl (undefined_behaviour e)))"
proof (intro conjI allI impI)
  show "quoted_string_parse (quote s @ r) = Inr (Inr (quote s, r))" by (rule quoted_parse_quote)
  show "unquote_string (quote s) = Inr s" by (rule unquote_quote)
next
  fix i v t assume "quoted_string_parse i = Inr (Inr (v, t))"
  then obtain j u d where j: "i = CHR 0x22 # j" "quoted_scan j = Some (u, d # t)"
      "v = CHR 0x22 # u @ [d]"
    by (auto simp: quoted_string_parse_def split: list.splits if_splits option.splits)
  then show "i = v @ t" "is_ok (unquote_string v)"
    using quoted_scan_safe [OF j(2)] by (auto simp: unquote_string_def butlast_append)
next
  assume "CHR 0x22 \<notin> set s"
  from quoted_scan_no_quote [OF this]
  show "\<exists>e. quoted_string_parse (CHR 0x22 # s) = Inl (undefined_behaviour e)"
    by (auto simp: quoted_string_parse_def)
qed

theorem quoted_string_roundtrip_witness:
  "quoted_string_parse (quote ''a'' @ ''b'') = Inr (Inr (quote ''a'', ''b'')) \<and>
   (\<exists>e. quoted_string_parse [CHR 0x22, CHR ''a''] = Inl (undefined_behaviour e))"
  using quoted_string_roundtrip [of "''a''" "''b''"] by simp

subsection \<open>File names and schemes\<close>

lemma attr_char_not: "attr_char c \<Longrightarrow> c \<noteq> CHR '';'' \<and> c \<noteq> CHR '' ''"
  by (auto simp: attr_char_def is_alpha_def is_digit_def byte_def)

lemma attr_char_eval:
  "\<not> attr_char (CHR '';'')" "\<not> value_char (CHR '';'')" "\<not> attr_char (CHR ''='')"
  "list_all attr_char ''filename''"
  by (simp_all add: attr_char_def value_char_def is_alpha_def is_digit_def byte_def)

context url_grammar
begin

lemma disposition_type:
  assumes "quoted_rule q" "d \<noteq> []" "list_all attr_char d"
  shows "rparse (disposition_param q) (d @ CHR '';'' # t) = Inr (GTuple [GStr d, GNone], CHR '';'' # t)"
proof -
  obtain c u where d: "d = c # u" "attr_char c" using assms(2,3) by (cases d) auto
  have q: "q (CHR '';'' # t) = Inl err_mismatch"
    using assms(1) by (auto simp: quoted_rule_def quoted_string_parse_def)
  have o: "rparse (optional_rule (delim_char e)) (d @ CHR '';'' # t) = Inr (GNone, d @ CHR '';'' # t)"
    if "e = CHR '';'' \<or> e = CHR '' ''" for e
    using that attr_char_not [OF d(2)] d(1) by (auto simp: optional delim)
  have tk: "rparse (token_rule (user_chars attr_char)) (d @ CHR '';'' # t) = Inr (GStr d, CHR '';'' # t)"
    using assms(2,3) attr_char_eval(1) by (intro token_field) (auto simp: list_all_iff)
  show ?thesis
    by (simp add: disposition_param_def tupled squelched o tk)
       (simp add: optional delim variants custom q token attr_char_eval mk_tuple_def)
qed

lemma disposition_filename:
  assumes "quoted_rule q"
  shows "rparse (disposition_param q) (''; filename='' @ quote t) =
    Inr (GTuple [GStr ''filename'', GSome (GAlt 0 (GStr (quote t)))], [])"
proof -
  have q: "q (quote t) = Inr (GStr (quote t), [])"
    using assms quoted_parse_quote [of t "[]"] by (auto simp: quoted_rule_def)
  have tk: "rparse (token_rule (user_chars attr_char)) (''filename'' @ CHR ''='' # quote t) =
      Inr (GStr ''filename'', CHR ''='' # quote t)"
    by (rule token_field) (use attr_char_eval(3,4) in \<open>auto simp: list_all_iff\<close>)
  have o: "rparse (optional_rule (delim_char e)) (e # u) = Inr (GSome (GStr [e]), u)" for e u
    by (simp add: optional delim)
  have v: "rparse (optional_rule (variant_rule [custom_rule q, token_rule (user_chars value_char)])) (quote t) =
      Inr (GSome (GAlt 0 (GStr (quote t))), [])"
    by (simp add: optional variants custom q) (simp add: quote_def)
  have s: "''; filename='' @ quote t = CHR '';'' # CHR '' '' # ''filename'' @ CHR ''='' # quote t" by simp
  show ?thesis
    unfolding s disposition_param_def tupled
    by (simp only: seq_parse.simps squelched o tk v sum.case prod.case rmap.simps is_squelch.simps if_True if_False)
       (simp add: mk_tuple_def)
qed

lemma disposition_end: "\<exists>e. rparse (disposition_param q) [] = Inl e \<and> e \<noteq> err_end_of_range"
  by (simp add: disposition_param_def tupled squelched optional token)

lemma scheme_rule_iff:
  "is_ok (gparse scheme_rule s) \<longleftrightarrow>
     (\<exists>a r. s = a @ CHR '':'' # r \<and> a \<noteq> [] \<and> r \<noteq> [] \<and>
        list_all (\<lambda>c. is_alpha c \<or> is_digit c \<or> c \<in> set ''+-.'') a)"
  (is "_ = ?rhs")
proof
  let ?cs = "cs_union alnum_chars (lut_chars ''+-.'')"
  assume "is_ok (gparse scheme_rule s)"
  then obtain v where "rparse scheme_rule s = Inr (v, [])"
    by (auto simp: parse_all is_ok_iff split: sum.splits if_splits)
  then obtain a r where a: "a \<noteq> []" "list_all (cs_mem ?cs) a" "s = a @ CHR '':'' # r" "r \<noteq> []"
    by (auto simp: scheme_rule_def tupled rmap_Inr_iff delim split: sum.splits list.splits if_splits
        dest!: token_shape)
  then show ?rhs by (intro exI [of _ a] exI [of _ r]) (auto simp: list_all_iff)
next
  let ?cs = "cs_union alnum_chars (lut_chars ''+-.'')"
  assume ?rhs
  then obtain a r where a: "s = a @ CHR '':'' # r" "a \<noteq> []" "r \<noteq> []" "list_all (cs_mem ?cs) a"
    by (auto simp: list_all_iff)
  have "rparse (token_rule ?cs) s = Inr (GStr a, CHR '':'' # r)"
    unfolding a(1) using a(2,4) by (rule token_field) (simp add: is_alpha_def is_digit_def byte_def)
  moreover have "rparse (token_rule all_chars) r = Inr (GStr r, [])"
    using a(3) by (intro token_all) (auto simp: list_all_iff)
  ultimately show "is_ok (gparse scheme_rule s)"
    by (simp add: scheme_rule_def parse_all tupled delim mk_tuple_def)
qed

end

text \<open>
  The file name of a \<^verbatim>\<open>Content-Disposition\<close> field: for a disposition type followed by a
  quoted \<^verbatim>\<open>filename\<close> parameter, the extracted name is the text that was quoted, whatever
  characters it has.
\<close>

theorem extract_filename_quoted:
  assumes "url_grammar gparse rparse" and "quoted_rule q"
    and "d \<noteq> []" and "list_all attr_char d"
  shows "extract_filename_form_content_disposition gparse q (d @ ''; filename='' @ quote t) =
    Inr (Some t)"
proof -
  note [simp] = url_grammar.parse_all [OF assms(1)]
  let ?r = "disposition_param q" and ?s1 = "''; filename='' @ quote t"
  let ?v1 = "GTuple [GStr d, GNone]"
    and ?v2 = "GTuple [GStr ''filename'', GSome (GAlt 0 (GStr (quote t)))]"
  have e1: "rparse ?r (d @ ?s1) = Inr (?v1, ?s1)"
    using url_grammar.disposition_type [OF assms, of "'' filename='' @ quote t"] by simp
  have e2: "rparse ?r ?s1 = Inr (?v2, [])"
    by (rule url_grammar.disposition_filename [OF assms(1,2)])
  obtain e where e3: "rparse ?r [] = Inl e" "e \<noteq> err_end_of_range"
    using url_grammar.disposition_end [OF assms(1)] by blast
  have "rparse (range_rule ?r) (d @ ?s1) = Inr (GRange [?v1, ?v2], [])"
    using url_grammar.range_step [OF assms(1) e1] url_grammar.range_step [OF assms(1) e2]
      url_grammar.range_end [OF assms(1) e3] assms(3) by simp
  then show ?thesis
    by (simp add: extract_filename_form_content_disposition_def g_get_def unquote_quote)
qed

theorem extract_filename_quoted_witness:
  "\<exists>q. quoted_rule q \<and>
     extract_filename_form_content_disposition ref_gparse q (''attachment'' @ ''; filename='' @ quote ''a b'') =
       Inr (Some ''a b'')"
proof (intro exI conjI)
  let ?q = "\<lambda>s. case quoted_string_parse s of
      Inl _ \<Rightarrow> Inl err_mismatch | Inr r \<Rightarrow> rmap (\<lambda>(v, t). (GStr v, t)) r"
  show q: "quoted_rule ?q" by (simp add: quoted_rule_def)
  show "extract_filename_form_content_disposition ref_gparse ?q
      (''attachment'' @ ''; filename='' @ quote ''a b'') = Inr (Some ''a b'')"
    by (rule extract_filename_quoted [OF ref.url_grammar_axioms q])
       (simp_all add: attr_char_def is_alpha_def byte_def)
qed

text \<open>
  A URL is prefixed with \<^verbatim>\<open>http://\<close> before it is parsed exactly when it does not start with a
  non-empty run of letters, digits, plus, minus and dot followed by a colon and more text;
  a host name with a port therefore counts as having a scheme.
\<close>

theorem missing_scheme:
  assumes "url_grammar gparse rparse"
  shows "normalize_and_parse_url gparse parse_uri normal s =
    rmap normal (parse_uri
      (if \<exists>a r. s = a @ CHR '':'' # r \<and> a \<noteq> [] \<and> r \<noteq> [] \<and>
           list_all (\<lambda>c. is_alpha c \<or> is_digit c \<or> c \<in> set ''+-.'') a
       then s else ''http://'' @ s))"
  unfolding url_grammar.scheme_rule_iff [OF assms, of s, symmetric]
  by (auto simp: normalize_and_parse_url_def is_ok_def split: sum.splits)

theorem missing_scheme_witness:
  "normalize_and_parse_url ref_gparse (\<lambda>u. Inr (url_blank\<lparr>u_text := u\<rparr>)) id ''a.io'' =
     Inr (url_blank\<lparr>u_text := ''http://a.io''\<rparr>)"
proof -
  have "\<not> (\<exists>a r. ''a.io'' = a @ CHR '':'' # r)"
  proof
    assume "\<exists>a r. ''a.io'' = a @ CHR '':'' # r"
    then have "CHR '':'' \<in> set ''a.io''" by (metis in_set_conv_decomp)
    then show False by simp
  qed
  then show ?thesis
    using missing_scheme [OF ref.url_grammar_axioms, of "\<lambda>u. Inr (url_blank\<lparr>u_text := u\<rparr>)" id "''a.io''"]
    by simp
qed

end
