(* ===== verification/Progress_Meter.thy ===== *)
theory Progress_Meter
  imports Except
begin

text \<open>
  The transfer meter of the burl client (\<^verbatim>\<open>progress_meter.hpp\<close>, \<^verbatim>\<open>progress_meter.cpp\<close>): byte
  counters at their width and a sliding window of five slots of a quarter second.  Points of
  the steady clock are nanosecond counts and arguments of the operations that read the clock.
\<close>

record progress_meter =
  pm_total :: "u64 option"
  pm_transfered :: u64
  pm_window :: "u64 list"
  pm_init :: int
  pm_last_update :: int

definition pm_new :: "u64 option \<Rightarrow> int \<Rightarrow> progress_meter" where
  "pm_new tot now = \<lparr>pm_total = tot, pm_transfered = 0, pm_window = replicate 5 0,
     pm_init = now, pm_last_update = now\<rparr>"

text \<open>Whole quarter seconds since the last shift, at most five.\<close>

definition pm_slots :: "int \<Rightarrow> int \<Rightarrow> nat" where
  "pm_slots now since = nat (min ((now - since) div 10 ^ 6) 1250 div 250)"

definition pm_update :: "int \<Rightarrow> u64 \<Rightarrow> progress_meter \<Rightarrow> progress_meter" where
  "pm_update now bytes pm =
     (let shift = pm_slots now (pm_last_update pm);
          pm1 = (if shift \<noteq> 0
                 then pm\<lparr>pm_last_update := now, pm_window := drop shift (pm_window pm) @ replicate shift 0\<rparr>
                 else pm) in
      pm1\<lparr>pm_transfered := pm_transfered pm1 + bytes,
          pm_window := butlast (pm_window pm1) @ [last (pm_window pm1) + bytes]\<rparr>)"

definition pm_cur_rate :: "int \<Rightarrow> progress_meter \<Rightarrow> u64" where
  "pm_cur_rate now0 pm =
     (let now = (if now0 - pm_init pm < 10 ^ 9 then pm_last_update pm + 250 * 10 ^ 6 else now0);
          offset = pm_slots now (pm_last_update pm) in
      sum_list (drop offset (if offset \<noteq> 0 then pm_window pm else butlast (pm_window pm))))"

definition pm_avg_rate :: "int \<Rightarrow> progress_meter \<Rightarrow> u64" where
  "pm_avg_rate now pm =
     (let elapsed = (now - pm_init pm) div 10 ^ 9 in
      if elapsed = 0 then 0 else pm_transfered pm div of_int elapsed)"

definition pm_remaining :: "progress_meter \<Rightarrow> u64 option" where
  "pm_remaining pm =
     (case pm_total pm of
        Some t \<Rightarrow> if t \<ge> pm_transfered pm then Some (t - pm_transfered pm) else None
      | None \<Rightarrow> None)"

text \<open>The quotient is converted to \<^verbatim>\<open>int\<close>, that is to the low 32 bits read as signed.\<close>

definition pm_pct :: "progress_meter \<Rightarrow> exn + int option" where
  "pm_pct pm =
     (case pm_total pm of
        Some t \<Rightarrow>
          if t = 0 then Inl (undefined_behaviour ''division by zero'')
          else Inr (Some (sint (ucast (pm_transfered pm * 100 div t) :: u32)))
      | None \<Rightarrow> Inr None)"

text \<open>The number of seconds left.\<close>

definition pm_eta :: "int \<Rightarrow> progress_meter \<Rightarrow> u64 option" where
  "pm_eta now pm =
     (case pm_remaining pm of
        None \<Rightarrow> None
      | Some re \<Rightarrow>
          let rate0 = pm_cur_rate now pm;
              rate = (if rate0 = 0 then pm_avg_rate now pm else rate0) in
          if rate = 0 then None else Some (re div rate))"

subsection \<open>A run of the meter\<close>

fun pm_run :: "(int \<times> u64) list \<Rightarrow> progress_meter \<Rightarrow> progress_meter" where
  "pm_run [] pm = pm"
| "pm_run ((now, bytes) # us) pm = pm_run us (pm_update now bytes pm)"

definition bytes_of :: "(int \<times> u64) list \<Rightarrow> nat" where
  "bytes_of us = sum_list (map (unat \<circ> snd) us)"

definition window_sum :: "progress_meter \<Rightarrow> nat" where
  "window_sum pm = sum_list (map unat (pm_window pm))"

definition pm_inv :: "progress_meter \<Rightarrow> bool" where
  "pm_inv pm \<longleftrightarrow> length (pm_window pm) = 5 \<and> window_sum pm \<le> unat (pm_transfered pm)"

lemma pm_slots_le: "pm_slots now since \<le> 5"
  by (auto simp: pm_slots_def min_def)

lemma unat_sum_list:
  "sum_list (map unat (xs :: u64 list)) < 2 ^ 64 \<Longrightarrow> unat (sum_list xs) = sum_list (map unat xs)"
proof (induction xs)
  case (Cons x xs)
  then have "unat (sum_list xs) = sum_list (map unat xs)" by simp
  with Cons.prems show ?case by (simp add: unat_add_lem [THEN iffD1])
qed simp

lemma sum_map_drop: "sum_list (map f (drop n xs)) \<le> sum_list (map (f :: 'a \<Rightarrow> nat) xs)"
  by (induction xs arbitrary: n) (auto simp: drop_Cons' intro: le_add2 order_trans)

lemma sum_map_butlast: "sum_list (map f (butlast xs)) \<le> sum_list (map (f :: 'a \<Rightarrow> nat) xs)"
  by (induction xs) auto

lemma pm_update_inv:
  assumes "pm_inv pm" "unat (pm_transfered pm) + unat bytes < 2 ^ 64"
  shows "pm_inv (pm_update now bytes pm)"
    and "unat (pm_transfered (pm_update now bytes pm)) = unat (pm_transfered pm) + unat bytes"
    and "pm_total (pm_update now bytes pm) = pm_total pm \<and> pm_init (pm_update now bytes pm) = pm_init pm"
proof -
  define w where "w = (let shift = pm_slots now (pm_last_update pm) in
    if shift \<noteq> 0 then drop shift (pm_window pm) @ replicate shift 0 else pm_window pm)"
  have tr: "pm_transfered (pm_update now bytes pm) = pm_transfered pm + bytes"
    by (simp add: pm_update_def Let_def)
  have wi: "pm_window (pm_update now bytes pm) = butlast w @ [last w + bytes]"
    by (simp add: pm_update_def Let_def w_def)
  have len: "length w = 5"
    using assms(1) pm_slots_le [of now "pm_last_update pm"] by (auto simp: w_def pm_inv_def Let_def)
  have sum: "sum_list (map unat w) \<le> window_sum pm"
    using sum_map_drop [of unat "pm_slots now (pm_last_update pm)" "pm_window pm"]
    by (auto simp: w_def window_sum_def Let_def sum_list_replicate)
  have split: "sum_list (map unat w) = sum_list (map unat (butlast w)) + unat (last w)"
    using len by (cases w rule: rev_cases) auto
  have "unat (last w + bytes) \<le> unat (last w) + unat bytes" by (simp add: unat_plus_simple [symmetric] unat_word_ariths)
  then have "sum_list (map unat (butlast w @ [last w + bytes])) \<le> window_sum pm + unat bytes"
    using sum split by simp
  moreover show "unat (pm_transfered (pm_update now bytes pm)) = unat (pm_transfered pm) + unat bytes"
    unfolding tr using assms(2) by (simp add: unat_add_lem [THEN iffD1])
  ultimately show "pm_inv (pm_update now bytes pm)"
    using assms(1) len wi unfolding pm_inv_def window_sum_def by simp
  show "pm_total (pm_update now bytes pm) = pm_total pm \<and> pm_init (pm_update now bytes pm) = pm_init pm"
    by (simp add: pm_update_def Let_def)
qed

lemma pm_run_inv:
  "pm_inv pm \<Longrightarrow> unat (pm_transfered pm) + bytes_of us < 2 ^ 64 \<Longrightarrow>
   pm_inv (pm_run us pm) \<and> unat (pm_transfered (pm_run us pm)) = unat (pm_transfered pm) + bytes_of us \<and>
   pm_total (pm_run us pm) = pm_total pm"
proof (induction us arbitrary: pm)
  case (Cons u us)
  obtain now b where u: "u = (now, b)" by (cases u)
  have lt: "unat (pm_transfered pm) + unat b < 2 ^ 64" using Cons.prems(2) u by (simp add: bytes_of_def)
  note s = pm_update_inv [OF Cons.prems(1) lt, of now]
  show ?case using Cons.IH [OF s(1)] Cons.prems(2) s(2,3) u by (simp add: bytes_of_def)
qed (simp add: bytes_of_def)

text \<open>
  The meter counts: after any sequence of updates whose bytes fit 64 bits, the
  transferred count is their sum, the remaining count is the total minus it (none when the
  total is unknown or exceeded), and the rate the window gives is a number of bytes that
  were really transferred.
\<close>

theorem progress_meter_counts:
  assumes "bytes_of us < 2 ^ 64"
  shows "unat (pm_transfered (pm_run us (pm_new tot t0))) = bytes_of us \<and>
    unat (pm_cur_rate now (pm_run us (pm_new tot t0))) \<le> bytes_of us \<and>
    map_option unat (pm_remaining (pm_run us (pm_new tot t0))) =
      (case tot of None \<Rightarrow> None
       | Some t \<Rightarrow> if bytes_of us \<le> unat t then Some (unat t - bytes_of us) else None)"
proof -
  let ?pm = "pm_run us (pm_new tot t0)"
  have i0: "pm_inv (pm_new tot t0)" by (simp add: pm_inv_def pm_new_def window_sum_def numeral_eq_Suc)
  have r: "pm_inv ?pm" "unat (pm_transfered ?pm) = bytes_of us" "pm_total ?pm = tot"
    using pm_run_inv [OF i0, of us] assms by (simp_all add: pm_new_def)
  have sub: "sum_list (map unat (drop k xs)) \<le> window_sum ?pm"
    if "xs = pm_window ?pm \<or> xs = butlast (pm_window ?pm)" for k xs
    using that sum_map_drop [of unat k xs] sum_map_butlast [of unat "pm_window ?pm"]
    by (auto simp: window_sum_def intro: order_trans)
  have rate: "unat (sum_list (drop k xs)) \<le> bytes_of us"
    if "xs = pm_window ?pm \<or> xs = butlast (pm_window ?pm)" for k xs
    using sub [OF that, of k] r(1,2) assms unat_sum_list [of "drop k xs"] by (simp add: pm_inv_def)
  have "unat (pm_cur_rate now ?pm) \<le> bytes_of us"
    unfolding pm_cur_rate_def Let_def by (rule rate) simp
  moreover have "map_option unat (pm_remaining ?pm) =
      (case tot of None \<Rightarrow> None
       | Some t \<Rightarrow> if bytes_of us \<le> unat t then Some (unat t - bytes_of us) else None)"
    using r(2,3) by (auto simp: pm_remaining_def word_le_nat_alt unat_sub split: option.splits)
  ultimately show ?thesis using r(2) by simp
qed

theorem progress_meter_counts_witness:
  "bytes_of [(10 ^ 9, 5), (2 * 10 ^ 9, 7)] < 2 ^ 64 \<and>
   unat (pm_transfered (pm_run [(10 ^ 9, 5), (2 * 10 ^ 9, 7)] (pm_new (Some 20) 0))) = 12"
  using progress_meter_counts [of "[(10 ^ 9, 5), (2 * 10 ^ 9, 7)]" "Some 20" 0 0]
  by (simp add: bytes_of_def)

text \<open>
  The percentage is between 0 and 100 while the transfer stays within a known, positive
  total and a hundred times the count fits 64 bits; a total of zero makes the call divide by
  zero.
\<close>

theorem progress_meter_pct:
  assumes "pm_total pm = Some t"
  shows "(t = 0 \<longrightarrow> pm_pct pm = Inl (undefined_behaviour ''division by zero'')) \<and>
    (t \<noteq> 0 \<and> pm_transfered pm \<le> t \<and> unat (pm_transfered pm) * 100 < 2 ^ 64 \<longrightarrow>
      pm_pct pm = Inr (Some (int (unat (pm_transfered pm) * 100 div unat t))) \<and>
      unat (pm_transfered pm) * 100 div unat t \<le> 100)"
proof (intro conjI impI)
  assume "t = 0" then show "pm_pct pm = Inl (undefined_behaviour ''division by zero'')"
    using assms by (simp add: pm_pct_def)
next
  assume a: "t \<noteq> 0 \<and> pm_transfered pm \<le> t \<and> unat (pm_transfered pm) * 100 < 2 ^ 64"
  have m: "unat (pm_transfered pm * 100) = unat (pm_transfered pm) * 100"
    using a by (subst unat_mult_lem [THEN iffD1]) simp_all
  have t: "0 < unat t" using a by (simp add: unat_gt_0)
  have "unat (pm_transfered pm) * 100 \<le> 100 * unat t" using a by (simp add: word_le_nat_alt)
  then show le: "unat (pm_transfered pm) * 100 div unat t \<le> 100"
    using div_le_mono [of "unat (pm_transfered pm) * 100" "100 * unat t" "unat t"] t by simp
  let ?q = "pm_transfered pm * 100 div t"
  have q: "unat ?q = unat (pm_transfered pm) * 100 div unat t" by (simp add: unat_div m)
  have "ucast ?q = (of_nat (unat ?q) :: u32)" by (simp add: unsigned_def)
  moreover have "sint (of_nat n :: u32) = int n" if "n \<le> 100" for n
    using that by (simp add: signed_of_nat signed_take_bit_int_eq_self)
  ultimately have "sint (ucast ?q :: u32) = int (unat ?q)" using le unfolding q [symmetric] by metis
  then show "pm_pct pm = Inr (Some (int (unat (pm_transfered pm) * 100 div unat t)))"
    using assms a q by (simp add: pm_pct_def)
qed

theorem progress_meter_pct_witness:
  "pm_pct ((pm_new (Some 4) 0)\<lparr>pm_transfered := 1\<rparr>) = Inr (Some 25)"
  using progress_meter_pct [of "(pm_new (Some 4) 0)\<lparr>pm_transfered := 1\<rparr>" 4]
  by (simp add: pm_new_def)

end
