(* ===== verification/Any_Stream.thy ===== *)
theory Any_Stream
  imports Except
begin

text \<open>
  The transfer-rate limiter of the burl client's stream wrapper (\<^verbatim>\<open>any_stream.hpp\<close>).  The
  underlying stream and the timers belong to Boost.Asio: an operation takes what they report,
  the error code of the one-second wait (if the coroutine gets to it) and the result of the
  inner read or write as a function of the number of bytes the shortened buffers offer.
\<close>

record any_stream =
  rd_remain :: u64
  wr_remain :: u64
  rd_limit :: u64
  wr_limit :: u64

definition any_stream_new :: any_stream where
  "any_stream_new = \<lparr>rd_remain = - 1, wr_remain = - 1, rd_limit = - 1, wr_limit = - 1\<rparr>"

definition read_limit :: "u64 \<Rightarrow> any_stream \<Rightarrow> any_stream" where
  "read_limit bytes_per_second s =
     (let s1 = s\<lparr>rd_limit := bytes_per_second\<rparr> in
      if rd_remain s1 > bytes_per_second then s1\<lparr>rd_remain := bytes_per_second\<rparr> else s1)"

definition write_limit :: "u64 \<Rightarrow> any_stream \<Rightarrow> any_stream" where
  "write_limit bytes_per_second s =
     (let s1 = s\<lparr>wr_limit := bytes_per_second\<rparr> in
      if wr_remain s1 > bytes_per_second then s1\<lparr>wr_remain := bytes_per_second\<rparr> else s1)"

text \<open>Error codes are numbers, zero for success.  \<^verbatim>\<open>capy::prefix\<close> offers the inner operation at
  most the remaining allowance.\<close>

record io_result =
  io_ec :: nat
  io_n :: u64
  io_waited :: bool

type_synonym inner_io = "u64 \<Rightarrow> nat \<times> u64"

definition async_read_some :: "u64 \<Rightarrow> nat \<Rightarrow> inner_io \<Rightarrow> any_stream \<Rightarrow> io_result \<times> any_stream" where
  "async_read_some sz wait_ec inner s =
     (let waits = (rd_remain s = 0) in
      if waits \<and> wait_ec \<noteq> 0 then (\<lparr>io_ec = wait_ec, io_n = 0, io_waited = False\<rparr>, s)
      else
        let s1 = (if waits then s\<lparr>rd_remain := rd_limit s\<rparr> else s) in
        (case inner (min sz (rd_remain s1)) of
           (ec, n) \<Rightarrow> (\<lparr>io_ec = ec, io_n = n, io_waited = waits\<rparr>, s1\<lparr>rd_remain := rd_remain s1 - n\<rparr>)))"

definition async_write_some :: "u64 \<Rightarrow> nat \<Rightarrow> inner_io \<Rightarrow> any_stream \<Rightarrow> io_result \<times> any_stream" where
  "async_write_some sz wait_ec inner s =
     (let waits = (wr_remain s = 0) in
      if waits \<and> wait_ec \<noteq> 0 then (\<lparr>io_ec = wait_ec, io_n = 0, io_waited = False\<rparr>, s)
      else
        let s1 = (if waits then s\<lparr>wr_remain := wr_limit s\<rparr> else s) in
        (case inner (min sz (wr_remain s1)) of
           (ec, n) \<Rightarrow> (\<lparr>io_ec = ec, io_n = n, io_waited = waits\<rparr>, s1\<lparr>wr_remain := wr_remain s1 - n\<rparr>)))"

subsection \<open>What a rate limiter promises\<close>

text \<open>One direction of the stream: an operation, the allowance left and the limit.  The
  operation either fails to wait and changes nothing, or moves some bytes out of the
  allowance, which it first renews after a full second when it was used up.\<close>

type_synonym 's limited_op = "u64 \<Rightarrow> nat \<Rightarrow> inner_io \<Rightarrow> 's \<Rightarrow> io_result \<times> 's"

definition inner_ok :: "inner_io \<Rightarrow> bool" where
  "inner_ok f \<longleftrightarrow> (\<forall>k. snd (f k) \<le> k)"

fun run_io :: "'s limited_op \<Rightarrow> (u64 \<times> nat \<times> inner_io) list \<Rightarrow> 's \<Rightarrow> io_result list \<times> 's" where
  "run_io io [] s = ([], s)"
| "run_io io ((sz, ec, f) # rs) s =
     (case io sz ec f s of (r, s1) \<Rightarrow> (case run_io io rs s1 of (out, s2) \<Rightarrow> (r # out, s2)))"

definition moved :: "io_result list \<Rightarrow> nat" where
  "moved out = sum_list (map (unat \<circ> io_n) out)"

definition waits :: "io_result list \<Rightarrow> nat" where
  "waits out = length (filter io_waited out)"

locale rate_limiter =
  fixes io :: "'s limited_op" and remain limit :: "'s \<Rightarrow> u64"
  assumes limit_kept: "limit (snd (io sz ec f s)) = limit s"
    and allowance: "inner_ok f \<Longrightarrow> io sz ec f s = (r, s') \<Longrightarrow>
      unat (remain s') + unat (io_n r) = (if io_waited r then unat (limit s) else unat (remain s))"
    and renewal: "io sz ec f s = (r, s') \<Longrightarrow> io_waited r \<Longrightarrow> remain s = 0"
begin

text \<open>Nothing is lost and nothing is gained: what was moved and what is left is what there was at
  first and what the waits have renewed.\<close>


lemma run_budget:
  "list_all (\<lambda>(_, _, f). inner_ok f) rs \<Longrightarrow> run_io io rs s = (out, s') \<Longrightarrow>
   moved out + unat (remain s') = unat (remain s) + waits out * unat (limit s)"
proof (induction rs arbitrary: s out s')
  case (Cons q rs)
  obtain sz ec f where q: "q = (sz, ec, f)" by (cases q)
  obtain r s1 where r: "io sz ec f s = (r, s1)" by (cases "io sz ec f s")
  obtain out1 s2 where o: "run_io io rs s1 = (out1, s2)" by (cases "run_io io rs s1")
  have e: "out = r # out1" "s' = s2" using Cons.prems(2) q r o by auto
  have f: "inner_ok f" "list_all (\<lambda>(_, _, f). inner_ok f) rs" using Cons.prems(1) q by auto
  have lim: "limit s1 = limit s" using limit_kept [of sz ec f s] r by simp
  have "moved out1 + unat (remain s2) = unat (remain s1) + waits out1 * unat (limit s)"
    using Cons.IH [OF f(2) o] lim by simp
  then show ?case
    using allowance [OF f(1) r] renewal [OF r] unfolding e by (auto simp: moved_def waits_def split: if_splits)
qed (simp add: moved_def waits_def)

end

lemma limited_step:
  assumes "inner_ok f" "f (min sz a) = (ec, n)"
  shows "unat (a - n) + unat n = unat (a :: u64)"
proof -
  have "n \<le> min sz a" using assms(1) [unfolded inner_ok_def, rule_format, of "min sz a"] assms(2) by simp
  then have "n \<le> a" by simp
  then show ?thesis by (simp add: unat_sub word_le_nat_alt)
qed

interpretation rd: rate_limiter async_read_some rd_remain rd_limit
proof
  show "rd_limit (snd (async_read_some sz ec f s)) = rd_limit s" for sz ec f s
    by (auto simp: async_read_some_def Let_def split: prod.splits)
  show "unat (rd_remain s') + unat (io_n r) = (if io_waited r then unat (rd_limit s) else unat (rd_remain s))"
    if "inner_ok f" "async_read_some sz ec f s = (r, s')" for f sz ec s r s'
    using that limited_step [OF that(1)]
    by (auto simp: async_read_some_def Let_def split: prod.splits if_splits)
  show "rd_remain s = 0" if "async_read_some sz ec f s = (r, s')" "io_waited r" for f sz ec s r s'
    using that by (auto simp: async_read_some_def Let_def split: prod.splits if_splits)
qed

interpretation wr: rate_limiter async_write_some wr_remain wr_limit
proof
  show "wr_limit (snd (async_write_some sz ec f s)) = wr_limit s" for sz ec f s
    by (auto simp: async_write_some_def Let_def split: prod.splits)
  show "unat (wr_remain s') + unat (io_n r) = (if io_waited r then unat (wr_limit s) else unat (wr_remain s))"
    if "inner_ok f" "async_write_some sz ec f s = (r, s')" for f sz ec s r s'
    using that limited_step [OF that(1)]
    by (auto simp: async_write_some_def Let_def split: prod.splits if_splits)
  show "wr_remain s = 0" if "async_write_some sz ec f s = (r, s')" "io_waited r" for f sz ec s r s'
    using that by (auto simp: async_write_some_def Let_def split: prod.splits if_splits)
qed

text \<open>
  The rate limit holds in both directions: after a limit is set, any sequence of reads
  (or writes) moves at most one limit's worth of bytes plus another for each full second it
  waited, provided the underlying stream never reports more bytes than it was offered; the
  allowance never wraps around.
\<close>

theorem rate_limit_respected:
  assumes "list_all (\<lambda>(_, _, f). inner_ok f) rs"
    and "run_io async_read_some rs (read_limit lim s) = (rd_out, s1)"
    and "run_io async_write_some rs (write_limit lim s) = (wr_out, s2)"
  shows "moved rd_out \<le> (1 + waits rd_out) * unat lim \<and> moved wr_out \<le> (1 + waits wr_out) * unat lim"
proof -
  have "unat (rd_remain (read_limit lim s)) \<le> unat lim" "rd_limit (read_limit lim s) = lim"
    "unat (wr_remain (write_limit lim s)) \<le> unat lim" "wr_limit (write_limit lim s) = lim"
    by (auto simp: read_limit_def write_limit_def Let_def word_le_nat_alt [symmetric])
  then show ?thesis
    using rd.run_budget [OF assms(1,2)] wr.run_budget [OF assms(1,3)] by (simp add: algebra_simps)
qed

theorem rate_limit_respected_witness:
  "fst (run_io async_read_some [(10, 0, \<lambda>k. (0, k)), (10, 0, \<lambda>k. (0, k))] (read_limit 4 any_stream_new)) =
     [\<lparr>io_ec = 0, io_n = 4, io_waited = False\<rparr>, \<lparr>io_ec = 0, io_n = 4, io_waited = True\<rparr>] \<and>
   moved [\<lparr>io_ec = 0, io_n = 4, io_waited = False\<rparr>, \<lparr>io_ec = 0, io_n = 4, io_waited = True\<rparr>] \<le>
     (1 + waits [\<lparr>io_ec = 0, io_n = 4, io_waited = False\<rparr>, \<lparr>io_ec = 0, io_n = 4, io_waited = True\<rparr>]) *
     unat (4 :: u64)"
proof -
  let ?rs = "[(10, 0, \<lambda>k. (0, k)), (10, 0, \<lambda>k. (0, k))] :: (u64 \<times> nat \<times> inner_io) list"
  let ?out = "[\<lparr>io_ec = 0, io_n = 4, io_waited = False\<rparr>, \<lparr>io_ec = 0, io_n = 4, io_waited = True\<rparr>]"
  have r: "run_io async_read_some ?rs (read_limit 4 any_stream_new) =
      (?out, (any_stream_new\<lparr>rd_remain := 0, rd_limit := 4\<rparr>))"
    by (simp add: async_read_some_def read_limit_def any_stream_new_def Let_def min_def)
  have w: "run_io async_write_some ?rs (write_limit 4 any_stream_new) =
      (?out, (any_stream_new\<lparr>wr_remain := 0, wr_limit := 4\<rparr>))"
    by (simp add: async_write_some_def write_limit_def any_stream_new_def Let_def min_def)
  have "list_all (\<lambda>(_, _, f). inner_ok f) ?rs" by (simp add: inner_ok_def)
  from rate_limit_respected [OF this r w] r show ?thesis by simp
qed

end
