(* ===== verification/Task_Group.thy ===== *)
theory Task_Group
  imports Except
begin

text \<open>
  The task group of the burl client (\<^verbatim>\<open>task_group.hpp\<close>), which runs at most \<^verbatim>\<open>max_\<close> transfers at
  a time: the running tasks are the cancellation signals of \<^verbatim>\<open>css_\<close>, and operations that have
  to wait do so on the timer \<^verbatim>\<open>cv_\<close>, whose cancellation wakes them all.  The composed
  operations run when Boost.Asio resumes them, in any order: the group is a transition system
  whose steps are the starts, resumptions, cancellations and task completions.
\<close>

datatype tg_ec = Ec_none | Ec_aborted | Ec_cancelled | Ec_closed

text \<open>The group's own errors: their numbers, the codes made of them and their messages.\<close>

datatype task_group_errc = errc_cancelled | errc_closed

primrec task_group_errc_value :: "task_group_errc \<Rightarrow> int" where
  "task_group_errc_value errc_cancelled = 1"
| "task_group_errc_value errc_closed = 2"

definition task_group_make_error_code :: "task_group_errc \<Rightarrow> error_code" where
  "task_group_make_error_code e = \<lparr>ec_value = task_group_errc_value e, ec_category = ''task_group''\<rparr>"

definition task_group_message :: "int \<Rightarrow> string" where
  "task_group_message ev =
     (if ev = task_group_errc_value errc_cancelled then ''task_group cancelled''
      else if ev = task_group_errc_value errc_closed then ''task_group closed''
      else ''Unknown task_group error'')"

datatype op_kind = Op_adapt | Op_join

text \<open>An outstanding operation has been posted with an error code, or waits on the timer.\<close>

datatype op_phase = Posted tg_ec | On_timer

record tg_op =
  op_kind :: op_kind
  op_scheduled :: bool
  op_cancelled :: bool
  op_phase :: op_phase

text \<open>A running task: whether it was admitted without an error, and whether a cancellation
  was emitted to it.\<close>

record tg_task =
  task_id :: nat
  task_admitted :: bool
  task_signalled :: bool

record task_group =
  tg_max :: u32
  tg_css :: "tg_task list"
  tg_ops :: "nat \<rightharpoonup> tg_op"
  tg_next :: nat
  tg_done :: "(nat \<times> tg_ec) list"

definition tg_new :: "u32 \<Rightarrow> task_group" where
  "tg_new mx = \<lparr>tg_max = mx, tg_css = [], tg_ops = Map.empty, tg_next = 0, tg_done = []\<rparr>"

subsection \<open>Operations\<close>

definition wake_op :: "tg_op \<Rightarrow> tg_op" where
  "wake_op p = (case op_phase p of On_timer \<Rightarrow> p\<lparr>op_phase := Posted Ec_aborted\<rparr> | Posted e \<Rightarrow> p)"

definition cv_cancel :: "task_group \<Rightarrow> task_group" where
  "cv_cancel tg = tg\<lparr>tg_ops := (\<lambda>i. map_option wake_op (tg_ops tg i))\<rparr>"

definition tg_close :: "task_group \<Rightarrow> task_group" where
  "tg_close tg = cv_cancel (tg\<lparr>tg_max := 0\<rparr>)"

definition tg_emit :: "task_group \<Rightarrow> task_group" where
  "tg_emit tg = tg\<lparr>tg_css := map (\<lambda>t. t\<lparr>task_signalled := True\<rparr>) (tg_css tg)\<rparr>"

text \<open>\<^verbatim>\<open>~remover\<close> of a task that ended.\<close>

definition tg_remove :: "nat \<Rightarrow> task_group \<Rightarrow> task_group" where
  "tg_remove t tg = cv_cancel (tg\<lparr>tg_css := filter (\<lambda>x. task_id x \<noteq> t) (tg_css tg)\<rparr>)"

text \<open>The error code the handler of \<^verbatim>\<open>async_adapt\<close> computes before it decides.\<close>

definition adapt_ec :: "task_group \<Rightarrow> bool \<Rightarrow> tg_ec \<Rightarrow> tg_ec" where
  "adapt_ec tg cancelled ec0 =
     (let ec1 = (if ec0 = Ec_aborted then Ec_none else ec0);
          ec2 = (if cancelled then Ec_cancelled else ec1) in
      if tg_max tg = 0 then Ec_closed else ec2)"

text \<open>The handler of \<^verbatim>\<open>async_adapt\<close> for the operation \<^verbatim>\<open>i\<close>: wait on the timer, post itself once, or
  complete, which registers the task even when the code is an error.\<close>

definition adapt_handler :: "nat \<Rightarrow> tg_op \<Rightarrow> tg_ec \<Rightarrow> task_group \<Rightarrow> task_group" where
  "adapt_handler i p ec0 tg =
     (let ec = adapt_ec tg (op_cancelled p) ec0 in
      if length (tg_css tg) \<ge> unat (tg_max tg) \<and> ec = Ec_none
      then tg\<lparr>tg_ops := (tg_ops tg)(i \<mapsto> p\<lparr>op_scheduled := True, op_phase := On_timer\<rparr>)\<rparr>
      else if \<not> op_scheduled p
      then tg\<lparr>tg_ops := (tg_ops tg)(i \<mapsto> p\<lparr>op_scheduled := True, op_phase := Posted Ec_none\<rparr>)\<rparr>
      else tg\<lparr>tg_ops := (tg_ops tg)(i := None),
              tg_css := tg_css tg @ [\<lparr>task_id = tg_next tg, task_admitted = (ec = Ec_none),
                task_signalled = False\<rparr>],
              tg_next := tg_next tg + 1,
              tg_done := tg_done tg @ [(i, ec)]\<rparr>)"

definition join_handler :: "nat \<Rightarrow> tg_op \<Rightarrow> task_group \<Rightarrow> task_group" where
  "join_handler i p0 tg0 =
     (let tg = (if op_cancelled p0 then tg_emit tg0 else tg0);
          p = p0\<lparr>op_cancelled := False\<rparr> in
      if tg_css tg \<noteq> []
      then tg\<lparr>tg_ops := (tg_ops tg)(i \<mapsto> p\<lparr>op_scheduled := True, op_phase := On_timer\<rparr>)\<rparr>
      else if \<not> op_scheduled p
      then tg\<lparr>tg_ops := (tg_ops tg)(i \<mapsto> p\<lparr>op_scheduled := True, op_phase := Posted Ec_none\<rparr>)\<rparr>
      else tg\<lparr>tg_ops := (tg_ops tg)(i := None), tg_done := tg_done tg @ [(i, Ec_none)]\<rparr>)"

definition run_handler :: "nat \<Rightarrow> tg_op \<Rightarrow> tg_ec \<Rightarrow> task_group \<Rightarrow> task_group" where
  "run_handler i p ec tg =
     (case op_kind p of Op_adapt \<Rightarrow> adapt_handler i p ec tg | Op_join \<Rightarrow> join_handler i p tg)"

text \<open>Starting an operation runs its handler at once; resuming a posted one runs it again.\<close>

definition tg_start :: "nat \<Rightarrow> op_kind \<Rightarrow> task_group \<Rightarrow> task_group" where
  "tg_start i k tg = run_handler i
     \<lparr>op_kind = k, op_scheduled = False, op_cancelled = False, op_phase = Posted Ec_none\<rparr> Ec_none tg"

definition tg_resume :: "nat \<Rightarrow> task_group \<Rightarrow> task_group" where
  "tg_resume i tg =
     (case tg_ops tg i of
        Some p \<Rightarrow> (case op_phase p of Posted ec \<Rightarrow> run_handler i p ec tg | On_timer \<Rightarrow> tg)
      | None \<Rightarrow> tg)"

text \<open>Cancelling one operation marks it and ends its wait.\<close>

definition tg_cancel :: "nat \<Rightarrow> task_group \<Rightarrow> task_group" where
  "tg_cancel i tg =
     (case tg_ops tg i of
        Some p \<Rightarrow> tg\<lparr>tg_ops := (tg_ops tg)(i \<mapsto> wake_op (p\<lparr>op_cancelled := True\<rparr>))\<rparr>
      | None \<Rightarrow> tg)"

inductive tg_step :: "task_group \<Rightarrow> task_group \<Rightarrow> bool" where
  step_start: "tg_ops tg i = None \<Longrightarrow> tg_step tg (tg_start i k tg)"
| step_resume: "tg_step tg (tg_resume i tg)"
| step_cancel: "tg_step tg (tg_cancel i tg)"
| step_finish: "t \<in> task_id ` set (tg_css tg) \<Longrightarrow> tg_step tg (tg_remove t tg)"
| step_close: "tg_step tg (tg_close tg)"
| step_emit: "tg_step tg (tg_emit tg)"

inductive tg_reachable :: "u32 \<Rightarrow> task_group \<Rightarrow> bool" for mx where
  reach_new: "tg_reachable mx (tg_new mx)"
| reach_step: "tg_reachable mx tg \<Longrightarrow> tg_step tg tg' \<Longrightarrow> tg_reachable mx tg'"

subsection \<open>Invariants\<close>

definition tg_running :: "task_group \<Rightarrow> nat" where
  "tg_running tg = length (filter task_admitted (tg_css tg))"

text \<open>A waiting operation has a reason to wait.\<close>

definition op_blocked :: "task_group \<Rightarrow> tg_op \<Rightarrow> bool" where
  "op_blocked tg p \<longleftrightarrow>
     \<not> op_cancelled p \<and>
     (op_kind p = Op_adapt \<longrightarrow> tg_max tg \<noteq> 0 \<and> length (tg_css tg) \<ge> unat (tg_max tg)) \<and>
     (op_kind p = Op_join \<longrightarrow> tg_css tg \<noteq> [])"

definition tg_inv :: "u32 \<Rightarrow> task_group \<Rightarrow> bool" where
  "tg_inv mx tg \<longleftrightarrow>
     tg_running tg \<le> unat mx \<and> (tg_max tg = mx \<or> tg_max tg = 0) \<and>
     (\<forall>i p. tg_ops tg i = Some p \<and> op_phase p = On_timer \<longrightarrow> op_blocked tg p)"

lemma task_group_errors:
  "ec_failed (task_group_make_error_code e)"
  "task_group_message (task_group_errc_value e) = task_group_message (task_group_errc_value e') \<Longrightarrow> e = e'"
  by (cases e; simp add: task_group_make_error_code_def ec_failed_def)
     (cases e; cases e'; simp add: task_group_message_def)

lemma tg_inv_new: "tg_inv mx (tg_new mx)"
  by (simp add: tg_inv_def tg_new_def tg_running_def)

lemma wake_op_not_waiting [simp]: "op_phase (wake_op p) \<noteq> On_timer"
  by (simp add: wake_op_def split: op_phase.split)

lemma tg_inv_woken:
  assumes "tg_running tg \<le> unat mx" "tg_max tg = mx \<or> tg_max tg = 0"
  shows "tg_inv mx (cv_cancel tg)"
  using assms by (auto simp: tg_inv_def cv_cancel_def tg_running_def)

lemma filter_remove_le: "length (filter P (filter Q xs)) \<le> length (filter P xs)"
  by (induction xs) auto

lemma tg_inv_close: "tg_inv mx tg \<Longrightarrow> tg_inv mx (tg_close tg)"
  unfolding tg_close_def by (rule tg_inv_woken) (simp_all add: tg_inv_def tg_running_def)

lemma tg_inv_remove: "tg_inv mx tg \<Longrightarrow> tg_inv mx (tg_remove t tg)"
  unfolding tg_remove_def
proof (rule tg_inv_woken)
  assume "tg_inv mx tg"
  then show "tg_running (tg\<lparr>tg_css := filter (\<lambda>x. task_id x \<noteq> t) (tg_css tg)\<rparr>) \<le> unat mx"
    using filter_remove_le [of task_admitted "\<lambda>x. task_id x \<noteq> t" "tg_css tg"]
    by (simp add: tg_inv_def tg_running_def)
qed (simp add: tg_inv_def)

lemma tg_emit_running: "tg_running (tg_emit tg) = tg_running tg"
  by (simp add: tg_running_def tg_emit_def filter_map comp_def)

lemma op_blocked_emit: "op_blocked (tg_emit tg) p = op_blocked tg p"
  by (simp add: op_blocked_def tg_emit_def split: op_kind.split)

lemma tg_inv_emit: "tg_inv mx tg \<Longrightarrow> tg_inv mx (tg_emit tg)"
  unfolding tg_inv_def tg_emit_running op_blocked_emit by (auto simp: tg_emit_def)

lemma tg_inv_adapt:
  assumes inv: "tg_inv mx tg" and kind: "op_kind p = Op_adapt"
  shows "tg_inv mx (adapt_handler i p ec tg)"
proof -
  let ?ec = "adapt_ec tg (op_cancelled p) ec"
  have ok: "?ec = Ec_none \<Longrightarrow> tg_max tg \<noteq> 0 \<and> \<not> op_cancelled p"
    by (auto simp: adapt_ec_def Let_def split: if_splits)
  have le: "unat (tg_max tg) \<le> unat mx" using inv by (auto simp: tg_inv_def)
  have blocked: "op_blocked tg q" if "tg_ops tg j = Some q" "op_phase q = On_timer" for j q
    using inv that by (auto simp: tg_inv_def)
  show ?thesis
  proof (cases "length (tg_css tg) \<ge> unat (tg_max tg) \<and> ?ec = Ec_none")
    case True
    then show ?thesis
      using inv blocked kind ok by (auto simp: adapt_handler_def Let_def tg_inv_def tg_running_def op_blocked_def)
  next
    case False
    then have "?ec = Ec_none \<Longrightarrow> length (tg_css tg) < unat (tg_max tg)" by auto
    then have room: "?ec = Ec_none \<Longrightarrow> Suc (length (filter task_admitted (tg_css tg))) \<le> unat (tg_max tg)"
      using length_filter_le [of task_admitted "tg_css tg"] by linarith
    show ?thesis
      using False inv blocked room le
      by (auto simp: adapt_handler_def Let_def tg_inv_def tg_running_def op_blocked_def le_SucI)
  qed
qed

lemma tg_inv_join:
  assumes inv: "tg_inv mx tg0" and kind: "op_kind p = Op_join"
  shows "tg_inv mx (join_handler i p tg0)"
proof -
  define tg where "tg = (if op_cancelled p then tg_emit tg0 else tg0)"
  have inv: "tg_inv mx tg" using assms(1) tg_inv_emit by (simp add: tg_def)
  then show ?thesis
    unfolding join_handler_def Let_def tg_def [symmetric]
    using kind by (auto simp: tg_inv_def tg_running_def op_blocked_def split: op_kind.splits)
qed

lemma tg_inv_run: "tg_inv mx tg \<Longrightarrow> tg_inv mx (run_handler i p ec tg)"
  by (cases "op_kind p") (simp_all add: run_handler_def tg_inv_adapt tg_inv_join)

lemma tg_inv_cancel: "tg_inv mx tg \<Longrightarrow> tg_inv mx (tg_cancel i tg)"
  by (auto simp: tg_cancel_def tg_inv_def tg_running_def op_blocked_def split: option.splits op_kind.splits)

lemma tg_inv_step: "tg_step tg tg' \<Longrightarrow> tg_inv mx tg \<Longrightarrow> tg_inv mx tg'"
  by (induction rule: tg_step.induct)
     (auto simp: tg_start_def tg_resume_def tg_inv_run tg_inv_cancel tg_inv_remove tg_inv_close tg_inv_emit
       split: option.splits op_phase.splits)

lemma tg_reachable_inv: "tg_reachable mx tg \<Longrightarrow> tg_inv mx tg"
  by (induction rule: tg_reachable.induct) (auto intro: tg_inv_new tg_inv_step)

text \<open>
  The group never runs more tasks than it was created for: in every state that starts,
  resumptions, cancellations, completions and closings can lead to, the number of admitted
  tasks that have not finished is at most the initial maximum.
\<close>

theorem task_group_limit:
  assumes "tg_reachable mx tg"
  shows "length (filter task_admitted (tg_css tg)) \<le> unat mx"
  using tg_reachable_inv [OF assms] by (simp add: tg_inv_def tg_running_def)

theorem task_group_limit_witness:
  "length (filter task_admitted (tg_css (tg_resume 0 (tg_start 0 Op_adapt (tg_new 1))))) \<le> unat (1 :: u32) \<and>
   length (tg_css (tg_resume 0 (tg_start 0 Op_adapt (tg_new 1)))) = 1"
proof -
  have "tg_step (tg_new 1) (tg_start 0 Op_adapt (tg_new 1))"
    by (rule step_start) (simp add: tg_new_def)
  from reach_step [OF reach_step [OF reach_new this] step_resume]
  have "tg_reachable 1 (tg_resume 0 (tg_start 0 Op_adapt (tg_new 1)))" .
  from task_group_limit [OF this] show ?thesis
    by (simp add: tg_resume_def tg_start_def run_handler_def adapt_handler_def adapt_ec_def tg_new_def Let_def)
qed

text \<open>
  No wake-up is lost: an operation waits on the timer only while it has to.  In every
  reachable state a waiting request for a slot finds the group open and full, a waiting join
  finds a task running, and neither has been cancelled; so once a slot is free, the group
  closed or the operation cancelled, it has been posted again.  Resuming a posted request
  that was scheduled before then completes it: with its task admitted when there is room,
  with the error when the group is closed.
\<close>

theorem task_group_no_lost_wakeup:
  assumes "tg_reachable mx tg" and "tg_ops tg i = Some p"
  shows "(op_phase p = On_timer \<longrightarrow>
      \<not> op_cancelled p \<and>
      (op_kind p = Op_adapt \<longrightarrow> tg_max tg \<noteq> 0 \<and> unat (tg_max tg) \<le> length (tg_css tg)) \<and>
      (op_kind p = Op_join \<longrightarrow> tg_css tg \<noteq> [])) \<and>
    (\<forall>ec. op_phase p = Posted ec \<and> ec \<noteq> Ec_cancelled \<and> ec \<noteq> Ec_closed \<and> op_kind p = Op_adapt \<and>
        op_scheduled p \<and> \<not> op_cancelled p \<longrightarrow>
      (if tg_max tg = 0 then last (tg_done (tg_resume i tg)) = (i, Ec_closed)
       else if length (tg_css tg) < unat (tg_max tg)
       then last (tg_done (tg_resume i tg)) = (i, Ec_none) \<and>
         task_admitted (last (tg_css (tg_resume i tg)))
       else \<exists>q. tg_ops (tg_resume i tg) i = Some q \<and> op_phase q = On_timer))"
proof (intro conjI allI impI)
  assume "op_phase p = On_timer"
  then have b: "op_blocked tg p" using tg_reachable_inv [OF assms(1)] assms(2) by (auto simp: tg_inv_def)
  show "\<not> op_cancelled p" "op_kind p = Op_join \<Longrightarrow> tg_css tg \<noteq> []"
    "op_kind p = Op_adapt \<Longrightarrow> tg_max tg \<noteq> 0" "op_kind p = Op_adapt \<Longrightarrow> unat (tg_max tg) \<le> length (tg_css tg)"
    using b by (simp_all add: op_blocked_def)
next
  fix ec
  assume a: "op_phase p = Posted ec \<and> ec \<noteq> Ec_cancelled \<and> ec \<noteq> Ec_closed \<and> op_kind p = Op_adapt \<and>
        op_scheduled p \<and> \<not> op_cancelled p"
  then have "adapt_ec tg (op_cancelled p) ec = (if tg_max tg = 0 then Ec_closed else Ec_none)"
    by (cases ec) (auto simp: adapt_ec_def)
  then show "if tg_max tg = 0 then last (tg_done (tg_resume i tg)) = (i, Ec_closed)
       else if length (tg_css tg) < unat (tg_max tg)
       then last (tg_done (tg_resume i tg)) = (i, Ec_none) \<and>
         task_admitted (last (tg_css (tg_resume i tg)))
       else \<exists>q. tg_ops (tg_resume i tg) i = Some q \<and> op_phase q = On_timer"
    using a assms(2) by (simp add: tg_resume_def run_handler_def adapt_handler_def Let_def)
qed

theorem task_group_no_lost_wakeup_witness:
  "last (tg_done (tg_resume 0 (tg_start 0 Op_adapt (tg_new 1)))) = (0, Ec_none)"
proof -
  let ?tg = "tg_start 0 Op_adapt (tg_new 1)"
  let ?p = "\<lparr>op_kind = Op_adapt, op_scheduled = True, op_cancelled = False, op_phase = Posted Ec_none\<rparr>"
  have r: "tg_reachable 1 ?tg"
    by (intro reach_step [OF reach_new] step_start) (simp add: tg_new_def)
  have p: "tg_ops ?tg 0 = Some ?p"
    by (simp add: tg_start_def run_handler_def adapt_handler_def adapt_ec_def tg_new_def Let_def)
  have "tg_max ?tg = 1" "tg_css ?tg = []"
    by (simp_all add: tg_start_def run_handler_def adapt_handler_def adapt_ec_def tg_new_def Let_def)
  with task_group_no_lost_wakeup [OF r p] show ?thesis by simp
qed

end
