(* ===== verification/Http_Worker.thy ===== *)
theory Http_Worker
  imports Url_Grammar
begin

text \<open>
  The server side of the library: the request loop of \<^verbatim>\<open>http_worker\<close> and the workers of
  \<^verbatim>\<open>http_server\<close> and \<^verbatim>\<open>https_server\<close> (\<^verbatim>\<open>http_worker.cpp\<close>, \<^verbatim>\<open>http_server.cpp\<close>,
  \<^verbatim>\<open>https_server.cpp\<close>).  Boost.Http, Boost.URL and the sockets are outside the repository: the
  response object's operations, the URL parser and the router's dispatch are parameters, and a
  session runs over the sequence of results that reading a request header will have.  What
  a worker does in an order that matters is recorded as a list of events.
\<close>

datatype parser_state = Parser_idle | Parser_started | Parser_has_header

record http_request =
  rq_method :: string
  rq_target :: string
  rq_version :: nat
  rq_keep_alive :: bool
  rq_fields :: "(string \<times> string) list"

text \<open>The operations of the response object the loop calls.\<close>

record 'res response_ops =
  ro_set_start_line :: "nat \<Rightarrow> nat \<Rightarrow> 'res \<Rightarrow> 'res"
  ro_set_keep_alive :: "bool \<Rightarrow> 'res \<Rightarrow> 'res"
  ro_keep_alive :: "'res \<Rightarrow> bool"
  ro_set_status :: "nat \<Rightarrow> 'res \<Rightarrow> 'res"

text \<open>\<^verbatim>\<open>http::route_params\<close>: what a route handler sees.\<close>

record ('url, 'res, 'd) route_params =
  rp_req :: http_request
  rp_url :: "'url option"
  rp_res :: 'res
  rp_route_data :: "'d list"
  rp_session_data :: "'d list"

record ('url, 'res, 'd) http_worker =
  w_rp :: "('url, 'res, 'd) route_params"
  w_parser :: parser_state
  w_serializer_fresh :: bool
  w_cerr :: "string list"

definition request_blank :: http_request where
  "request_blank = \<lparr>rq_method = [], rq_target = [], rq_version = 11, rq_keep_alive = True, rq_fields = []\<rparr>"

definition http_worker_new :: "'res \<Rightarrow> ('url, 'res, 'd) http_worker" where
  "http_worker_new res =
     \<lparr>w_rp = \<lparr>rp_req = request_blank, rp_url = None, rp_res = res, rp_route_data = [], rp_session_data = []\<rparr>,
      w_parser = Parser_idle, w_serializer_fresh = True, w_cerr = []\<rparr>"

text \<open>\<^verbatim>\<open>parser.reset(); parser.start(); rp.session_data.clear()\<close>: the start of a turn, and what
  the guard's destructor does.\<close>

definition clear_things :: "('url, 'res, 'd) http_worker \<Rightarrow> ('url, 'res, 'd) http_worker" where
  "clear_things w = w\<lparr>w_parser := Parser_started, w_rp := (w_rp w)\<lparr>rp_session_data := []\<rparr>\<rparr>"

definition prepare ::
    "'res response_ops \<Rightarrow> http_request \<Rightarrow> ('url, 'res, 'd) http_worker \<Rightarrow> ('url, 'res, 'd) http_worker" where
  "prepare ops req w =
     w\<lparr>w_parser := Parser_has_header, w_serializer_fresh := True,
       w_rp := (w_rp w)\<lparr>rp_req := req, rp_route_data := [],
         rp_res := ro_set_keep_alive ops (rq_keep_alive req)
                     (ro_set_start_line ops 200 (rq_version req) (rp_res (w_rp w)))\<rparr>\<rparr>"

text \<open>How a session stops: the loop ends, an exception leaves it, or it waits for input that
  the sequence of read results does not have yet.\<close>

datatype session_end = Ended | Threw exn | Waiting

text \<open>The router: given the parameters it says whether dispatching failed and what became of
  them.\<close>

type_synonym ('url, 'res, 'd) router =
  "string \<Rightarrow> 'url \<Rightarrow> ('url, 'res, 'd) route_params \<Rightarrow> bool \<times> ('url, 'res, 'd) route_params"

type_synonym read_result = "string + http_request"

fun session_loop ::
    "'res response_ops \<Rightarrow> (string \<Rightarrow> gerror + 'url) \<Rightarrow> ('url, 'res, 'd) router \<Rightarrow> read_result list \<Rightarrow>
     ('url, 'res, 'd) http_worker \<Rightarrow>
     session_end \<times> ('url, 'res, 'd) route_params list \<times> ('url, 'res, 'd) http_worker" where
  "session_loop ops parse_uri dispatch [] w = (Waiting, [], clear_things w)"
| "session_loop ops parse_uri dispatch (Inl msg # rest) w =
     (Ended, [], (clear_things w)\<lparr>w_cerr := w_cerr w @ [''read_header error: '' @ msg]\<rparr>)"
| "session_loop ops parse_uri dispatch (Inr req # rest) w0 =
     (let w = prepare ops req (clear_things w0) in
      case parse_uri (rq_target req) of
        Inl e \<Rightarrow>
          (Threw (system_error ''result::value''), [],
           w\<lparr>w_rp := (w_rp w)\<lparr>rp_res := ro_set_status ops 400 (rp_res (w_rp w))\<rparr>\<rparr>)
      | Inr url \<Rightarrow>
          let rp = (w_rp w)\<lparr>rp_url := Some url\<rparr> in
          (case dispatch (rq_method req) url rp of
             (failed, rp') \<Rightarrow>
               let w' = w\<lparr>w_rp := rp'\<rparr> in
               if failed then (Ended, [rp], w')
               else if \<not> ro_keep_alive ops (rp_res rp') then (Ended, [rp], w')
               else
                 (case session_loop ops parse_uri dispatch rest w' of
                    (e, seen, w'') \<Rightarrow> (e, rp # seen, w''))))"

definition do_http_session ::
    "'res response_ops \<Rightarrow> (string \<Rightarrow> gerror + 'url) \<Rightarrow> ('url, 'res, 'd) router \<Rightarrow> read_result list \<Rightarrow>
     ('url, 'res, 'd) http_worker \<Rightarrow>
     session_end \<times> ('url, 'res, 'd) route_params list \<times> ('url, 'res, 'd) http_worker" where
  "do_http_session ops parse_uri dispatch reads w =
     (case session_loop ops parse_uri dispatch reads w of
        (e, seen, w') \<Rightarrow> (e, seen, if e = Waiting then w' else clear_things w'))"

subsection \<open>The servers' workers\<close>

datatype 'rp worker_event =
    Ev_tls_create | Ev_handshake | Ev_wire | Ev_session "'rp list" | Ev_tls_shutdown | Ev_tls_reset
  | Ev_tcp_shutdown

text \<open>\<^verbatim>\<open>http_server::worker::do_session\<close>.\<close>

definition http_do_session ::
    "'res response_ops \<Rightarrow> (string \<Rightarrow> gerror + 'url) \<Rightarrow> ('url, 'res, 'd) router \<Rightarrow> read_result list \<Rightarrow>
     ('url, 'res, 'd) http_worker \<Rightarrow>
     session_end \<times> ('url, 'res, 'd) route_params worker_event list \<times> ('url, 'res, 'd) http_worker" where
  "http_do_session ops parse_uri dispatch reads w =
     (case do_http_session ops parse_uri dispatch reads w of
        (e, seen, w') \<Rightarrow>
          (e, Ev_session seen # (if e = Ended then [Ev_tcp_shutdown] else []), w'))"

text \<open>\<^verbatim>\<open>https_server::worker::do_session\<close>: the handshake's error message (if any) comes first;
  a TLS shutdown error is ignored.\<close>

definition https_do_session ::
    "'res response_ops \<Rightarrow> (string \<Rightarrow> gerror + 'url) \<Rightarrow> ('url, 'res, 'd) router \<Rightarrow>
     string option \<Rightarrow> string option \<Rightarrow> read_result list \<Rightarrow>
     ('url, 'res, 'd) http_worker \<Rightarrow>
     session_end \<times> ('url, 'res, 'd) route_params worker_event list \<times> ('url, 'res, 'd) http_worker" where
  "https_do_session ops parse_uri dispatch hs_ec shut_ec reads w =
     (case hs_ec of
        Some msg \<Rightarrow>
          (Ended, [Ev_tls_create, Ev_handshake, Ev_tcp_shutdown, Ev_tls_reset],
           w\<lparr>w_cerr := w_cerr w @ [''TLS handshake error: '' @ msg]\<rparr>)
      | None \<Rightarrow>
          (case do_http_session ops parse_uri dispatch reads w of
             (e, seen, w') \<Rightarrow>
               (e, [Ev_tls_create, Ev_handshake, Ev_wire, Ev_session seen] @
                   (if e = Ended then [Ev_tls_shutdown, Ev_tls_reset, Ev_tcp_shutdown] else []), w')))"

subsection \<open>Requests do not see one another\<close>

text \<open>The requests a session gets to dispatch are a prefix of those read.\<close>

fun requests_of :: "read_result list \<Rightarrow> http_request list" where
  "requests_of [] = []"
| "requests_of (Inl _ # rs) = []"
| "requests_of (Inr q # rs) = q # requests_of rs"

definition fresh_params :: "(string \<Rightarrow> gerror + 'url) \<Rightarrow> http_request \<Rightarrow> ('url, 'res, 'd) route_params \<Rightarrow> bool" where
  "fresh_params parse_uri req rp \<longleftrightarrow>
     rp_req rp = req \<and> rp_route_data rp = [] \<and> rp_session_data rp = [] \<and>
     (\<exists>url. parse_uri (rq_target req) = Inr url \<and> rp_url rp = Some url)"

lemma session_loop_fresh:
  "session_loop ops parse_uri dispatch reads w = (e, seen, w') \<Longrightarrow>
   length seen \<le> length (requests_of reads) \<and>
   list_all2 (fresh_params parse_uri) (take (length seen) (requests_of reads)) seen"
proof (induction ops parse_uri dispatch reads w arbitrary: e seen w' rule: session_loop.induct)
  case (3 ops parse_uri dispatch req rest w0)
  let ?w = "prepare ops req (clear_things w0)"
  show ?case
  proof (cases "parse_uri (rq_target req)")
    case (Inl er)
    then show ?thesis using "3.prems" by (auto simp: Let_def)
  next
    case (Inr url)
    let ?rp = "(w_rp ?w)\<lparr>rp_url := Some url\<rparr>"
    have fr: "fresh_params parse_uri req ?rp"
      using Inr by (simp add: fresh_params_def prepare_def clear_things_def)
    obtain failed rp' where d: "dispatch (rq_method req) url ?rp = (failed, rp')"
      by (cases "dispatch (rq_method req) url ?rp")
    show ?thesis
    proof (cases "failed \<or> \<not> ro_keep_alive ops (rp_res rp')")
      case True
      then have "seen = [?rp]" using "3.prems" Inr d by (auto simp: Let_def split: if_splits)
      then show ?thesis using fr by simp
    next
      case False
      obtain e1 seen1 w1 where l: "session_loop ops parse_uri dispatch rest (?w\<lparr>w_rp := rp'\<rparr>) = (e1, seen1, w1)"
        by (cases "session_loop ops parse_uri dispatch rest (?w\<lparr>w_rp := rp'\<rparr>)")
      have seen: "seen = ?rp # seen1" using "3.prems" Inr d False l by (simp add: Let_def)
      have "length seen1 \<le> length (requests_of rest) \<and>
          list_all2 (fresh_params parse_uri) (take (length seen1) (requests_of rest)) seen1"
        by (rule "3.IH" [OF refl Inr refl d [symmetric] refl _ _ l]) (use False in auto)
      then show ?thesis using fr seen by simp
    qed
  qed
qed auto

text \<open>
  Requests of one connection are isolated: whatever the handlers store, each dispatch of a
  session gets the parameters of its own request, its parsed URL, and empty route and session
  data, in the order of reading; and when the session is over, normally or by an exception,
  the parser has been restarted and the session data is gone, so the worker is ready for the
  next connection.
\<close>

theorem http_session_isolated:
  assumes "do_http_session ops parse_uri dispatch reads w = (e, seen, w')"
  shows "length seen \<le> length (requests_of reads) \<and>
    list_all2 (fresh_params parse_uri) (take (length seen) (requests_of reads)) seen \<and>
    (e \<noteq> Waiting \<longrightarrow> w_parser w' = Parser_started \<and> rp_session_data (w_rp w') = [])"
proof -
  obtain e1 seen1 w1 where l: "session_loop ops parse_uri dispatch reads w = (e1, seen1, w1)"
    by (cases "session_loop ops parse_uri dispatch reads w")
  then have "e = e1" "seen = seen1" "w' = (if e1 = Waiting then w1 else clear_things w1)"
    using assms by (auto simp: do_http_session_def)
  then show ?thesis using session_loop_fresh [OF l] by (simp add: clear_things_def)
qed

definition ex_ops :: "bool response_ops" where
  "ex_ops = \<lparr>ro_set_start_line = (\<lambda>_ _ r. r), ro_set_keep_alive = (\<lambda>k _. k), ro_keep_alive = id,
     ro_set_status = (\<lambda>_ r. r)\<rparr>"

theorem http_session_isolated_witness:
  "map rp_session_data (fst (snd (do_http_session ex_ops Inr
     (\<lambda>m u rp. (False, rp\<lparr>rp_session_data := [m]\<rparr>)) [Inr request_blank, Inr request_blank, Inl ''eof'']
     (http_worker_new True)))) = [[], []]"
proof -
  let ?r = "do_http_session ex_ops Inr (\<lambda>m u rp. (False, rp\<lparr>rp_session_data := [m]\<rparr>))
    [Inr request_blank, Inr request_blank, Inl ''eof''] (http_worker_new True)"
  obtain e seen w' where r: "?r = (e, seen, w')" by (cases ?r)
  have "length seen = 2"
    using r by (auto simp: do_http_session_def ex_ops_def prepare_def clear_things_def request_blank_def Let_def)
  moreover have "list_all2 (fresh_params Inr) (take (length seen) [request_blank, request_blank]) seen"
    using http_session_isolated [OF r] by simp
  ultimately show ?thesis
    using r by (auto simp: fresh_params_def list_all2_Cons1 numeral_2_eq_2)
qed

text \<open>
  A request whose target does not parse as a URL reference gets no answer: the status 400
  is set, but nothing is dispatched and the session ends with the exception that reading the
  missing value throws; the socket is then not shut down either.
\<close>

theorem bad_target_throws:
  assumes "parse_uri (rq_target req) = Inl er"
  shows "fst (do_http_session ops parse_uri dispatch (Inr req # rest) w) = Threw (system_error ''result::value'') \<and>
    fst (snd (do_http_session ops parse_uri dispatch (Inr req # rest) w)) = [] \<and>
    fst (snd (http_do_session ops parse_uri dispatch (Inr req # rest) w)) = [Ev_session []]"
  using assms by (simp add: do_http_session_def http_do_session_def Let_def)

theorem bad_target_throws_witness:
  "fst (do_http_session ex_ops (\<lambda>u. Inl err_mismatch :: gerror + string) (\<lambda>m u rp. (False, rp))
     [Inr request_blank] (http_worker_new True :: (string, bool, string) http_worker)) =
   Threw (system_error ''result::value'')"
  using bad_target_throws [of "\<lambda>u. Inl err_mismatch :: gerror + string" request_blank err_mismatch
      ex_ops "\<lambda>m u rp. (False, rp)" "[]" "http_worker_new True :: (string, bool, string) http_worker"]
  by simp

text \<open>
  The life of a TLS connection: no request is read before a successful handshake; a
  session that ends shuts TLS down before it drops the TLS stream and shuts the socket down
  after that, exactly once; a failed handshake shuts the socket down and serves nothing.
\<close>

theorem https_session_lifecycle:
  "https_do_session ops parse_uri dispatch hs_ec shut_ec reads w = (e, evs, w') \<longrightarrow>
     (hs_ec \<noteq> None \<longrightarrow> e = Ended \<and> (\<forall>s. Ev_session s \<notin> set evs) \<and> Ev_tcp_shutdown \<in> set evs \<and>
        w_rp w' = w_rp w) \<and>
     (hs_ec = None \<longrightarrow> (\<exists>seen. evs = [Ev_tls_create, Ev_handshake, Ev_wire, Ev_session seen] @
        (if e = Ended then [Ev_tls_shutdown, Ev_tls_reset, Ev_tcp_shutdown] else []) \<and>
        (e, seen, w') = do_http_session ops parse_uri dispatch reads w)) \<and>
     length (filter (\<lambda>v. v = Ev_tcp_shutdown) evs) = (if e = Ended then 1 else 0)"
  by (cases hs_ec) (auto simp: https_do_session_def split: prod.splits)

theorem https_session_lifecycle_witness:
  "https_do_session ex_ops Inr (\<lambda>m u rp. (False, rp)) (Some ''bad'') None []
      (http_worker_new True :: (string, bool, string) http_worker) =
    (Ended, [Ev_tls_create, Ev_handshake, Ev_tcp_shutdown, Ev_tls_reset],
      (http_worker_new True)\<lparr>w_cerr := [''TLS handshake error: bad'']\<rparr>) \<and>
   (\<forall>s. Ev_session s \<notin> set ([Ev_tls_create, Ev_handshake, Ev_tcp_shutdown, Ev_tls_reset] ::
      (string, bool, string) route_params worker_event list))"
proof -
  have r: "https_do_session ex_ops Inr (\<lambda>m u rp. (False, rp)) (Some ''bad'') None []
      (http_worker_new True :: (string, bool, string) http_worker) =
    (Ended, [Ev_tls_create, Ev_handshake, Ev_tcp_shutdown, Ev_tls_reset],
      (http_worker_new True)\<lparr>w_cerr := [''TLS handshake error: bad'']\<rparr>)"
    by (simp add: https_do_session_def http_worker_new_def)
  from https_session_lifecycle [THEN mp, OF r] r show ?thesis by simp
qed

end
