(* ===== verification/Http_Message.thy ===== *)
theory Http_Message
  imports Url_View
begin

text \<open>
  HTTP requests and the message bodies of the burl client (\<^verbatim>\<open>message.hpp\<close>, \<^verbatim>\<open>message.cpp\<close>).  The
  request object is \<^verbatim>\<open>boost::http::request\<close>, which the repository only uses: its operations are
  the fields of a record the definitions take as an argument, and the locale \<open>http_message\<close>
  states what the library documents about them (a field set is found, under any spelling of its
  name, until it is erased; the start line and the fields do not interfere).
\<close>

datatype http_version = http_1_0 | http_1_1

record 'rq request_ops =
  q_new :: 'rq
  q_method :: "'rq \<Rightarrow> string"
  q_version :: "'rq \<Rightarrow> http_version"
  q_target :: "'rq \<Rightarrow> string"
  q_find :: "string \<Rightarrow> 'rq \<Rightarrow> string option"
  q_set_method :: "string \<Rightarrow> 'rq \<Rightarrow> 'rq"
  q_set_version :: "http_version \<Rightarrow> 'rq \<Rightarrow> 'rq"
  q_set_target :: "string \<Rightarrow> 'rq \<Rightarrow> 'rq"
  q_set :: "string \<Rightarrow> string \<Rightarrow> 'rq \<Rightarrow> 'rq"
  q_erase :: "string \<Rightarrow> 'rq \<Rightarrow> 'rq"
  q_set_content_length :: "nat \<Rightarrow> 'rq \<Rightarrow> 'rq"
  q_append :: "string \<Rightarrow> string \<Rightarrow> 'rq \<Rightarrow> 'rq"

locale http_message =
  fixes ops :: "'rq request_ops"
  assumes find_new: "q_find ops f (q_new ops) = None"
    and find_set: "q_find ops f (q_set ops g v r) = (if ci_equal f g then Some v else q_find ops f r)"
    and find_erase: "q_find ops f (q_erase ops g r) = (if ci_equal f g then None else q_find ops f r)"
    and find_length: "q_find ops f (q_set_content_length ops n r) =
      (if ci_equal f ''Content-Length'' then Some (show_nat n) else q_find ops f r)"
    and find_append: "q_find ops f (q_append ops g v r) =
      (case q_find ops f r of Some w \<Rightarrow> Some w | None \<Rightarrow> if ci_equal f g then Some v else None)"
    and find_method: "q_find ops f (q_set_method ops m r) = q_find ops f r"
    and find_version: "q_find ops f (q_set_version ops ver r) = q_find ops f r"
    and find_target: "q_find ops f (q_set_target ops t r) = q_find ops f r"
    and method_set_method: "q_method ops (q_set_method ops m r) = m"
    and method_other: "q_method ops (q_set_version ops ver r) = q_method ops r"
      "q_method ops (q_set_target ops t r) = q_method ops r"
      "q_method ops (q_set ops f w r) = q_method ops r"
      "q_method ops (q_erase ops f r) = q_method ops r"
      "q_method ops (q_set_content_length ops n r) = q_method ops r"
      "q_method ops (q_append ops f w r) = q_method ops r"
    and version_set_version: "q_version ops (q_set_version ops ver r) = ver"
    and version_other: "q_version ops (q_set_method ops m r) = q_version ops r"
      "q_version ops (q_set_target ops t r) = q_version ops r"
      "q_version ops (q_set ops f w r) = q_version ops r"
      "q_version ops (q_erase ops f r) = q_version ops r"
      "q_version ops (q_set_content_length ops n r) = q_version ops r"
      "q_version ops (q_append ops f w r) = q_version ops r"
    and target_set_target: "q_target ops (q_set_target ops t r) = t"
    and target_other: "q_target ops (q_set_method ops m r) = q_target ops r"
      "q_target ops (q_set_version ops ver r) = q_target ops r"
      "q_target ops (q_set ops f w r) = q_target ops r"
      "q_target ops (q_erase ops f r) = q_target ops r"
      "q_target ops (q_set_content_length ops n r) = q_target ops r"
      "q_target ops (q_append ops f w r) = q_target ops r"
begin

lemmas find_laws = find_new find_set find_erase find_length find_append find_method find_version find_target
lemmas method_laws = method_set_method method_other
lemmas version_laws = version_set_version version_other
lemmas target_laws = target_set_target target_other

end

subsection \<open>A reference request\<close>

text \<open>A start line and a list of fields satisfy the laws.\<close>

record ref_request =
  rr_method :: string
  rr_version :: http_version
  rr_target :: string
  rr_fields :: "(string \<times> string) list"

fun rr_lookup :: "string \<Rightarrow> (string \<times> string) list \<Rightarrow> string option" where
  "rr_lookup f [] = None"
| "rr_lookup f ((g, v) # fs) = (if ci_equal f g then Some v else rr_lookup f fs)"

definition rr_delete :: "string \<Rightarrow> (string \<times> string) list \<Rightarrow> (string \<times> string) list" where
  "rr_delete f fs = filter (\<lambda>(g, _). \<not> ci_equal f g) fs"

lemma rr_lookup_delete:
  "rr_lookup f (rr_delete g fs) = (if ci_equal f g then None else rr_lookup f fs)"
proof (induction fs)
  case (Cons x fs)
  obtain h v where x: "x = (h, v)" by (cases x)
  have "ci_equal f g \<Longrightarrow> ci_equal g h = ci_equal f h" using ci_equal_trans [of f g h] by simp
  moreover have "ci_equal g h \<Longrightarrow> ci_equal f h = ci_equal f g"
    using ci_equal_trans [of g h f] ci_equal_sym by blast
  ultimately show ?case using Cons by (auto simp: rr_delete_def x)
qed (simp add: rr_delete_def)

lemma rr_lookup_append:
  "rr_lookup f (fs @ [(g, v)]) =
     (case rr_lookup f fs of Some w \<Rightarrow> Some w | None \<Rightarrow> if ci_equal f g then Some v else None)"
  by (induction fs) auto

definition ref_ops :: "ref_request request_ops" where
  "ref_ops = \<lparr>q_new = \<lparr>rr_method = ''GET'', rr_version = http_1_1, rr_target = ''/'', rr_fields = []\<rparr>,
     q_method = rr_method, q_version = rr_version, q_target = rr_target,
     q_find = (\<lambda>f r. rr_lookup f (rr_fields r)),
     q_set_method = (\<lambda>m r. r\<lparr>rr_method := m\<rparr>), q_set_version = (\<lambda>v r. r\<lparr>rr_version := v\<rparr>),
     q_set_target = (\<lambda>t r. r\<lparr>rr_target := t\<rparr>),
     q_set = (\<lambda>f v r. r\<lparr>rr_fields := (f, v) # rr_fields r\<rparr>),
     q_erase = (\<lambda>f r. r\<lparr>rr_fields := rr_delete f (rr_fields r)\<rparr>),
     q_set_content_length = (\<lambda>n r. r\<lparr>rr_fields := (''Content-Length'', show_nat n) # rr_fields r\<rparr>),
     q_append = (\<lambda>f v r. r\<lparr>rr_fields := rr_fields r @ [(f, v)]\<rparr>)\<rparr>"

interpretation refmsg: http_message ref_ops
  by unfold_locales (simp_all add: ref_ops_def rr_lookup_delete rr_lookup_append)

subsection \<open>Message bodies\<close>

text \<open>\<^verbatim>\<open>message\<close> is empty or holds a \<^verbatim>\<open>string_body\<close>.\<close>

datatype message = No_body | String_body (sb_body: string) (sb_content_type: string)

definition sb_method :: string where
  "sb_method = ''POST''"

definition sb_content_length :: "string \<Rightarrow> nat" where
  "sb_content_length body = length body"

definition set_headers :: "'rq request_ops \<Rightarrow> message \<Rightarrow> 'rq \<Rightarrow> 'rq" where
  "set_headers ops msg request =
     (case msg of
        No_body \<Rightarrow> request
      | String_body body content_type \<Rightarrow>
          let r1 = q_set_method ops sb_method request;
              r2 = q_set ops ''Content-Type'' content_type r1;
              n = sb_content_length body;
              r3 = q_set_content_length ops n r2 in
          if n \<ge> 1024 * 1024 \<and> q_version ops r3 = http_1_1 then q_set ops ''Expect'' ''100-continue'' r3
          else r3)"

text \<open>What is handed to the serializer: the request and the body.\<close>

definition start_serializer :: "message \<Rightarrow> 'rq \<Rightarrow> 'rq \<times> string option" where
  "start_serializer msg request =
     (case msg of No_body \<Rightarrow> (request, None) | String_body body _ \<Rightarrow> (request, Some body))"

subsection \<open>Responses\<close>

text \<open>What the programs read of a response.\<close>

record response =
  rsp_status :: nat
  rsp_http11 :: bool
  rsp_close :: bool
  rsp_location :: "string option"
  rsp_set_cookies :: "string list"
  rsp_content_range :: bool
  rsp_payload_size :: "u64 option"
  rsp_buffer :: string
  rsp_dispositions :: "string list"

end
