(* ===== verification/Burl_Config.thy ===== *)
theory Burl_Config
  imports Http_Message
begin

text \<open>
  The configuration of a burl run (\<^verbatim>\<open>options.hpp\<close>).  Durations are nanosecond counts, file system
  paths and header lists are strings and lists of pairs, the two URL rewriting callbacks are
  functions that may throw.
\<close>

definition duration_max :: int where
  "duration_max = 2 ^ 63 - 1"

type_synonym url_rewrite = "url_view \<Rightarrow> exn + url_view"

record operation_config =
  oc_timeout :: int
  oc_expect100timeout :: int
  oc_connect_timeout :: int
  oc_retry_delay :: "int option"
  oc_retry_maxtime :: "int option"
  oc_disallow_username_in_url :: bool
  oc_recvpersecond :: "u64 option"
  oc_sendpersecond :: "u64 option"
  oc_encoding :: bool
  oc_create_dirs :: bool
  oc_maxredirs :: u64
  oc_max_filesize :: u64
  oc_tcp_nodelay :: bool
  oc_req_retry :: u64
  oc_parallel_max :: u16
  oc_retry_connrefused :: bool
  oc_retry_all_errors :: bool
  oc_nokeepalive :: bool
  oc_post301 :: bool
  oc_post302 :: bool
  oc_post303 :: bool
  oc_proto_redir :: "scheme list"
  oc_unix_socket_path :: string
  oc_connect_to :: "url_rewrite option"
  oc_resolve_to :: "url_rewrite option"
  oc_http10 :: bool
  oc_http11 :: bool
  oc_ipv4 :: bool
  oc_ipv6 :: bool
  oc_useragent :: "string option"
  oc_userpwd :: "string option"
  oc_enable_cookies :: bool
  oc_cookies :: "string list"
  oc_cookiefiles :: "string list"
  oc_cookiejar :: string
  oc_resume_from :: "u64 option"
  oc_resume_from_current :: bool
  oc_headerfile :: string
  oc_referer :: url_view
  oc_autoreferer :: bool
  oc_failonerror :: bool
  oc_failearly :: bool
  oc_failwithbody :: bool
  oc_rm_partial :: bool
  oc_use_httpget :: bool
  oc_request_target :: "string option"
  oc_headers :: "(string \<times> string) list"
  oc_omitheaders :: "string list"
  oc_show_headers :: bool
  oc_cookiesession :: bool
  oc_no_body :: bool
  oc_content_disposition :: bool
  oc_unrestricted_auth :: bool
  oc_followlocation :: bool
  oc_nobuffer :: bool
  oc_globoff :: bool
  oc_noprogress :: bool
  oc_skip_existing :: bool
  oc_terminal_binary_ok :: bool
  oc_output_dir :: string
  oc_range :: "string option"
  oc_proxy :: url_view
  oc_customrequest :: "string option"
  oc_query :: string
  oc_msg :: message

definition operation_config_default :: operation_config where
  "operation_config_default = \<lparr>
     oc_timeout = duration_max, oc_expect100timeout = 10 ^ 9, oc_connect_timeout = duration_max,
     oc_retry_delay = None, oc_retry_maxtime = None, oc_disallow_username_in_url = False,
     oc_recvpersecond = None, oc_sendpersecond = None, oc_encoding = False, oc_create_dirs = False,
     oc_maxredirs = 50, oc_max_filesize = - 1, oc_tcp_nodelay = True, oc_req_retry = 0,
     oc_parallel_max = 1, oc_retry_connrefused = False, oc_retry_all_errors = False,
     oc_nokeepalive = False, oc_post301 = False, oc_post302 = False, oc_post303 = False,
     oc_proto_redir = [scheme_http, scheme_https], oc_unix_socket_path = [], oc_connect_to = None,
     oc_resolve_to = None, oc_http10 = False, oc_http11 = True, oc_ipv4 = False, oc_ipv6 = False,
     oc_useragent = None, oc_userpwd = None, oc_enable_cookies = False, oc_cookies = [],
     oc_cookiefiles = [], oc_cookiejar = [], oc_resume_from = None, oc_resume_from_current = False,
     oc_headerfile = [], oc_referer = url_blank, oc_autoreferer = False, oc_failonerror = False,
     oc_failearly = False, oc_failwithbody = False, oc_rm_partial = False, oc_use_httpget = False,
     oc_request_target = None, oc_headers = [], oc_omitheaders = [], oc_show_headers = False,
     oc_cookiesession = False, oc_no_body = False, oc_content_disposition = False,
     oc_unrestricted_auth = False, oc_followlocation = False, oc_nobuffer = False,
     oc_globoff = False, oc_noprogress = False, oc_skip_existing = False,
     oc_terminal_binary_ok = False, oc_output_dir = [], oc_range = None, oc_proxy = url_blank,
     oc_customrequest = None, oc_query = [], oc_msg = No_body\<rparr>"

record request_opt =
  ro_url :: string
  ro_output :: string
  ro_input :: string
  ro_remotename :: bool

end
