(* ===== verification/Burl_Request.thy ===== *)
theory Burl_Request
  imports Burl_Config Base64 Cookie
begin

text \<open>
  The request logic of the burl client's \<^verbatim>\<open>main.cpp\<close>: building a request from the options, the
  loop that sends it and follows redirects, and the retry loop around it.  Responses come from
  the network: a response is the record of what the code reads of it, and the loops run over the
  sequence of outcomes their awaits will have.  Boost.Http's request object is a parameter (see
  the locale \<open>http_message\<close>), and so are Boost.URL's reference resolution and the parameters of
  the cookie engine.
\<close>

subsection \<open>Small decisions\<close>

definition set_target :: "'rq request_ops \<Rightarrow> operation_config \<Rightarrow> url_view \<Rightarrow> 'rq \<Rightarrow> 'rq" where
  "set_target ops oc url request =
     (case oc_request_target oc of
        Some t \<Rightarrow> q_set_target ops t request
      | None \<Rightarrow> q_set_target ops (u_target url) request)"

text \<open>Whether a status is a redirect and whether the method has to change.\<close>

definition is_redirect :: "operation_config \<Rightarrow> nat \<Rightarrow> bool \<times> bool" where
  "is_redirect oc status =
     (if status = 301 then (True, \<not> oc_post301 oc)
      else if status = 302 then (True, \<not> oc_post302 oc)
      else if status = 303 then (True, \<not> oc_post303 oc)
      else if status = 307 \<or> status = 308 then (True, False)
      else (False, False))"

definition is_transient_error :: "nat \<Rightarrow> bool" where
  "is_transient_error status \<longleftrightarrow> status \<in> {408, 429, 500, 502, 503, 504}"

definition can_reuse_connection :: "response \<Rightarrow> url_view \<Rightarrow> url_view \<Rightarrow> bool" where
  "can_reuse_connection rsp a b =
     (if u_origin a \<noteq> u_origin b then False
      else if \<not> rsp_http11 rsp then False
      else if rsp_close rsp then False
      else True)"

definition should_ignore_body :: "operation_config \<Rightarrow> response \<Rightarrow> bool" where
  "should_ignore_body oc rsp \<longleftrightarrow> oc_resume_from oc \<noteq> None \<and> \<not> rsp_content_range rsp"

definition body_size :: "response \<Rightarrow> u64 option" where
  "body_size rsp = rsp_payload_size rsp"

text \<open>\<open>resolve base ref\<close> stands for \<^verbatim>\<open>parse_uri_reference\<close> followed by \<^verbatim>\<open>urls::resolve\<close>.\<close>

definition redirect_url :: "(url_view \<Rightarrow> string \<Rightarrow> url_view option) \<Rightarrow> response \<Rightarrow> url_view \<Rightarrow> exn + url_view" where
  "redirect_url resolve rsp referer =
     (case rsp_location rsp of
        Some loc \<Rightarrow>
          (case resolve referer loc of
             Some url \<Rightarrow> Inr url
           | None \<Rightarrow> Inl (runtime_error ''Bad redirect response''))
      | None \<Rightarrow> Inl (runtime_error ''Bad redirect response''))"

subsection \<open>Building the request\<close>

text \<open>The accepted encodings, as compiled in.\<close>

definition append_encoding :: "string \<Rightarrow> string \<Rightarrow> string" where
  "append_encoding v e = (if v = [] then e else v @ '', '' @ e)"

definition accept_encodings :: "bool \<Rightarrow> bool \<Rightarrow> string" where
  "accept_encodings brotli zlib =
     (let v1 = (if brotli then append_encoding [] ''br'' else []) in
      if zlib then append_encoding (append_encoding v1 ''deflate'') ''gzip'' else v1)"

definition request_creds :: "operation_config \<Rightarrow> url_view \<Rightarrow> string" where
  "request_creds oc url = (case oc_userpwd oc of Some c \<Rightarrow> c | None \<Rightarrow> u_userinfo url)"

text \<open>The request before the user's own header lines.\<close>

definition base_request ::
    "'rq request_ops \<Rightarrow> bool \<Rightarrow> bool \<Rightarrow> operation_config \<Rightarrow> message \<Rightarrow> url_view \<Rightarrow> 'rq" where
  "base_request ops brotli zlib oc msg url =
     (let r0 = q_set_method ops (if oc_no_body oc then ''HEAD'' else ''GET'') (q_new ops);
          r1 = (case oc_customrequest oc of Some m \<Rightarrow> q_set_method ops m r0 | None \<Rightarrow> r0);
          r2 = set_target ops oc url (q_set_version ops (if oc_http10 oc then http_1_0 else http_1_1) r1);
          r3 = q_set ops ''Host'' (u_host_and_port url) r2;
          r4 = q_set ops ''User-Agent'' (case oc_useragent oc of Some a \<Rightarrow> a | None \<Rightarrow> ''Boost.Http.Io'') r3;
          r5 = set_headers ops msg (q_set ops ''Accept'' ''*/*'' r4);
          r6 = (case oc_resume_from oc of
                  Some n \<Rightarrow> q_set ops ''Range'' (''bytes='' @ show_nat (unat n) @ ''-'') r5
                | None \<Rightarrow> r5);
          r7 = (case oc_range oc of Some s \<Rightarrow> q_set ops ''Range'' (''bytes='' @ s) r6 | None \<Rightarrow> r6);
          r8 = (if u_text (oc_referer oc) \<noteq> [] then q_set ops ''Referer'' (u_text (oc_referer oc)) r7 else r7);
          creds = request_creds oc url;
          r9 = (if creds \<noteq> [] then q_set ops ''Authorization'' (base64_encode ''Basic '' creds) r8 else r8);
          enc = accept_encodings brotli zlib in
      if oc_encoding oc \<and> enc \<noteq> [] then q_set ops ''Accept-Encoding'' enc r9 else r9)"

definition create_request ::
    "'rq request_ops \<Rightarrow> bool \<Rightarrow> bool \<Rightarrow> operation_config \<Rightarrow> message \<Rightarrow> url_view \<Rightarrow> exn + 'rq" where
  "create_request ops brotli zlib oc msg url =
     (if oc_disallow_username_in_url oc \<and> u_has_userinfo url
      then Inl (runtime_error ''Credentials was passed in the URL when prohibited'')
      else Inr (foldl (\<lambda>r n. q_erase ops n r)
                  (foldl (\<lambda>r (n, v). q_set ops n v r) (base_request ops brotli zlib oc msg url) (oc_headers oc))
                  (oc_omitheaders oc)))"

subsection \<open>The redirect loop\<close>

record ('rq) redirect_env =
  en_ops :: "'rq request_ops"
  en_resolve :: "url_view \<Rightarrow> string \<Rightarrow> url_view option"
  en_remove_userinfo :: "url_view \<Rightarrow> url_view"
  en_parse_cookie :: "int \<Rightarrow> string \<Rightarrow> exn + (gerror + cookie)"
  en_lower :: "char \<Rightarrow> char"
  en_psl :: "psl_fn option"

text \<open>What is recorded of a request that is sent: its URL and body, the time and the jar its
  cookies were taken from, and whether the parser was started for the response to a HEAD.\<close>

record sent_request =
  snt_url :: url_view
  snt_body :: "string option"
  snt_now :: int
  snt_jar :: "cookie_jar option"
  snt_head :: bool

text \<open>The variables of the loop, and what has been sent so far.\<close>

record 'rq redirect_state =
  rd_request :: 'rq
  rd_url :: url_view
  rd_referer :: url_view
  rd_trusted :: bool
  rd_maxredirs :: u64
  rd_msg :: message
  rd_jar :: "cookie_jar option"
  rd_sent :: "('rq \<times> sent_request) list"
  rd_connects :: "url_view list"
  rd_streamed :: "string list"

text \<open>What the awaits of one round bring: the error of \<^verbatim>\<open>async_request\<close> or the response, whether
  discarding its body failed, and the error of a new connection.\<close>

record round =
  ru_now :: int
  ru_response :: "exn + response"
  ru_discard_failed :: bool
  ru_connect :: "exn option"

text \<open>An exception leaves the jar as it was changed so far.\<close>

definition set_cookies ::
    "'rq redirect_env \<Rightarrow> string \<Rightarrow> int \<Rightarrow> 'rq redirect_state \<Rightarrow> (exn \<times> cookie_jar option) + 'rq redirect_state" where
  "set_cookies en exp_cookies now st =
     (let (field, jar) = (case rd_jar st of
            Some j \<Rightarrow> (case make_field now (rd_url st) j of (r, j') \<Rightarrow> (r, Some j'))
          | None \<Rightarrow> (Inr [], None)) in
      case field of
        Inl e \<Rightarrow> Inl (e, jar)
      | Inr c0 \<Rightarrow>
          let c = (if rd_trusted st then c0 @ exp_cookies else c0);
              r = q_erase (en_ops en) ''Cookie'' (rd_request st) in
          Inr (st\<lparr>rd_jar := jar, rd_request := (if c \<noteq> [] then q_set (en_ops en) ''Cookie'' c r else r)\<rparr>))"

fun add_cookies ::
    "'rq redirect_env \<Rightarrow> int \<Rightarrow> url_view \<Rightarrow> string list \<Rightarrow> cookie_jar \<Rightarrow>
     (exn \<times> cookie_jar) + cookie_jar" where
  "add_cookies en now url [] j = Inr j"
| "add_cookies en now url (sv # svs) j =
     (case en_parse_cookie en now sv of
        Inl e \<Rightarrow> Inl (e, j)
      | Inr (Inl g) \<Rightarrow> Inl (system_error ''parse_cookie'', j)
      | Inr (Inr c) \<Rightarrow> add_cookies en now url svs (jar_add (en_lower en) (en_psl en) now url c j))"

definition extract_cookies ::
    "'rq redirect_env \<Rightarrow> int \<Rightarrow> response \<Rightarrow> 'rq redirect_state \<Rightarrow>
     (exn \<times> cookie_jar option) + 'rq redirect_state" where
  "extract_cookies en now rsp st =
     (case rd_jar st of
        None \<Rightarrow> Inr st
      | Some j \<Rightarrow>
          (case add_cookies en now (rd_url st) (rsp_set_cookies rsp) j of
             Inl (e, j') \<Rightarrow> Inl (e, Some j')
           | Inr j' \<Rightarrow> Inr (st\<lparr>rd_jar := Some j'\<rparr>)))"

text \<open>The header of a response goes to the output and to the header file; what is streamed is
  kept in order.\<close>

definition stream_headers :: "response \<Rightarrow> 'rq redirect_state \<Rightarrow> 'rq redirect_state" where
  "stream_headers rsp st = st\<lparr>rd_streamed := rd_streamed st @ [rsp_buffer rsp]\<rparr>"

text \<open>\<^verbatim>\<open>set_cookies\<close>, \<^verbatim>\<open>start_serializer\<close>, the start of the parser and the send.\<close>

definition send_request ::
    "'rq redirect_env \<Rightarrow> string \<Rightarrow> int \<Rightarrow> 'rq redirect_state \<Rightarrow> (exn \<times> cookie_jar option) + 'rq redirect_state" where
  "send_request en exp_cookies now st =
     rmap (\<lambda>s. case start_serializer (rd_msg s) (rd_request s) of
          (r, body) \<Rightarrow> s\<lparr>rd_sent := rd_sent s @ [(r, \<lparr>snt_url = rd_url s, snt_body = body, snt_now = now,
            snt_jar = rd_jar st, snt_head = (q_method (en_ops en) (rd_request s) = ''HEAD'')\<rparr>)]\<rparr>)
       (set_cookies en exp_cookies now st)"

text \<open>Preparing the next request, after the new URL is known.\<close>

definition change_method :: "'rq request_ops \<Rightarrow> 'rq \<Rightarrow> 'rq" where
  "change_method ops r =
     q_erase ops ''Expect'' (q_erase ops ''Content-Type'' (q_erase ops ''Content-Encoding''
       (q_erase ops ''Content-Length'' (q_set_method ops ''GET'' r))))"

definition next_request ::
    "'rq redirect_env \<Rightarrow> operation_config \<Rightarrow> url_view \<Rightarrow> bool \<Rightarrow> url_view \<Rightarrow> 'rq redirect_state \<Rightarrow> 'rq redirect_state" where
  "next_request en oc org_url need_method_change url st =
     (let ops = en_ops en;
          change = (need_method_change \<and> q_method ops (rd_request st) \<noteq> ''HEAD'');
          r1 = (if change then change_method ops (rd_request st) else rd_request st);
          msg = (if change then No_body else rd_msg st);
          r2 = set_target ops oc url r1;
          trusted = (u_origin org_url = u_origin url \<or> oc_unrestricted_auth oc);
          r3 = (if \<not> trusted then q_erase ops ''Authorization'' r2 else r2);
          referer = (if oc_autoreferer oc then en_remove_userinfo en (rd_referer st) else rd_referer st);
          r4 = (if oc_autoreferer oc then q_set ops ''Referer'' (u_text referer) r3 else r3);
          r5 = q_set ops ''Host'' (u_host_and_port url) r4 in
      st\<lparr>rd_request := r5, rd_msg := msg, rd_trusted := trusted, rd_url := url, rd_referer := url\<rparr>)"

definition url_scheme_ok :: "operation_config \<Rightarrow> url_view \<Rightarrow> bool" where
  "url_scheme_ok oc url \<longleftrightarrow> u_scheme_id url \<in> set (oc_proto_redir oc)"

definition follow_redirect ::
    "'rq redirect_env \<Rightarrow> operation_config \<Rightarrow> url_view \<Rightarrow> round \<Rightarrow> response \<Rightarrow> bool \<Rightarrow> 'rq redirect_state \<Rightarrow>
     exn + 'rq redirect_state" where
  "follow_redirect en oc org_url ru rsp need_method_change st0 =
     (if rd_maxredirs st0 = 0 then Inl (runtime_error ''Maximum redirects followed'')
      else
        let st = st0\<lparr>rd_maxredirs := rd_maxredirs st0 - 1\<rparr> in
        rbind (redirect_url (en_resolve en) rsp (rd_referer st)) (\<lambda>url.
          if url_scheme_ok oc url
          then
            if can_reuse_connection rsp (rd_referer st) url \<and> \<not> ru_discard_failed ru
            then Inr (next_request en oc org_url need_method_change url st)
            else
              (case ru_connect ru of
                 Some e \<Rightarrow> Inl e
               | None \<Rightarrow> Inr (next_request en oc org_url need_method_change url
                   (st\<lparr>rd_connects := rd_connects st @ [url]\<rparr>)))
          else Inl (runtime_error ''Protocol not supported or disabled'')))"

datatype loop_end = Loop_done response | Loop_threw exn | Loop_waiting

fun redirect_loop ::
    "'rq redirect_env \<Rightarrow> operation_config \<Rightarrow> string \<Rightarrow> url_view \<Rightarrow> round list \<Rightarrow> 'rq redirect_state \<Rightarrow>
     loop_end \<times> 'rq redirect_state" where
  "redirect_loop en oc exp_cookies org_url [] st = (Loop_waiting, st)"
| "redirect_loop en oc exp_cookies org_url (ru # rounds) st =
     (case send_request en exp_cookies (ru_now ru) st of
        Inl (e, jar) \<Rightarrow> (Loop_threw e, st\<lparr>rd_jar := jar\<rparr>)
      | Inr st1 \<Rightarrow>
          (case ru_response ru of
             Inl e \<Rightarrow> (Loop_threw e, st1)
           | Inr rsp \<Rightarrow>
               (case rmap (stream_headers rsp) (extract_cookies en (ru_now ru) rsp st1) of
                  Inl (e, jar) \<Rightarrow> (Loop_threw e, st1\<lparr>rd_jar := jar\<rparr>)
                | Inr st2 \<Rightarrow>
                    (case is_redirect oc (rsp_status rsp) of
                       (redirected, need_method_change) \<Rightarrow>
                         if \<not> redirected \<or> \<not> oc_followlocation oc then (Loop_done rsp, st2)
                         else
                           (case follow_redirect en oc org_url ru rsp need_method_change st2 of
                              Inl e \<Rightarrow> (Loop_threw e, st2)
                            | Inr st3 \<Rightarrow> redirect_loop en oc exp_cookies org_url rounds st3)))))"

definition redirect_start :: "operation_config \<Rightarrow> message \<Rightarrow> url_view \<Rightarrow> cookie_jar option \<Rightarrow> 'rq \<Rightarrow> 'rq redirect_state" where
  "redirect_start oc msg url jar request =
     \<lparr>rd_request = request, rd_url = url, rd_referer = url, rd_trusted = True,
      rd_maxredirs = oc_maxredirs oc, rd_msg = msg, rd_jar = jar, rd_sent = [], rd_connects = [url], rd_streamed = []\<rparr>"

subsection \<open>The checks after the loop\<close>

definition check_failonerror :: "operation_config \<Rightarrow> response \<Rightarrow> exn option" where
  "check_failonerror oc rsp =
     (if oc_failonerror oc \<and> rsp_status rsp \<ge> 400
      then Some (runtime_error (''The requested URL returned error: '' @ show_nat (rsp_status rsp)))
      else None)"

definition check_resume :: "operation_config \<Rightarrow> response \<Rightarrow> exn option" where
  "check_resume oc rsp =
     (if oc_resume_from oc \<noteq> None \<and> rsp_status rsp \<noteq> 416 \<and> \<not> rsp_content_range rsp
      then Some (runtime_error ''HTTP server doesn't seem to support byte ranges. Cannot resume.'')
      else None)"

definition after_body :: "operation_config \<Rightarrow> response \<Rightarrow> exn option" where
  "after_body oc rsp =
     (if oc_failwithbody oc \<and> rsp_status rsp \<ge> 400
      then Some (runtime_error (''The requested URL returned error: '' @ show_nat (rsp_status rsp)))
      else None)"

subsection \<open>Explicit cookies\<close>

text \<open>The \<^verbatim>\<open>--cookie\<close> values joined by semicolons.\<close>

fun join_cookies :: "string list \<Rightarrow> string \<Rightarrow> string" where
  "join_cookies [] acc = acc"
| "join_cookies (s # ss) acc =
     join_cookies ss ((if acc \<noteq> [] \<and> \<not> ends_with acc '';'' then acc @ '';'' else acc) @ s)"

subsection \<open>Retrying\<close>

text \<open>Outcomes of one attempt: a status, a system error with its code, another exception; with
  the clock after it and whether the coroutine was cancelled meanwhile.\<close>

datatype req_error = Err_binary_to_tty | Err_operation_aborted | Err_connection_refused | Err_other nat

datatype attempt_result = Att_status nat | Att_system_error req_error | Att_exception exn

record attempt =
  at_result :: attempt_result
  at_now :: int
  at_cancelled :: bool

definition can_retry :: "operation_config \<Rightarrow> u64 \<Rightarrow> int \<Rightarrow> int \<Rightarrow> req_error option \<Rightarrow> bool" where
  "can_retry oc retries max_time now ec =
     (if retries = 0 \<or> max_time < now then False
      else if oc_retry_all_errors oc then True
      else if ec = None then True
      else if ec = Some Err_operation_aborted then True
      else if oc_retry_connrefused oc \<and> ec = Some Err_connection_refused then True
      else False)"

text \<open>In seconds; the backoff is kept between calls.\<close>

definition next_delay :: "operation_config \<Rightarrow> nat \<Rightarrow> int \<times> nat" where
  "next_delay oc backoff =
     (case oc_retry_delay oc of
        Some d \<Rightarrow> (to_seconds d, backoff)
      | None \<Rightarrow> let b = (if backoff < 10 * 60 then backoff * 2 else backoff) in (int b, b))"

datatype retry_end = Retry_returned | Retry_threw | Retry_waiting

text \<open>How an attempt ends the loop, if it does.\<close>

definition retry_stop :: "operation_config \<Rightarrow> int \<Rightarrow> u64 \<Rightarrow> attempt \<Rightarrow> retry_end option" where
  "retry_stop oc max_time retries a =
     (case at_result a of
        Att_status s \<Rightarrow>
          if \<not> is_transient_error s \<or> \<not> can_retry oc retries max_time (at_now a) None
          then Some Retry_returned else None
      | Att_system_error e \<Rightarrow>
          if e = Err_binary_to_tty then Some Retry_returned
          else if \<not> can_retry oc retries max_time (at_now a) (Some e) then Some Retry_threw else None
      | Att_exception e \<Rightarrow> Some Retry_threw)"

fun retry_loop ::
    "operation_config \<Rightarrow> int \<Rightarrow> attempt list \<Rightarrow> u64 \<Rightarrow> nat \<Rightarrow> int list \<Rightarrow> retry_end \<times> int list" where
  "retry_loop oc max_time [] retries backoff delays = (Retry_waiting, delays)"
| "retry_loop oc max_time (a # as) retries backoff delays =
     (case retry_stop oc max_time retries a of
        Some r \<Rightarrow> (r, delays)
      | None \<Rightarrow>
          if at_cancelled a then (Retry_returned, delays)
          else
            (case next_delay oc backoff of
               (d, b) \<Rightarrow> retry_loop oc max_time as (retries - 1) b (delays @ [d])))"

definition retry :: "operation_config \<Rightarrow> int \<Rightarrow> attempt list \<Rightarrow> retry_end \<times> int list" where
  "retry oc now as =
     retry_loop oc (case oc_retry_maxtime oc of Some t \<Rightarrow> now + t | None \<Rightarrow> duration_max) as
       (oc_req_retry oc) 1 []"

end
