(* ===== verification/Burl_Request_Proofs.thy ===== *)
theory Burl_Request_Proofs
  imports Burl_Request
begin

text \<open>
  What the request logic of the burl client guarantees: the fields of a request, what follows a
  redirect, how many there can be, and how often a request is retried.
\<close>

subsection \<open>Fields\<close>

lemma ci_distinct:
  "\<not> ci_equal ''Authorization'' ''Host''" "\<not> ci_equal ''Authorization'' ''User-Agent''"
  "\<not> ci_equal ''Authorization'' ''Accept''" "\<not> ci_equal ''Authorization'' ''Content-Type''"
  "\<not> ci_equal ''Authorization'' ''Content-Length''" "\<not> ci_equal ''Authorization'' ''Expect''"
  "\<not> ci_equal ''Authorization'' ''Range''" "\<not> ci_equal ''Authorization'' ''Referer''"
  "\<not> ci_equal ''Authorization'' ''Accept-Encoding''" "\<not> ci_equal ''Authorization'' ''Cookie''"
  "\<not> ci_equal ''Authorization'' ''Content-Encoding''"
  "\<not> ci_equal ''Cookie'' ''Authorization''" "\<not> ci_equal ''Cookie'' ''Referer''" "\<not> ci_equal ''Cookie'' ''Host''"
  "\<not> ci_equal ''Host'' ''User-Agent''" "\<not> ci_equal ''Host'' ''Accept''" "\<not> ci_equal ''Host'' ''Content-Type''"
  "\<not> ci_equal ''Host'' ''Content-Length''" "\<not> ci_equal ''Host'' ''Expect''" "\<not> ci_equal ''Host'' ''Range''"
  "\<not> ci_equal ''Host'' ''Referer''" "\<not> ci_equal ''Host'' ''Authorization''" "\<not> ci_equal ''Host'' ''Accept-Encoding''"
  by code_simp+

text \<open>The value of the last of the header lines that spell a field's name.\<close>

definition last_header :: "string \<Rightarrow> (string \<times> string) list \<Rightarrow> string option" where
  "last_header f hs = map_option snd (find (\<lambda>(n, _). ci_equal f n) (rev hs))"

context http_message
begin

lemma find_fold_set:
  "q_find ops f (foldl (\<lambda>r (n, v). q_set ops n v r) r hs) =
     (case last_header f hs of Some v \<Rightarrow> Some v | None \<Rightarrow> q_find ops f r)"
  by (induction hs arbitrary: r rule: rev_induct)
     (auto simp: last_header_def find_set split: prod.splits)

lemma find_fold_erase:
  "q_find ops f (foldl (\<lambda>r n. q_erase ops n r) r ns) =
     (if list_ex (ci_equal f) ns then None else q_find ops f r)"
  by (induction ns arbitrary: r) (auto simp: find_erase)

lemma find_set_headers:
  assumes "\<not> ci_equal f ''Content-Type''" "\<not> ci_equal f ''Content-Length''" "\<not> ci_equal f ''Expect''"
  shows "q_find ops f (set_headers ops msg r) = q_find ops f r"
  using assms by (cases msg) (simp_all add: set_headers_def Let_def find_laws)

lemma find_set_target: "q_find ops f (set_target ops oc url r) = q_find ops f r"
  by (simp add: set_target_def find_laws split: option.split)

lemma base_authorization:
  "q_find ops ''Authorization'' (base_request ops brotli zlib oc msg url) =
     (if request_creds oc url = [] then None else Some (''Basic '' @ b64_spec (request_creds oc url)))"
  by (simp add: base_request_def Let_def find_laws find_set_headers find_set_target ci_distinct
      base64_encode_eq split: option.split)

text \<open>What follows the fields of the body leaves the method and most fields alone.\<close>

lemma base_request_body:
  "\<exists>r0. q_method ops (base_request ops brotli zlib oc msg url) = q_method ops (set_headers ops msg r0) \<and>
     (\<forall>f. \<not> ci_equal f ''Range'' \<and> \<not> ci_equal f ''Referer'' \<and> \<not> ci_equal f ''Authorization'' \<and>
        \<not> ci_equal f ''Accept-Encoding'' \<longrightarrow>
        q_find ops f (base_request ops brotli zlib oc msg url) = q_find ops f (set_headers ops msg r0))"
proof -
  define r4 where "r4 = q_set ops ''User-Agent'' (case oc_useragent oc of Some a \<Rightarrow> a | None \<Rightarrow> ''Boost.Http.Io'')
     (q_set ops ''Host'' (u_host_and_port url) (set_target ops oc url
       (q_set_version ops (if oc_http10 oc then http_1_0 else http_1_1)
         (case oc_customrequest oc of
            Some m \<Rightarrow> q_set_method ops m (q_set_method ops (if oc_no_body oc then ''HEAD'' else ''GET'') (q_new ops))
          | None \<Rightarrow> q_set_method ops (if oc_no_body oc then ''HEAD'' else ''GET'') (q_new ops)))))"
  define r5 where "r5 = set_headers ops msg (q_set ops ''Accept'' ''*/*'' r4)"
  have "q_method ops (base_request ops brotli zlib oc msg url) = q_method ops r5 \<and>
     (\<forall>f. \<not> ci_equal f ''Range'' \<and> \<not> ci_equal f ''Referer'' \<and> \<not> ci_equal f ''Authorization'' \<and>
        \<not> ci_equal f ''Accept-Encoding'' \<longrightarrow> q_find ops f (base_request ops brotli zlib oc msg url) = q_find ops f r5)"
    unfolding base_request_def Let_def r4_def [symmetric] r5_def [symmetric]
    by (simp add: find_laws method_laws split: option.split)
  then show ?thesis unfolding r5_def by blast
qed

lemma base_host:
  "q_find ops ''Host'' (base_request ops brotli zlib oc msg url) = Some (u_host_and_port url)"
  by (simp add: base_request_def Let_def find_laws find_set_headers find_set_target ci_distinct
      split: option.split)

end

text \<open>
  C31. The header fields of a request: a field the user removed is absent; otherwise the user's
  last header line for it wins, whatever its spelling; otherwise it is the client's own, where
  the host comes from the URL and the credentials of the options, or else of the URL, appear as
  the Base64 text of basic authentication exactly when there are any.  Credentials in the URL
  are refused when the options prohibit them.
\<close>

theorem create_request_fields:
  assumes "http_message ops"
  shows "case create_request ops brotli zlib oc msg url of
      Inl e \<Rightarrow> oc_disallow_username_in_url oc \<and> u_has_userinfo url
    | Inr r \<Rightarrow>
        \<not> (oc_disallow_username_in_url oc \<and> u_has_userinfo url) \<and>
        (\<forall>f. q_find ops f r =
          (if list_ex (ci_equal f) (oc_omitheaders oc) then None
           else case last_header f (oc_headers oc) of Some v \<Rightarrow> Some v
             | None \<Rightarrow> q_find ops f (base_request ops brotli zlib oc msg url))) \<and>
        q_find ops ''Host'' (base_request ops brotli zlib oc msg url) = Some (u_host_and_port url) \<and>
        q_find ops ''Authorization'' (base_request ops brotli zlib oc msg url) =
          (if request_creds oc url = [] then None
           else Some (''Basic '' @ b64_spec (request_creds oc url)))"
  using http_message.base_authorization [OF assms] http_message.base_host [OF assms]
  by (auto simp: create_request_def http_message.find_fold_set [OF assms]
      http_message.find_fold_erase [OF assms] split: option.split)

theorem create_request_fields_witness:
  "\<exists>r. create_request ref_ops False False (operation_config_default\<lparr>oc_userpwd := Some ''u:p''\<rparr>) No_body url_blank = Inr r \<and>
     q_find ref_ops ''authorization'' r = Some ''Basic dTpw''"
proof -
  let ?oc = "operation_config_default\<lparr>oc_userpwd := Some ''u:p''\<rparr>"
  obtain r where r: "create_request ref_ops False False ?oc No_body url_blank = Inr r"
    by (simp add: create_request_def operation_config_default_def)
  have oc: "oc_omitheaders ?oc = []" "oc_headers ?oc = []" "request_creds ?oc url_blank = ''u:p''"
    by (simp_all add: operation_config_default_def request_creds_def)
  have "q_find ref_ops ''authorization'' r = q_find ref_ops ''authorization'' (base_request ref_ops False False ?oc No_body url_blank)"
    using create_request_fields [OF refmsg.http_message_axioms, where brotli = False and zlib = False
        and oc = ?oc and msg = No_body and url = url_blank] r oc
    by (simp add: last_header_def)
  moreover have "b64_spec ''u:p'' = ''dTpw''" by code_simp
  moreover have "rr_lookup ''authorization'' fs = rr_lookup ''Authorization'' fs" for fs
  proof (induction fs)
    case (Cons x fs)
    have "ci_equal ''authorization'' ''Authorization''" by code_simp
    from ci_equal_trans [OF this] show ?case using Cons by (cases x) auto
  qed simp
  ultimately show ?thesis
    using r oc refmsg.base_authorization [where brotli = False and zlib = False and oc = ?oc and msg = No_body
        and url = url_blank]
    by (simp add: ref_ops_def)
qed

subsection \<open>Redirects\<close>

definition same_site_as :: "operation_config \<Rightarrow> url_view \<Rightarrow> url_view \<Rightarrow> bool" where
  "same_site_as oc org url \<longleftrightarrow> u_origin org = u_origin url \<or> oc_unrestricted_auth oc"

text \<open>The cookies of a request are no others than those a jar has for its URL.\<close>

definition only_jar_cookies :: "'rq request_ops \<Rightarrow> 'rq \<times> sent_request \<Rightarrow> bool" where
  "only_jar_cookies ops s \<longleftrightarrow>
     (case snt_jar (snd s) of
        None \<Rightarrow> q_find ops ''Cookie'' (fst s) = None
      | Some j \<Rightarrow> (\<exists>c. fst (make_field (snt_now (snd s)) (snt_url (snd s)) j) = Inr c \<and>
          q_find ops ''Cookie'' (fst s) = (if c = [] then None else Some c)))"

definition discreet :: "'rq request_ops \<Rightarrow> operation_config \<Rightarrow> url_view \<Rightarrow> 'rq \<times> sent_request \<Rightarrow> bool" where
  "discreet ops oc org s \<longleftrightarrow>
     same_site_as oc org (snt_url (snd s)) \<or>
     q_find ops ''Authorization'' (fst s) = None \<and> only_jar_cookies ops s"

definition redirect_inv :: "'rq request_ops \<Rightarrow> operation_config \<Rightarrow> url_view \<Rightarrow> 'rq redirect_state \<Rightarrow> bool" where
  "redirect_inv ops oc org st \<longleftrightarrow>
     (rd_trusted st \<longrightarrow> same_site_as oc org (rd_url st)) \<and>
     (rd_trusted st \<or> q_find ops ''Authorization'' (rd_request st) = None) \<and>
     list_all (discreet ops oc org) (rd_sent st)"

lemma extract_cookies_keeps:
  assumes "rmap (stream_headers rsp) (extract_cookies en now rsp st) = Inr st2"
  shows "redirect_inv ops oc org st2 = redirect_inv ops oc org st" "rd_maxredirs st2 = rd_maxredirs st"
    "rd_sent st2 = rd_sent st" "rd_url st2 = rd_url st" "rd_request st2 = rd_request st" "rd_msg st2 = rd_msg st"
  using assms by (auto simp: extract_cookies_def stream_headers_def redirect_inv_def rmap_Inr_iff split: option.splits sum.splits)

lemma send_request_cases:
  assumes "send_request en exp_cookies now st = Inr st1"
  obtains c0 jar where
    "rd_jar st = None \<and> c0 = [] \<or> (\<exists>j. rd_jar st = Some j \<and> fst (make_field now (rd_url st) j) = Inr c0)"
    "st1 = st\<lparr>rd_jar := jar, rd_request := rd_request st1,
       rd_sent := rd_sent st @ [(rd_request st1, \<lparr>snt_url = rd_url st,
         snt_body = snd (start_serializer (rd_msg st) (rd_request st1)), snt_now = now, snt_jar = rd_jar st,
         snt_head = (q_method (en_ops en) (rd_request st1) = ''HEAD'')\<rparr>)]\<rparr>"
    "rd_request st1 = (let c = (if rd_trusted st then c0 @ exp_cookies else c0);
       r = q_erase (en_ops en) ''Cookie'' (rd_request st) in
       if c \<noteq> [] then q_set (en_ops en) ''Cookie'' c r else r)"
proof (cases "rd_jar st")
  case None
  then show thesis using assms that [of "[]" None]
    by (auto simp: send_request_def set_cookies_def Let_def start_serializer_def split: message.splits)
next
  case (Some j)
  obtain r j' where m: "make_field now (rd_url st) j = (r, j')" by (cases "make_field now (rd_url st) j")
  show thesis
  proof (cases r)
    case (Inl e) then show thesis using assms Some m by (simp add: send_request_def set_cookies_def)
  next
    case (Inr c0)
    then show thesis using assms Some m that [of c0 "Some j'"]
      by (auto simp: send_request_def set_cookies_def Let_def start_serializer_def split: message.splits)
  qed
qed

lemma send_request_sent:
  assumes "send_request en exp_cookies now st = Inr st1"
  shows "\<exists>x. rd_sent st1 = rd_sent st @ [x] \<and> snt_url (snd x) = rd_url st \<and> rd_maxredirs st1 = rd_maxredirs st"
proof -
  from assms obtain jar where st1: "st1 = st\<lparr>rd_jar := jar, rd_request := rd_request st1,
       rd_sent := rd_sent st @ [(rd_request st1, \<lparr>snt_url = rd_url st,
         snt_body = snd (start_serializer (rd_msg st) (rd_request st1)), snt_now = now, snt_jar = rd_jar st,
         snt_head = (q_method (en_ops en) (rd_request st1) = ''HEAD'')\<rparr>)]\<rparr>"
    by (rule send_request_cases)
  have "rd_sent st1 = rd_sent st @ [(rd_request st1, \<lparr>snt_url = rd_url st,
         snt_body = snd (start_serializer (rd_msg st) (rd_request st1)), snt_now = now, snt_jar = rd_jar st,
         snt_head = (q_method (en_ops en) (rd_request st1) = ''HEAD'')\<rparr>)]"
    "rd_maxredirs st1 = rd_maxredirs st"
    by (subst st1, simp)+
  then show ?thesis by simp
qed

lemma send_request_inv:
  assumes msg: "http_message (en_ops en)" and inv: "redirect_inv (en_ops en) oc org st"
    and snd: "send_request en exp_cookies now st = Inr st1"
  shows "redirect_inv (en_ops en) oc org st1"
proof -
  note laws = http_message.find_laws [OF msg]
  from snd obtain c0 jar where c: "rd_jar st = None \<and> c0 = [] \<or>
      (\<exists>j. rd_jar st = Some j \<and> fst (make_field now (rd_url st) j) = Inr c0)"
    and st1: "st1 = st\<lparr>rd_jar := jar, rd_request := rd_request st1,
       rd_sent := rd_sent st @ [(rd_request st1, \<lparr>snt_url = rd_url st,
         snt_body = snd (start_serializer (rd_msg st) (rd_request st1)), snt_now = now, snt_jar = rd_jar st,
         snt_head = (q_method (en_ops en) (rd_request st1) = ''HEAD'')\<rparr>)]\<rparr>"
    and r: "rd_request st1 = (let c = (if rd_trusted st then c0 @ exp_cookies else c0);
       r = q_erase (en_ops en) ''Cookie'' (rd_request st) in
       if c \<noteq> [] then q_set (en_ops en) ''Cookie'' c r else r)"
    by (rule send_request_cases)
  have auth: "q_find (en_ops en) ''Authorization'' (rd_request st1) = q_find (en_ops en) ''Authorization'' (rd_request st)"
    unfolding r by (simp add: Let_def laws ci_distinct)
  let ?x = "(rd_request st1, \<lparr>snt_url = rd_url st,
         snt_body = snd (start_serializer (rd_msg st) (rd_request st1)), snt_now = now, snt_jar = rd_jar st,
         snt_head = (q_method (en_ops en) (rd_request st1) = ''HEAD'')\<rparr>)"
  have "only_jar_cookies (en_ops en) ?x" if "\<not> rd_trusted st"
    unfolding only_jar_cookies_def r using c that by (auto simp: Let_def laws)
  then have new: "discreet (en_ops en) oc org ?x"
    using inv auth by (auto simp: discreet_def redirect_inv_def)
  have "rd_trusted st1 = rd_trusted st" "rd_url st1 = rd_url st"
    "rd_sent st1 = rd_sent st @ [(rd_request st1, \<lparr>snt_url = rd_url st,
         snt_body = snd (start_serializer (rd_msg st) (rd_request st1)), snt_now = now, snt_jar = rd_jar st,
         snt_head = (q_method (en_ops en) (rd_request st1) = ''HEAD'')\<rparr>)]"
    by (subst st1, simp)+
  then show ?thesis using inv new auth by (simp add: redirect_inv_def)
qed

lemma next_request_inv:
  assumes "http_message (en_ops en)" "list_all (discreet (en_ops en) oc org) (rd_sent st)"
  shows "redirect_inv (en_ops en) oc org (next_request en oc org chg url st)"
  using assms(2) http_message.find_laws [OF assms(1)] http_message.find_set_target [OF assms(1)]
  by (auto simp: redirect_inv_def next_request_def Let_def same_site_as_def ci_distinct)

lemma follow_redirect_inv:
  assumes msg: "http_message (en_ops en)" and inv: "redirect_inv (en_ops en) oc org st"
    and f: "follow_redirect en oc org ru rsp chg st = Inr st'"
  shows "redirect_inv (en_ops en) oc org st'"
    and "unat (rd_maxredirs st) = Suc (unat (rd_maxredirs st'))" "rd_sent st' = rd_sent st"
    and "url_scheme_ok oc (rd_url st')"
proof -
  obtain url st0 where st': "st' = next_request en oc org chg url st0" "rd_sent st0 = rd_sent st"
      "rd_maxredirs st0 = rd_maxredirs st - 1" "url_scheme_ok oc url" "rd_maxredirs st \<noteq> 0"
    using f by (auto simp: follow_redirect_def Let_def rbind_Inr_iff split: if_splits option.splits)
  show "redirect_inv (en_ops en) oc org st'"
    unfolding st'(1) using inv st'(2) by (intro next_request_inv [OF msg]) (simp add: redirect_inv_def)
  show "rd_sent st' = rd_sent st" "url_scheme_ok oc (rd_url st')"
    using st' by (simp_all add: next_request_def Let_def)
  have "rd_maxredirs st' = rd_maxredirs st - 1" using st' by (simp add: next_request_def Let_def)
  then show "unat (rd_maxredirs st) = Suc (unat (rd_maxredirs st'))"
    using st'(5) by (simp add: unat_minus_one unat_gt_0)
qed

definition tail_ok :: "operation_config \<Rightarrow> url_view \<Rightarrow> ('rq \<times> sent_request) list \<Rightarrow> bool" where
  "tail_ok oc url t \<longleftrightarrow>
     (case t of [] \<Rightarrow> True
      | x # ys \<Rightarrow> snt_url (snd x) = url \<and> list_all (\<lambda>s. url_scheme_ok oc (snt_url (snd s))) ys)"

lemma redirect_loop_inv:
  assumes msg: "http_message (en_ops en)"
  shows "redirect_inv (en_ops en) oc org st \<Longrightarrow>
    redirect_loop en oc exp_cookies org rounds st = (e, st') \<Longrightarrow>
    list_all (discreet (en_ops en) oc org) (rd_sent st') \<and>
    (length rounds > unat (rd_maxredirs st) \<longrightarrow> e \<noteq> Loop_waiting) \<and>
    (\<exists>t. rd_sent st' = rd_sent st @ t \<and> length t \<le> unat (rd_maxredirs st) + 1 \<and> tail_ok oc (rd_url st) t)"
proof (induction rounds arbitrary: st)
  case Nil
  then show ?case by (auto simp: redirect_inv_def tail_ok_def)
next
  case (Cons ru rounds)
  show ?case
  proof (cases "send_request en exp_cookies (ru_now ru) st")
    case (Inl x)
    then show ?thesis using Cons.prems by (cases x) (auto simp: redirect_inv_def tail_ok_def)
  next
    case send: (Inr st1)
    note i1 = send_request_inv [OF msg Cons.prems(1) send]
    obtain x where x: "rd_sent st1 = rd_sent st @ [x]" "snt_url (snd x) = rd_url st"
        "rd_maxredirs st1 = rd_maxredirs st"
      using send_request_sent [OF send] by blast
    have here: ?thesis if "st' = st1 \<or> rd_sent st' = rd_sent st1" "e \<noteq> Loop_waiting"
      using that i1 x by (auto simp: redirect_inv_def tail_ok_def)
    show ?thesis
    proof (cases "ru_response ru")
      case (Inl y) then show ?thesis using Cons.prems(2) send by (intro here) auto
    next
      case rsp: (Inr rsp)
      show ?thesis
      proof (cases "rmap (stream_headers rsp) (extract_cookies en (ru_now ru) rsp st1)")
        case (Inl y) then show ?thesis using Cons.prems(2) send rsp by (cases y) (intro here, auto)
      next
        case st2: (Inr st2)
        note k2 = extract_cookies_keeps [OF st2]
        obtain redirected chg where red: "is_redirect oc (rsp_status rsp) = (redirected, chg)"
          by (cases "is_redirect oc (rsp_status rsp)")
        show ?thesis
        proof (cases "redirected \<and> oc_followlocation oc")
          case False
          then show ?thesis using Cons.prems(2) send rsp st2 red k2(3) by (intro here) auto
        next
          case True
          show ?thesis
          proof (cases "follow_redirect en oc org ru rsp chg st2")
            case (Inl y)
            then show ?thesis using Cons.prems(2) send rsp st2 red True k2(3) by (intro here) auto
          next
            case st3: (Inr st3)
            have i2: "redirect_inv (en_ops en) oc org st2" using i1 k2(1) by simp
            note f = follow_redirect_inv [OF msg i2 st3]
            have "redirect_loop en oc exp_cookies org rounds st3 = (e, st')"
              using Cons.prems(2) send rsp st2 red True st3 by simp
            note ih = Cons.IH [OF f(1) this]
            then obtain t where t: "rd_sent st' = rd_sent st3 @ t" "length t \<le> unat (rd_maxredirs st3) + 1"
                "tail_ok oc (rd_url st3) t"
              by blast
            have m: "unat (rd_maxredirs st) = Suc (unat (rd_maxredirs st3))"
              using f(2) k2(2) x(3) by simp
            have "tail_ok oc (rd_url st) (x # t)"
              using t(3) f(4) x(2) by (cases t) (auto simp: tail_ok_def)
            moreover have "rd_sent st' = rd_sent st @ x # t" using t(1) f(3) k2(3) x(1) by simp
            ultimately show ?thesis using ih m t(2) by auto
          qed
        qed
      qed
    qed
  qed
qed

text \<open>
  C5. Secrets stay with the site they were meant for: whatever redirects the servers answer with,
  a request that goes to another origin than the first one carries no \<^verbatim>\<open>Authorization\<close> field and
  none of the cookies given on the command line, only those the jar holds for its URL, unless
  the user allowed it.
\<close>

theorem redirect_keeps_secrets:
  assumes "http_message (en_ops en)"
    and "redirect_loop en oc exp_cookies url rounds (redirect_start oc msg url jar request) = (e, st)"
  shows "\<forall>(r, s) \<in> set (rd_sent st).
    u_origin (snt_url s) \<noteq> u_origin url \<and> \<not> oc_unrestricted_auth oc \<longrightarrow>
      q_find (en_ops en) ''Authorization'' r = None \<and>
      (case snt_jar s of
         None \<Rightarrow> q_find (en_ops en) ''Cookie'' r = None
       | Some j \<Rightarrow> (\<exists>c. fst (make_field (snt_now s) (snt_url s) j) = Inr c \<and>
           q_find (en_ops en) ''Cookie'' r = (if c = [] then None else Some c)))"
proof -
  have i: "redirect_inv (en_ops en) oc url (redirect_start oc msg url jar request)"
    by (simp add: redirect_inv_def redirect_start_def same_site_as_def)
  have "discreet (en_ops en) oc url x" if "x \<in> set (rd_sent st)" for x
    using redirect_loop_inv [OF assms(1) i assms(2)] that by (simp add: list_all_iff)
  note d = this [unfolded discreet_def same_site_as_def only_jar_cookies_def]
  show ?thesis
  proof (rule ballI)
    fix x assume x: "x \<in> set (rd_sent st)"
    show "case x of (r, s) \<Rightarrow> u_origin (snt_url s) \<noteq> u_origin url \<and> \<not> oc_unrestricted_auth oc \<longrightarrow>
      q_find (en_ops en) ''Authorization'' r = None \<and>
      (case snt_jar s of
         None \<Rightarrow> q_find (en_ops en) ''Cookie'' r = None
       | Some j \<Rightarrow> (\<exists>c. fst (make_field (snt_now s) (snt_url s) j) = Inr c \<and>
           q_find (en_ops en) ''Cookie'' r = (if c = [] then None else Some c)))"
      using d [OF x] unfolding case_prod_beta by (elim disjE) simp_all
  qed
qed

text \<open>
  C6. Redirects come to an end: a transfer sends at most one request more than the number of
  redirects allowed, every request after the first goes to a URL whose scheme is allowed for
  redirects, and with as many answers as that the loop is over, with a response or an
  exception.
\<close>

theorem redirect_bounded:
  assumes "http_message (en_ops en)"
    and "redirect_loop en oc exp_cookies url rounds (redirect_start oc msg url jar request) = (e, st)"
  shows "length (rd_sent st) \<le> unat (oc_maxredirs oc) + 1 \<and>
    (\<forall>s \<in> set (tl (rd_sent st)). u_scheme_id (snt_url (snd s)) \<in> set (oc_proto_redir oc)) \<and>
    (length rounds > unat (oc_maxredirs oc) \<longrightarrow> e \<noteq> Loop_waiting)"
proof -
  have i: "redirect_inv (en_ops en) oc url (redirect_start oc msg url jar request)"
    by (simp add: redirect_inv_def redirect_start_def same_site_as_def)
  show ?thesis
    using redirect_loop_inv [OF assms(1) i assms(2)]
    by (auto simp: redirect_start_def tail_ok_def url_scheme_ok_def list_all_iff split: list.splits)
qed

definition ex_env :: "ref_request redirect_env" where
  "ex_env = \<lparr>en_ops = ref_ops,
     en_resolve = (\<lambda>base loc. Some (url_blank\<lparr>u_scheme_id := scheme_https, u_origin := loc\<rparr>)),
     en_remove_userinfo = id, en_parse_cookie = (\<lambda>_ _. Inr (Inl err_mismatch)), en_lower = id, en_psl = None\<rparr>"

definition ex_round :: "nat \<Rightarrow> round" where
  "ex_round status = \<lparr>ru_now = 0, ru_response = Inr \<lparr>rsp_status = status, rsp_http11 = True, rsp_close = False,
       rsp_location = Some ''https://b.io'', rsp_set_cookies = [], rsp_content_range = False,
       rsp_payload_size = None, rsp_buffer = [], rsp_dispositions = []\<rparr>, ru_discard_failed = False, ru_connect = None\<rparr>"

definition ex_oc :: operation_config where
  "ex_oc = operation_config_default\<lparr>oc_followlocation := True\<rparr>"

definition ex_start :: "ref_request redirect_state" where
  "ex_start = redirect_start ex_oc No_body
     (url_blank\<lparr>u_origin := ''https://a.io''\<rparr>) None
     (q_set ref_ops ''Authorization'' ''Basic dTpw'' (q_new ref_ops))"

lemma ex_oc_simps:
  "oc_followlocation ex_oc" "oc_post302 ex_oc = False" "oc_maxredirs ex_oc = 50" "oc_autoreferer ex_oc = False"
  "oc_proto_redir ex_oc = [scheme_http, scheme_https]" "oc_unrestricted_auth ex_oc = False"
  by (simp_all add: ex_oc_def operation_config_default_def)

lemma send_no_jar:
  assumes "rd_jar st = None"
  shows "\<exists>st1. send_request en exp_cookies now st = Inr st1 \<and> rd_jar st1 = None \<and>
    rd_sent st1 = rd_sent st @ [last (rd_sent st1)] \<and> snt_url (snd (last (rd_sent st1))) = rd_url st \<and>
    rd_maxredirs st1 = rd_maxredirs st"
  using assms by (simp add: send_request_def set_cookies_def Let_def start_serializer_def split: message.split)

lemma redirect_two_rounds:
  fixes st :: "ref_request redirect_state"
  assumes "redirect_loop ex_env ex_oc ''c=1'' (url_blank\<lparr>u_origin := ''https://a.io''\<rparr>) [ex_round 302, ex_round 200]
      ex_start = (e, st)"
  shows "length (rd_sent st) = 2 \<and> u_origin (snt_url (snd (last (rd_sent st)))) = ''https://b.io''"
proof -
  let ?org = "url_blank\<lparr>u_origin := ''https://a.io''\<rparr>"
  have jar: "rd_jar ex_start = None" "rd_sent ex_start = []" "rd_maxredirs ex_start = 50"
    by (simp_all add: ex_start_def redirect_start_def ex_oc_simps)
  obtain st1 where st1: "send_request ex_env ''c=1'' 0 ex_start = Inr st1" "rd_jar st1 = None"
      "rd_sent st1 = [last (rd_sent st1)]" "rd_maxredirs st1 = 50"
    using send_no_jar [OF jar(1), of ex_env "''c=1''" 0] jar by auto
  define st2 where "st2 = stream_headers (projr (ru_response (ex_round 302))) st1"
  have st2: "rd_jar st2 = None" "rd_maxredirs st2 = 50" "rd_sent st2 = rd_sent st1"
    using st1(2,4) by (simp_all add: st2_def stream_headers_def)
  obtain st3 where st3: "follow_redirect ex_env ex_oc ?org (ex_round 302) (projr (ru_response (ex_round 302))) True st2
       = Inr st3" "rd_jar st3 = None" "rd_sent st3 = rd_sent st2" "u_origin (rd_url st3) = ''https://b.io''"
    using st2(1,2)
    by (cases "can_reuse_connection (projr (ru_response (ex_round 302))) (rd_referer st2)
          (url_blank\<lparr>u_scheme_id := scheme_https, u_origin := ''https://b.io''\<rparr>)")
      (simp_all add: follow_redirect_def ex_round_def redirect_url_def ex_env_def url_scheme_ok_def ex_oc_simps
        next_request_def Let_def)
  obtain st4 where st4: "send_request ex_env ''c=1'' 0 st3 = Inr st4" "rd_jar st4 = None"
      "rd_sent st4 = rd_sent st3 @ [last (rd_sent st4)]" "snt_url (snd (last (rd_sent st4))) = rd_url st3"
    using send_no_jar [OF st3(2), of ex_env "''c=1''" 0] by auto
  have "redirect_loop ex_env ex_oc ''c=1'' ?org [ex_round 302, ex_round 200] ex_start =
      redirect_loop ex_env ex_oc ''c=1'' ?org [ex_round 200] st3"
    using st1 st3(1) by (simp add: ex_round_def extract_cookies_def st2_def is_redirect_def ex_oc_simps)
  also have "snd \<dots> = stream_headers (projr (ru_response (ex_round 200))) st4"
    using st4 by (simp add: ex_round_def extract_cookies_def is_redirect_def)
  finally have "rd_sent st = rd_sent st4" using assms by (simp add: stream_headers_def)
  moreover have "length (rd_sent st4) = 2" using st4(3) st3(3) st2(3) st1(3)
    by (metis One_nat_def Suc_1 length_Cons length_append_singleton list.size(3))
  ultimately show ?thesis using st4(4) st3(4) by simp
qed

theorem redirect_keeps_secrets_witness:
  "\<exists>r s. last (rd_sent (snd (redirect_loop ex_env ex_oc ''c=1''
        (url_blank\<lparr>u_origin := ''https://a.io''\<rparr>) [ex_round 302, ex_round 200] ex_start))) = (r, s) \<and>
     u_origin (snt_url s) = ''https://b.io'' \<and> q_find ref_ops ''Authorization'' r = None"
proof -
  let ?l = "redirect_loop ex_env ex_oc ''c=1'' (url_blank\<lparr>u_origin := ''https://a.io''\<rparr>) [ex_round 302, ex_round 200] ex_start"
  obtain e st where l: "?l = (e, st)" by (cases ?l)
  obtain r s where rs: "last (rd_sent st) = (r, s)" by (cases "last (rd_sent st)")
  have n: "length (rd_sent st) = 2" "u_origin (snt_url (snd (last (rd_sent st)))) = ''https://b.io''"
    using redirect_two_rounds [OF l] by simp_all
  then have "(r, s) \<in> set (rd_sent st)" using rs by (metis last_in_set length_0_conv zero_neq_numeral)
  moreover have ops: "en_ops ex_env = ref_ops" by (simp add: ex_env_def)
  have "http_message (en_ops ex_env)" unfolding ops by (rule refmsg.http_message_axioms)
  moreover note redirect_keeps_secrets [OF this l [unfolded ex_start_def]]
  ultimately have "q_find ref_ops ''Authorization'' r = None"
    using n rs ops by (force simp: ex_oc_simps)
  then show ?thesis unfolding l using rs n by simp
qed

theorem redirect_bounded_witness:
  "length (rd_sent (snd (redirect_loop ex_env ex_oc ''c=1''
        (url_blank\<lparr>u_origin := ''https://a.io''\<rparr>) [ex_round 302, ex_round 200] ex_start))) \<le>
     unat (50 :: u64) + 1"
proof -
  let ?l = "redirect_loop ex_env ex_oc ''c=1'' (url_blank\<lparr>u_origin := ''https://a.io''\<rparr>) [ex_round 302, ex_round 200] ex_start"
  obtain e st where l: "?l = (e, st)" by (cases ?l)
  have ops: "en_ops ex_env = ref_ops" by (simp add: ex_env_def)
  have "http_message (en_ops ex_env)" unfolding ops by (rule refmsg.http_message_axioms)
  from redirect_bounded [OF this l [unfolded ex_start_def]]
  have "length (rd_sent st) \<le> unat (50 :: u64) + 1" by (simp add: ex_oc_simps)
  then show ?thesis unfolding l by simp
qed

text \<open>
  The method of the next request: after a redirect that asks for it, a request that is not a
  HEAD becomes a GET without body and without the fields that describe one; otherwise method and
  body stay.  In either case the host field names the new URL, and with automatic referers the
  previous URL without its credentials is named as referer.
\<close>

theorem redirect_method_change:
  assumes "http_message (en_ops en)"
  shows "let ops = en_ops en; st' = next_request en oc org chg url st; r = rd_request st' in
    (if chg \<and> q_method ops (rd_request st) \<noteq> ''HEAD''
     then q_method ops r = ''GET'' \<and> rd_msg st' = No_body \<and> snd (start_serializer (rd_msg st') r) = None \<and>
       q_find ops ''Content-Length'' r = None \<and> q_find ops ''Content-Type'' r = None \<and>
       q_find ops ''Content-Encoding'' r = None \<and> q_find ops ''Expect'' r = None
     else q_method ops r = q_method ops (rd_request st) \<and> rd_msg st' = rd_msg st) \<and>
    q_find ops ''Host'' r = Some (u_host_and_port url) \<and>
    (oc_autoreferer oc \<longrightarrow> q_find ops ''Referer'' r = Some (u_text (en_remove_userinfo en (rd_referer st)))) \<and>
    rd_url st' = url"
proof -
  have ci: "\<not> ci_equal ''Content-Length'' g" "\<not> ci_equal ''Content-Type'' g" "\<not> ci_equal ''Content-Encoding'' g"
      "\<not> ci_equal ''Expect'' g" if "g \<in> {''Host'', ''Referer'', ''Authorization''}" for g
    using that by (auto simp: ci_equal_def to_lower_def byte_def)
  have ci2: "\<not> ci_equal ''Referer'' ''Host''" by code_simp
  show ?thesis
    by (simp add: next_request_def change_method_def Let_def start_serializer_def set_target_def
        http_message.find_laws [OF assms] http_message.method_laws [OF assms] ci ci2
        split: option.split)
qed

theorem redirect_method_change_witness:
  "q_method ref_ops (rd_request (next_request ex_env operation_config_default url_blank True url_blank
     (ex_start\<lparr>rd_request := q_set_method ref_ops ''POST'' (q_new ref_ops)\<rparr>))) = ''GET''"
proof -
  have ops: "en_ops ex_env = ref_ops" by (simp add: ex_env_def)
  have h: "http_message (en_ops ex_env)" unfolding ops by (rule refmsg.http_message_axioms)
  show ?thesis
    using redirect_method_change [OF h, of operation_config_default url_blank True url_blank
        "ex_start\<lparr>rd_request := q_set_method ref_ops ''POST'' (q_new ref_ops)\<rparr>"]
    by (simp add: ops Let_def refmsg.method_laws)
qed

subsection \<open>Retries\<close>

lemma retry_loop_bounds:
  "retry_loop oc max_time as retries backoff delays = (e, out) \<Longrightarrow>
   (\<exists>new. out = delays @ new \<and> length new \<le> unat retries) \<and> (length as > unat retries \<longrightarrow> e \<noteq> Retry_waiting)"
proof (induction as arbitrary: retries backoff delays)
  case (Cons a as)
  obtain d b where nd: "next_delay oc backoff = (d, b)" by (cases "next_delay oc backoff")
  show ?case
  proof (cases "retries = 0")
    case True
    then have "out = delays \<and> e \<noteq> Retry_waiting"
      using Cons.prems by (auto simp: retry_stop_def can_retry_def split: attempt_result.splits if_splits)
    then show ?thesis by auto
  next
    case False
    then have u: "unat retries = Suc (unat (retries - 1))" by (simp add: unat_minus_one unat_gt_0)
    consider "out = delays" "e \<noteq> Retry_waiting"
      | "retry_loop oc max_time as (retries - 1) b (delays @ [d]) = (e, out)"
      using Cons.prems nd by (auto simp: retry_stop_def Let_def split: attempt_result.splits if_splits)
    then show ?thesis
    proof cases
      case 1 then show ?thesis by auto
    next
      case 2
      from Cons.IH [OF this] u show ?thesis by auto
    qed
  qed
qed simp

fun backoffs :: "nat \<Rightarrow> nat \<Rightarrow> int list" where
  "backoffs 0 b = []"
| "backoffs (Suc n) b = (let b' = (if b < 600 then b * 2 else b) in int b' # backoffs n b')"

lemma retry_loop_delays:
  "oc_retry_delay oc = None \<Longrightarrow> retry_loop oc max_time as retries backoff delays = (e, out) \<Longrightarrow>
   \<exists>n. out = delays @ backoffs n backoff"
proof (induction as arbitrary: retries backoff delays)
  case Nil
  then show ?case by (auto intro: exI [of _ 0])
next
  case (Cons a as)
  define b where "b = (if backoff < 600 then backoff * 2 else backoff)"
  have nd: "next_delay oc backoff = (int b, b)" using Cons.prems(1) by (simp add: next_delay_def b_def Let_def)
  consider "out = delays" | "retry_loop oc max_time as (retries - 1) b (delays @ [int b]) = (e, out)"
    using Cons.prems(2) nd by (auto simp: retry_stop_def Let_def split: attempt_result.splits if_splits)
  then show ?case
  proof cases
    case 1 then show ?thesis by (auto intro: exI [of _ 0])
  next
    case 2
    from Cons.IH [OF Cons.prems(1) this] obtain n where "out = delays @ int b # backoffs n b" by auto
    then show ?thesis by (auto simp: b_def Let_def intro: exI [of _ "Suc n"])
  qed
qed

lemma backoffs_powers:
  "k \<le> 10 \<Longrightarrow> backoffs n (2 ^ k) = map (\<lambda>i. 2 ^ min (k + Suc i) 10) [0..<n]"
proof (induction n arbitrary: k)
  case (Suc n)
  show ?case
  proof (cases "k = 10")
    case True
    then show ?thesis using Suc.IH [of 10] by (simp add: Let_def map_upt_Suc del: upt_Suc)
  next
    case False
    then have k: "Suc k \<le> 10" using Suc.prems by simp
    have "(2::nat) ^ k \<le> 2 ^ 9" using k by (intro power_increasing) auto
    then have "(2::nat) ^ k < 600" by simp
    then show ?thesis
      using Suc.IH [OF k] k by (simp add: Let_def map_upt_Suc mult.commute del: upt_Suc)
  qed
qed simp

text \<open>
  Retrying comes to an end and backs off: there are never more pauses than retries allowed,
  with as many outcomes as that the loop is over, and without a fixed delay the pauses are two,
  four, eight seconds and so on, never more than 1024.
\<close>

theorem retry_bounded:
  assumes "retry oc now as = (e, delays)"
  shows "length delays \<le> unat (oc_req_retry oc) \<and>
    (length as > unat (oc_req_retry oc) \<longrightarrow> e \<noteq> Retry_waiting) \<and>
    (oc_retry_delay oc = None \<longrightarrow> delays = map (\<lambda>i. 2 ^ min (Suc i) 10) [0..<length delays])"
proof -
  note r = assms [unfolded retry_def]
  have "delays = map (\<lambda>i. 2 ^ min (Suc i) 10) [0..<length delays]" if "oc_retry_delay oc = None"
  proof -
    from retry_loop_delays [OF that r] obtain n where "delays = backoffs n (2 ^ 0)" by auto
    then have "delays = map (\<lambda>i. 2 ^ min (Suc i) 10) [0..<n]" using backoffs_powers [of 0 n] by simp
    then show ?thesis by simp
  qed
  with retry_loop_bounds [OF r] show ?thesis by auto
qed

theorem retry_bounded_witness:
  "\<exists>e delays. retry (operation_config_default\<lparr>oc_req_retry := 2\<rparr>) 0
      (replicate 3 \<lparr>at_result = Att_status 503, at_now = 1, at_cancelled = False\<rparr>) = (e, delays) \<and>
     length delays \<le> 2 \<and> e \<noteq> Retry_waiting"
proof -
  let ?oc = "operation_config_default\<lparr>oc_req_retry := 2\<rparr>"
  let ?as = "replicate 3 \<lparr>at_result = Att_status 503, at_now = 1, at_cancelled = False\<rparr>"
  obtain e delays where r: "retry ?oc 0 ?as = (e, delays)" by (cases "retry ?oc 0 ?as")
  from retry_bounded [OF r] have "length delays \<le> 2 \<and> e \<noteq> Retry_waiting" by simp
  with r show ?thesis by blast
qed

end
