(* ===== verification/Completion_System.thy ===== *)
theory Completion_System
  imports Prelude
begin

text \<open>
  Asynchronous operations as the clients write them: a state in which completions are
  outstanding, and a partial step for each completion.  The locale states what makes such an
  operation come to an end, an invariant, a bound that every step lowers and an enabled step
  until it is over, and derives what every execution then has.
\<close>

locale completion_system =
  fixes step :: "'s \<Rightarrow> 'e \<Rightarrow> 's option" and run :: "'s \<Rightarrow> 'e list \<Rightarrow> 's option"
    and inv :: "'s \<Rightarrow> bool" and left :: "'s \<Rightarrow> nat" and over :: "'s \<Rightarrow> bool"
  assumes run_Nil: "run s [] = Some s"
    and run_Cons: "run s (e # es) = (case step s e of None \<Rightarrow> None | Some s' \<Rightarrow> run s' es)"
    and step_inv: "inv s \<Longrightarrow> step s e = Some s' \<Longrightarrow> inv s'"
    and step_left: "inv s \<Longrightarrow> step s e = Some s' \<Longrightarrow> left s' < left s"
    and enabled: "inv s \<Longrightarrow> \<not> over s \<Longrightarrow> \<exists>e. step s e \<noteq> None"
begin

lemma run_ok: "run s es = Some s' \<Longrightarrow> inv s \<Longrightarrow> inv s' \<and> length es + left s' \<le> left s"
proof (induction es arbitrary: s)
  case Nil
  then show ?case by (simp add: run_Nil)
next
  case (Cons e es)
  then obtain s1 where s1: "step s e = Some s1" "run s1 es = Some s'" by (auto simp: run_Cons split: option.splits)
  show ?case
    using Cons.IH [OF s1(2) step_inv [OF Cons.prems(2) s1(1)]] step_left [OF Cons.prems(2) s1(1)] by simp
qed

lemmas run_inv = run_ok [THEN conjunct1]
lemmas run_left = run_ok [THEN conjunct2]

lemma bounded: "run s es = Some s' \<Longrightarrow> inv s \<Longrightarrow> length es \<le> left s"
  using run_left by fastforce

lemma not_stuck: "run s es = Some s' \<Longrightarrow> inv s \<Longrightarrow> over s' \<or> (\<exists>e. step s' e \<noteq> None)"
  using run_inv enabled by blast

text \<open>Some execution reaches the end: a state that is not over has a successor of smaller bound.\<close>

lemma can_finish: "inv s \<Longrightarrow> \<exists>es s'. run s es = Some s' \<and> over s'"
proof (induction "left s" arbitrary: s rule: less_induct)
  case less
  show ?case
  proof (cases "over s")
    case True
    then show ?thesis using run_Nil by blast
  next
    case False
    then obtain e s1 where s1: "step s e = Some s1" using enabled [OF less.prems] by blast
    from less.hyps [OF step_left [OF less.prems s1] step_inv [OF less.prems s1]] obtain es s' where
      "run s1 es = Some s'" "over s'" by blast
    then have "run s (e # es) = Some s'" using s1 by (simp add: run_Cons)
    then show ?thesis using \<open>over s'\<close> by blast
  qed
qed

end

end
