(* ===== verification/Request_Op.thy ===== *)
theory Request_Op
  imports Prelude Completion_System
begin

text \<open>
  The composed operation \<^verbatim>\<open>async_request\<close> of the burl client (\<^verbatim>\<open>request.hpp\<close>): it writes a
  request and reads the header of the response, and when the request expects
  \<^verbatim>\<open>100-continue\<close> it holds the body back until a timer ends or the server answers.  Both
  branches of the parallel group are kept as explicit states, and one step is one completion
  handler that Boost.Asio invokes; which one comes next is up to the network and the clock.
\<close>

subsection \<open>The operation\<close>

text \<open>Error codes, as far as the operation distinguishes them.\<close>

datatype op_ec = Ec_ok | Ec_expect_100_continue | Ec_other nat

datatype exp100 = awaiting | received | cancelled

text \<open>The branch of the timer: waiting, writing the body, done.\<close>

datatype timer_branch = Timer_wait | Body_write | Timer_branch_done op_ec

text \<open>The branch of the response: reading the first header, reading the one after a
  \<^verbatim>\<open>100 Continue\<close>, done.\<close>

datatype read_branch = Header_wait | Final_header_wait | Read_branch_done op_ec

datatype request_phase =
    Phase_write
  | Phase_read
  | Phase_group exp100 timer_branch read_branch
  | Phase_complete op_ec

text \<open>Besides the phase: whether the timer was cancelled, and how often the body was written out
  and the parser restarted.\<close>

record request_op =
  op_phase :: request_phase
  op_timer_cancelled :: bool
  op_body_writes :: nat
  op_parser_starts :: nat

definition request_op_start :: request_op where
  "request_op_start =
     \<lparr>op_phase = Phase_write, op_timer_cancelled = False, op_body_writes = 0, op_parser_starts = 0\<rparr>"

text \<open>The completions: of the first write, of the only read, of the timer, of the body, of the
  first header with its status, and of the header after it.\<close>

datatype op_event =
    Write_done op_ec
  | Read_done op_ec
  | Timer_done op_ec
  | Body_done op_ec
  | Header_done op_ec nat
  | Final_header_done op_ec

text \<open>The main entry of the coroutine, resumed after the first write.\<close>

definition on_write :: "op_ec \<Rightarrow> request_op \<Rightarrow> request_op" where
  "on_write ec op =
     (if ec = Ec_ok then op\<lparr>op_phase := Phase_read\<rparr>
      else if ec \<noteq> Ec_expect_100_continue then op\<lparr>op_phase := Phase_complete ec\<rparr>
      else op\<lparr>op_phase := Phase_group awaiting Timer_wait Header_wait\<rparr>)"

text \<open>The continuation of the timer: its error code is not looked at.\<close>

definition on_timer :: "exp100 \<Rightarrow> read_branch \<Rightarrow> request_op \<Rightarrow> request_op" where
  "on_timer st rb op =
     (if st \<noteq> cancelled
      then op\<lparr>op_phase := Phase_group st Body_write rb, op_body_writes := Suc (op_body_writes op)\<rparr>
      else op\<lparr>op_phase := Phase_group st (Timer_branch_done Ec_ok) rb\<rparr>)"

text \<open>The continuation of the first header.\<close>

definition on_header :: "op_ec \<Rightarrow> nat \<Rightarrow> timer_branch \<Rightarrow> request_op \<Rightarrow> request_op" where
  "on_header ec status tb op0 =
     (let op = op0\<lparr>op_timer_cancelled := True\<rparr> in
      if ec \<noteq> Ec_ok \<or> status \<noteq> 100
      then op\<lparr>op_phase := Phase_group cancelled tb (Read_branch_done ec)\<rparr>
      else op\<lparr>op_phase := Phase_group received tb Final_header_wait,
              op_parser_starts := Suc (op_parser_starts op)\<rparr>)"

text \<open>The second entry, called when both branches of the group have ended.\<close>

definition join_group :: "request_op \<Rightarrow> request_op" where
  "join_group op =
     (case op_phase op of
        Phase_group st (Timer_branch_done ec1) (Read_branch_done ec2) \<Rightarrow>
          op\<lparr>op_phase := Phase_complete (if ec1 \<noteq> Ec_ok then ec1 else ec2)\<rparr>
      | _ \<Rightarrow> op)"

text \<open>One completion; None when nothing is outstanding that could complete this way.\<close>

definition op_step :: "request_op \<Rightarrow> op_event \<Rightarrow> request_op option" where
  "op_step op ev =
     (case (op_phase op, ev) of
        (Phase_write, Write_done ec) \<Rightarrow> Some (on_write ec op)
      | (Phase_read, Read_done ec) \<Rightarrow> Some (op\<lparr>op_phase := Phase_complete ec\<rparr>)
      | (Phase_group st Timer_wait rb, Timer_done ec) \<Rightarrow> Some (join_group (on_timer st rb op))
      | (Phase_group st Body_write rb, Body_done ec) \<Rightarrow>
          Some (join_group (op\<lparr>op_phase := Phase_group st (Timer_branch_done ec) rb\<rparr>))
      | (Phase_group st tb Header_wait, Header_done ec status) \<Rightarrow> Some (join_group (on_header ec status tb op))
      | (Phase_group st tb Final_header_wait, Final_header_done ec) \<Rightarrow>
          Some (join_group (op\<lparr>op_phase := Phase_group st tb (Read_branch_done ec)\<rparr>))
      | _ \<Rightarrow> None)"

fun op_run :: "request_op \<Rightarrow> op_event list \<Rightarrow> request_op option" where
  "op_run op [] = Some op"
| "op_run op (ev # evs) = (case op_step op ev of None \<Rightarrow> None | Some op' \<Rightarrow> op_run op' evs)"

subsection \<open>What an execution amounts to\<close>

text \<open>Read off the completions alone: whether the timer ended before a final answer or a failure
  of the read, the error of the body's write, and the error of the decisive read.\<close>

fun timer_first :: "op_event list \<Rightarrow> bool" where
  "timer_first [] = False"
| "timer_first (ev # evs) =
     (case ev of Timer_done e \<Rightarrow> True
      | Header_done e s \<Rightarrow> e = Ec_ok \<and> s = 100 \<and> timer_first evs
      | _ \<Rightarrow> timer_first evs)"

fun got_continue :: "op_event list \<Rightarrow> bool" where
  "got_continue [] = False"
| "got_continue (ev # evs) =
     (case ev of Header_done e s \<Rightarrow> e = Ec_ok \<and> s = 100 | _ \<Rightarrow> got_continue evs)"

fun body_ec :: "op_event list \<Rightarrow> op_ec" where
  "body_ec [] = Ec_ok"
| "body_ec (ev # evs) = (case ev of Body_done e \<Rightarrow> e | _ \<Rightarrow> body_ec evs)"

fun read_ec :: "op_event list \<Rightarrow> op_ec" where
  "read_ec [] = Ec_ok"
| "read_ec (ev # evs) =
     (case ev of Header_done e s \<Rightarrow> if e = Ec_ok \<and> s = 100 then read_ec evs else e
      | Final_header_done e \<Rightarrow> e
      | Read_done e \<Rightarrow> e
      | _ \<Rightarrow> read_ec evs)"

definition request_result :: "op_ec \<Rightarrow> op_event list \<Rightarrow> op_ec" where
  "request_result ec evs =
     (if ec = Ec_ok then read_ec evs
      else if ec \<noteq> Ec_expect_100_continue then ec
      else if body_ec evs \<noteq> Ec_ok then body_ec evs else read_ec evs)"

text \<open>The states of the group that can occur, and the steps a phase still has ahead at most.\<close>

fun group_ok :: "request_phase \<Rightarrow> bool \<Rightarrow> bool" where
  "group_ok (Phase_group st tb rb) tc \<longleftrightarrow>
     (rb = Header_wait \<longleftrightarrow> st = awaiting) \<and> (rb = Final_header_wait \<longrightarrow> st = received) \<and>
     (rb \<noteq> Header_wait \<longrightarrow> tc) \<and>
     \<not> (\<exists>e1 e2. tb = Timer_branch_done e1 \<and> rb = Read_branch_done e2)"
| "group_ok _ tc \<longleftrightarrow> True"

fun steps_left :: "request_phase \<Rightarrow> nat" where
  "steps_left Phase_write = 5"
| "steps_left Phase_read = 1"
| "steps_left (Phase_group st tb rb) =
     (case tb of Timer_wait \<Rightarrow> 2 | Body_write \<Rightarrow> 1 | _ \<Rightarrow> 0) +
     (case rb of Header_wait \<Rightarrow> 2 | Final_header_wait \<Rightarrow> 1 | _ \<Rightarrow> 0)"
| "steps_left (Phase_complete ec) = 0"

lemmas op_defs = op_step_def on_write_def on_timer_def on_header_def join_group_def Let_def

lemma op_step_ok:
  assumes "op_step op ev = Some op'" "group_ok (op_phase op) (op_timer_cancelled op)"
  shows "group_ok (op_phase op') (op_timer_cancelled op') \<and> steps_left (op_phase op') < steps_left (op_phase op)"
  using assms
  by (auto simp: op_defs split: request_phase.splits op_event.splits timer_branch.splits read_branch.splits if_splits)

lemma op_enabled:
  assumes "group_ok (op_phase op) (op_timer_cancelled op)" "\<And>ec. op_phase op \<noteq> Phase_complete ec"
  shows "\<exists>ev. op_step op ev \<noteq> None"
proof (cases "op_phase op")
  case Phase_write
  then show ?thesis by (intro exI [of _ "Write_done Ec_ok"]) (simp add: op_step_def)
next
  case Phase_read
  then show ?thesis by (intro exI [of _ "Read_done Ec_ok"]) (simp add: op_step_def)
next
  case (Phase_group st tb rb)
  then consider "tb = Timer_wait" | "tb = Body_write" | "rb = Header_wait" | "rb = Final_header_wait"
    using assms(1) by (cases tb; cases rb) auto
  then show ?thesis
  proof cases
    case 1 then show ?thesis using Phase_group by (intro exI [of _ "Timer_done Ec_ok"]) (simp add: op_step_def split: read_branch.split)
  next
    case 2 then show ?thesis using Phase_group by (intro exI [of _ "Body_done Ec_ok"]) (simp add: op_step_def split: read_branch.split)
  next
    case 3 then show ?thesis using Phase_group
      by (intro exI [of _ "Header_done Ec_ok 200"]) (simp add: op_step_def split: timer_branch.split)
  next
    case 4 then show ?thesis using Phase_group
      by (intro exI [of _ "Final_header_done Ec_ok"]) (simp add: op_step_def split: timer_branch.split)
  qed
next
  case Phase_complete then show ?thesis using assms(2) by blast
qed

interpretation rqop: completion_system op_step op_run "\<lambda>op. group_ok (op_phase op) (op_timer_cancelled op)"
  "\<lambda>op. steps_left (op_phase op)" "\<lambda>op. \<exists>ec. op_phase op = Phase_complete ec"
  by unfold_locales (use op_step_ok op_enabled in \<open>auto\<close>)

subsection \<open>Results\<close>

definition timer_branch_ec :: "timer_branch \<Rightarrow> op_event list \<Rightarrow> op_ec" where
  "timer_branch_ec tb evs = (case tb of Timer_branch_done e \<Rightarrow> e | _ \<Rightarrow> body_ec evs)"

definition read_branch_ec :: "read_branch \<Rightarrow> op_event list \<Rightarrow> op_ec" where
  "read_branch_ec rb evs = (case rb of Read_branch_done e \<Rightarrow> e | _ \<Rightarrow> read_ec evs)"

definition body_due :: "exp100 \<Rightarrow> timer_branch \<Rightarrow> op_event list \<Rightarrow> bool" where
  "body_due st tb evs \<longleftrightarrow> tb = Timer_wait \<and> st \<noteq> cancelled \<and> timer_first evs"

text \<open>What the rest of a run adds, from any state of the group.\<close>

definition group_spec :: "request_op \<Rightarrow> op_event list \<Rightarrow> request_op \<Rightarrow> bool" where
  "group_spec op evs op' \<longleftrightarrow>
     (case op_phase op of
        Phase_group st tb rb \<Rightarrow>
          op_body_writes op' = op_body_writes op + (if body_due st tb evs then 1 else 0) \<and>
          op_parser_starts op' = op_parser_starts op + (if rb = Header_wait \<and> got_continue evs then 1 else 0) \<and>
          (\<forall>r. op_phase op' = Phase_complete r \<longrightarrow>
             r = (if timer_branch_ec tb evs \<noteq> Ec_ok then timer_branch_ec tb evs else read_branch_ec rb evs))
      | Phase_complete r \<Rightarrow> evs = [] \<and> op' = op
      | _ \<Rightarrow> True)"

lemmas group_spec_defs = group_spec_def timer_branch_ec_def read_branch_ec_def body_due_def

lemma op_step_complete: "op_phase op = Phase_complete r \<Longrightarrow> op_step op ev = None"
  by (simp add: op_step_def)

lemma group_spec_step:
  assumes "op_step op ev = Some op1" "group_ok (op_phase op) (op_timer_cancelled op)"
    "op_phase op = Phase_group st tb rb" "group_spec op1 evs op'"
  shows "group_spec op (ev # evs) op'"
  using assms
  by (cases tb; cases rb; cases ev)
    (auto simp: op_defs group_spec_defs split: if_splits exp100.splits)

lemma op_run_group:
  "op_run op evs = Some op' \<Longrightarrow> group_ok (op_phase op) (op_timer_cancelled op) \<Longrightarrow> group_spec op evs op'"
proof (induction evs arbitrary: op)
  case Nil
  then show ?case by (auto simp: group_spec_defs split: request_phase.splits)
next
  case (Cons ev evs)
  then obtain op1 where s: "op_step op ev = Some op1" "op_run op1 evs = Some op'"
    by (auto split: option.splits)
  have ih: "group_spec op1 evs op'"
    using Cons.IH [OF s(2)] op_step_ok [OF s(1) Cons.prems(2)] by blast
  show ?case
  proof (cases "op_phase op")
    case (Phase_group st tb rb)
    from group_spec_step [OF s(1) Cons.prems(2) this ih] show ?thesis .
  next
    case (Phase_complete r)
    then show ?thesis using s(1) by (simp add: op_step_complete)
  qed (simp_all add: group_spec_def)
qed

lemma request_op_start_ok: "group_ok (op_phase request_op_start) (op_timer_cancelled request_op_start)"
  by (simp add: request_op_start_def)

text \<open>
  C8. What a request does to the connection, for every order of completions: the body of a
  request that expects a confirmation is written exactly once when the timer's handler runs
  before a final answer or a failed read, and never otherwise; the parser is started anew
  exactly when the confirmation came; the operation reports the error of writing the body if
  there is one, and else the error of the decisive read.
\<close>

theorem request_op_outcome:
  assumes "op_run request_op_start (Write_done ec # evs) = Some op"
  shows "op_body_writes op = (if ec = Ec_expect_100_continue \<and> timer_first evs then 1 else 0) \<and>
    op_parser_starts op = (if ec = Ec_expect_100_continue \<and> got_continue evs then 1 else 0) \<and>
    (\<forall>r. op_phase op = Phase_complete r \<longrightarrow> r = request_result ec evs)"
proof -
  define op1 where "op1 = on_write ec request_op_start"
  have run: "op_run op1 evs = Some op" using assms by (simp add: op1_def op_step_def request_op_start_def)
  consider "ec = Ec_expect_100_continue" | "ec = Ec_ok" | "ec \<noteq> Ec_ok" "ec \<noteq> Ec_expect_100_continue" by blast
  then show ?thesis
  proof cases
    case 1
    then have "op_phase op1 = Phase_group awaiting Timer_wait Header_wait" "op_body_writes op1 = 0"
        "op_parser_starts op1 = 0"
      by (simp_all add: op1_def on_write_def request_op_start_def)
    with op_run_group [OF run] 1 show ?thesis by (auto simp: group_spec_defs request_result_def)
  next
    case 2
    then have op1: "op1 = request_op_start\<lparr>op_phase := Phase_read\<rparr>" by (simp add: op1_def on_write_def)
    show ?thesis
    proof (cases evs)
      case Nil
      then show ?thesis using run op1 2 by (auto simp: request_op_start_def)
    next
      case (Cons ev evs')
      then obtain e where e: "ev = Read_done e"
        and op: "op_run (op1\<lparr>op_phase := Phase_complete e\<rparr>) evs' = Some op"
        using run op1 by (auto simp: op_step_def split: option.splits op_event.splits)
      with op_run_group [OF op] 2 op1 Cons show ?thesis
        by (simp add: group_spec_def request_result_def request_op_start_def)
    qed
  next
    case 3
    then have "op1 = request_op_start\<lparr>op_phase := Phase_complete ec\<rparr>" by (simp add: op1_def on_write_def)
    with op_run_group [OF run] 3 show ?thesis
      by (simp add: group_spec_def request_result_def request_op_start_def)
  qed
qed

theorem request_op_outcome_witness:
  "\<exists>op. op_run request_op_start [Write_done Ec_expect_100_continue, Header_done Ec_ok 417, Timer_done (Ec_other 1)]
      = Some op \<and> op_body_writes op = 0 \<and> op_phase op = Phase_complete Ec_ok"
proof -
  let ?evs = "[Header_done Ec_ok 417, Timer_done (Ec_other 1)]"
  obtain op where op: "op_run request_op_start (Write_done Ec_expect_100_continue # ?evs) = Some op"
      "op_phase op = Phase_complete Ec_ok"
    by (simp add: op_defs request_op_start_def)
  from request_op_outcome [OF op(1)] op show ?thesis by simp
qed

text \<open>
  C26. The operation always comes to its end: while it is not complete some completion is
  outstanding, no execution has more than five of them, and once an answer has arrived the
  timer is cancelled, so that nobody waits for it to run out.
\<close>

theorem request_op_progress:
  assumes "op_run request_op_start evs = Some op"
  shows "length evs \<le> 5 \<and>
    ((\<exists>ec. op_phase op = Phase_complete ec) \<or> (\<exists>ev. op_step op ev \<noteq> None)) \<and>
    (\<forall>st tb rb. op_phase op = Phase_group st tb rb \<and> rb \<noteq> Header_wait \<longrightarrow> op_timer_cancelled op)"
proof -
  note ok = rqop.run_inv [OF assms request_op_start_ok]
  have "length evs \<le> 5" using rqop.bounded [OF assms request_op_start_ok] by (simp add: request_op_start_def)
  moreover have "(\<exists>ec. op_phase op = Phase_complete ec) \<or> (\<exists>ev. op_step op ev \<noteq> None)"
    by (rule rqop.not_stuck [OF assms request_op_start_ok])
  moreover have "op_timer_cancelled op" if "op_phase op = Phase_group st tb rb" "rb \<noteq> Header_wait" for st tb rb
    using ok that by simp
  ultimately show ?thesis by blast
qed

theorem request_op_progress_witness:
  "\<exists>op. op_run request_op_start [Write_done Ec_expect_100_continue, Header_done Ec_ok 100] = Some op \<and>
     op_timer_cancelled op"
proof -
  obtain op st tb where op: "op_run request_op_start [Write_done Ec_expect_100_continue, Header_done Ec_ok 100] = Some op"
      "op_phase op = Phase_group st tb Final_header_wait"
    by (simp add: op_defs request_op_start_def)
  from request_op_progress [OF op(1)] op show ?thesis by blast
qed

end
