(* ===== verification/Connect.thy ===== *)
theory Connect
  imports Burl_Config Base64
begin

text \<open>
  Establishing a connection in the burl client (\<^verbatim>\<open>connect.cpp\<close>): directly, through an HTTP or a
  SOCKS5 proxy or over a Unix socket, with TLS on top.  The network belongs to Boost.Asio and
  OpenSSL: what the resolver, the connects, the peer's bytes and the handshake bring is the
  environment an operation runs in, and everything the client does to it is logged in order.
\<close>

subsection \<open>The network\<close>

datatype tcp_endpoint = Ep_v4 nat nat | Ep_v6 nat nat

definition is_v6 :: "tcp_endpoint \<Rightarrow> bool" where
  "is_v6 e = (case e of Ep_v4 a p \<Rightarrow> False | Ep_v6 a p \<Rightarrow> True)"

definition is_v4 :: "tcp_endpoint \<Rightarrow> bool" where
  "is_v4 e = (case e of Ep_v4 a p \<Rightarrow> True | Ep_v6 a p \<Rightarrow> False)"

datatype 'rq net_act =
    Resolved string string
  | Connected tcp_endpoint
  | Unix_connected string
  | Sent "u8 list"
  | Received "u8 list"
  | Sent_request 'rq
  | No_delay
  | Keep_alive bool
  | Sni string
  | Verify_host string
  | Handshaken

record 'rq net =
  nt_resolve :: "string \<Rightarrow> string \<Rightarrow> exn + tcp_endpoint list"
  nt_accepts :: "tcp_endpoint \<Rightarrow> bool"
  nt_unix :: "string \<Rightarrow> exn option"
  nt_in :: "u8 list"
  nt_writes :: nat
  nt_proxy_status :: "exn + nat"
  nt_sni_ok :: "string \<Rightarrow> bool"
  nt_handshake :: "string \<Rightarrow> exn option"
  nt_log :: "'rq net_act list"

text \<open>An awaited operation either throws or returns a value, in the network it leaves.\<close>

type_synonym ('rq, 'a) awaitable = "'rq net \<Rightarrow> (exn + 'a) \<times> 'rq net"

definition co_return :: "'a \<Rightarrow> ('rq, 'a) awaitable" where
  "co_return x s = (Inr x, s)"

definition co_throw :: "exn \<Rightarrow> ('rq, 'a) awaitable" where
  "co_throw e s = (Inl e, s)"

definition co_bind :: "('rq, 'a) awaitable \<Rightarrow> ('a \<Rightarrow> ('rq, 'b) awaitable) \<Rightarrow> ('rq, 'b) awaitable" where
  "co_bind m k s = (case m s of (Inl e, s') \<Rightarrow> (Inl e, s') | (Inr x, s') \<Rightarrow> k x s')"

definition co_lift :: "exn + 'a \<Rightarrow> ('rq, 'a) awaitable" where
  "co_lift r s = (r, s)"

definition log_act :: "'rq net_act \<Rightarrow> ('rq, unit) awaitable" where
  "log_act a s = (Inr (), s\<lparr>nt_log := nt_log s @ [a]\<rparr>)"

text \<open>The operations of Boost.Asio: resolving, connecting to the first endpoint that a condition
  admits and that accepts, reading exactly and writing all.\<close>

definition async_resolve :: "string \<Rightarrow> string \<Rightarrow> ('rq, tcp_endpoint list) awaitable" where
  "async_resolve host port =
     co_bind (log_act (Resolved host port)) (\<lambda>_ s. (nt_resolve s host port, s))"

fun async_connect_loop :: "(tcp_endpoint \<Rightarrow> bool) \<Rightarrow> exn \<Rightarrow> tcp_endpoint list \<Rightarrow> ('rq, unit) awaitable" where
  "async_connect_loop cond err [] = co_throw err"
| "async_connect_loop cond err (e # es) =
     (if \<not> cond e then async_connect_loop cond err es
      else (\<lambda>s. if nt_accepts s e then log_act (Connected e) s
           else async_connect_loop cond (system_error ''connect'') es s))"

definition async_connect :: "(tcp_endpoint \<Rightarrow> bool) \<Rightarrow> tcp_endpoint list \<Rightarrow> ('rq, unit) awaitable" where
  "async_connect cond es = async_connect_loop cond (system_error ''not_found'') es"

definition async_read :: "nat \<Rightarrow> ('rq, u8 list) awaitable" where
  "async_read n s =
     (if length (nt_in s) < n then (Inl (system_error ''eof''), s\<lparr>nt_in := []\<rparr>)
      else (Inr (take n (nt_in s)),
            s\<lparr>nt_in := drop n (nt_in s), nt_log := nt_log s @ [Received (take n (nt_in s))]\<rparr>))"

definition async_write :: "u8 list \<Rightarrow> ('rq, unit) awaitable" where
  "async_write bs s =
     (case nt_writes s of
        0 \<Rightarrow> (Inl (system_error ''write''), s)
      | Suc n \<Rightarrow> (Inr (), s\<lparr>nt_writes := n, nt_log := nt_log s @ [Sent bs]\<rparr>))"

subsection \<open>Ports\<close>

definition effective_port :: "url_view \<Rightarrow> exn + string" where
  "effective_port url =
     (if u_has_port url then Inr (u_port url)
      else if u_scheme url = ''https'' then Inr ''443''
      else if u_scheme url = ''http'' then Inr ''80''
      else if u_scheme url = ''socks5'' then Inr ''1080''
      else Inl (runtime_error ''Unsupported scheme''))"

text \<open>\<^verbatim>\<open>static_cast<std::uint16_t>(std::stoul(port))\<close>, with 64-bit \<^verbatim>\<open>unsigned long\<close>.\<close>

definition port_number :: "string \<Rightarrow> exn + u16" where
  "port_number p = rmap (\<lambda>w. ucast w) (stoull p)"

subsection \<open>SOCKS5\<close>

definition octets_of :: "string \<Rightarrow> u8 list" where
  "octets_of s = map (\<lambda>c. of_int (byte c)) s"

text \<open>A length and the text, the length cut to eight bits.\<close>

definition push_counted :: "string \<Rightarrow> u8 list" where
  "push_counted s = of_nat (length s) # octets_of s"

definition greeting_req :: "url_view \<Rightarrow> u8 list" where
  "greeting_req proxy = (if u_has_userinfo proxy then [5, 2, 0, 2] else [5, 1, 0])"

definition auth_req :: "url_view \<Rightarrow> u8 list" where
  "auth_req proxy = 1 # push_counted (u_user proxy) @ push_counted (u_password proxy)"

definition conn_req :: "url_view \<Rightarrow> u16 \<Rightarrow> u8 list" where
  "conn_req url port =
     [5, 1, 0, 3] @ push_counted (u_host url) @ [ucast (and (drop_bit 8 port) 0xFF), ucast (and port 0xFF)]"

definition socks5_authenticate :: "url_view \<Rightarrow> u8 \<Rightarrow> ('rq, unit) awaitable" where
  "socks5_authenticate proxy method =
     (if method = 0 then co_return ()
      else if method = 2
      then co_bind (async_write (auth_req proxy)) (\<lambda>_.
           co_bind (async_read 2) (\<lambda>auth_resp.
           if auth_resp ! 1 \<noteq> 0 then co_throw (runtime_error ''SOCKS5 authentication failed'')
           else co_return ()))
      else co_throw (runtime_error ''SOCKS5 no acceptable authentication method''))"

text \<open>The number of bytes still to be read, after the first five of the reply.\<close>

definition conn_resp_tail :: "u8 list \<Rightarrow> exn + nat" where
  "conn_resp_tail head =
     (if head ! 3 = 1 then Inr (4 + 2 - 1)
      else if head ! 3 = 3 then Inr (unat (head ! 4) + 2 - 1)
      else if head ! 3 = 4 then Inr (16 + 2 - 1)
      else Inl (runtime_error ''SOCKS5 invalid address type''))"

definition socks5_request :: "url_view \<Rightarrow> ('rq, unit) awaitable" where
  "socks5_request url =
     co_bind (co_lift (rbind (effective_port url) port_number)) (\<lambda>port.
     co_bind (async_write (conn_req url port)) (\<lambda>_.
     co_bind (async_read 5) (\<lambda>conn_resp_head.
     if conn_resp_head ! 1 \<noteq> 0 then co_throw (runtime_error ''SOCKS5 connection request failed'')
     else
       co_bind (co_lift (conn_resp_tail conn_resp_head)) (\<lambda>n.
       co_bind (async_read n) (\<lambda>_. co_return ())))))"

definition connect_socks5_proxy :: "url_view \<Rightarrow> url_view \<Rightarrow> ('rq, unit) awaitable" where
  "connect_socks5_proxy url proxy =
     co_bind (co_lift (effective_port proxy)) (\<lambda>proxy_port.
     co_bind (async_resolve (u_host proxy) proxy_port) (\<lambda>rresults.
     co_bind (async_connect (\<lambda>_. True) rresults) (\<lambda>_.
     co_bind (async_write (greeting_req proxy)) (\<lambda>_.
     co_bind (async_read 2) (\<lambda>greeting_resp.
     if greeting_resp ! 0 \<noteq> 5 then co_throw (runtime_error ''SOCKS5 invalid version'')
     else
       co_bind (socks5_authenticate proxy (greeting_resp ! 1)) (\<lambda>_.
       socks5_request url))))))"

subsection \<open>HTTP proxies\<close>

definition proxy_request :: "'rq request_ops \<Rightarrow> operation_config \<Rightarrow> string \<Rightarrow> url_view \<Rightarrow> 'rq" where
  "proxy_request ops oc host_port proxy =
     (let r1 = q_set_target ops host_port (q_set_method ops ''CONNECT'' (q_new ops));
          r2 = q_set ops ''Proxy-Connection'' ''keep-alive'' (q_set ops ''Host'' host_port r1);
          r3 = q_set ops ''User-Agent'' (case oc_useragent oc of Some a \<Rightarrow> a | None \<Rightarrow> ''Boost.Http.Io'') r2 in
      if u_has_userinfo proxy
      then q_set ops ''Proxy-Authorization'' (base64_encode ''Basic '' (u_userinfo proxy)) r3
      else r3)"

definition connect_http_proxy ::
    "'rq request_ops \<Rightarrow> operation_config \<Rightarrow> url_view \<Rightarrow> url_view \<Rightarrow> ('rq, unit) awaitable" where
  "connect_http_proxy ops oc url proxy =
     co_bind (co_lift (effective_port proxy)) (\<lambda>proxy_port.
     co_bind (async_resolve (u_host proxy) proxy_port) (\<lambda>rresults.
     co_bind (async_connect (\<lambda>_. True) rresults) (\<lambda>_.
     co_bind (co_lift (rmap (\<lambda>p. u_host url @ '':'' @ p) (effective_port url))) (\<lambda>host_port.
     co_bind (log_act (Sent_request (proxy_request ops oc host_port proxy))) (\<lambda>_.
     co_bind (\<lambda>s. (nt_proxy_status s, s)) (\<lambda>status.
     if status \<noteq> 200 then co_throw (runtime_error ''Proxy server rejected the connection'')
     else co_return ()))))))"

subsection \<open>TLS and the whole connect\<close>

datatype transport = Plain_unix | Tls_unix | Plain_tcp | Tls_tcp

definition perform_tls_handshake :: "string \<Rightarrow> ('rq, unit) awaitable" where
  "perform_tls_handshake host =
     (\<lambda>s. if \<not> nt_sni_ok s host then (Inl (system_error ''ssl''), s)
      else
        co_bind (log_act (Sni host)) (\<lambda>_.
        co_bind (log_act (Verify_host host)) (\<lambda>_ s'.
          case nt_handshake s' host of
            Some e \<Rightarrow> (Inl e, s')
          | None \<Rightarrow> log_act Handshaken s')) s)"

definition unix_connect :: "string \<Rightarrow> ('rq, unit) awaitable" where
  "unix_connect path =
     (\<lambda>s. case nt_unix s path of Some e \<Rightarrow> (Inl e, s) | None \<Rightarrow> log_act (Unix_connected path) s)"

definition optional_rewrite :: "url_rewrite option \<Rightarrow> url_view \<Rightarrow> exn + url_view" where
  "optional_rewrite f url = (case f of Some g \<Rightarrow> g url | None \<Rightarrow> Inr url)"

definition admits :: "operation_config \<Rightarrow> tcp_endpoint \<Rightarrow> bool" where
  "admits oc e =
     (if oc_ipv4 oc \<and> is_v6 e then False
      else if oc_ipv6 oc \<and> is_v4 e then False
      else True)"

definition connect_tcp :: "'rq request_ops \<Rightarrow> operation_config \<Rightarrow> url_view \<Rightarrow> ('rq, unit) awaitable" where
  "connect_tcp ops oc url =
     (if u_text (oc_proxy oc) \<noteq> []
      then
        if u_scheme (oc_proxy oc) = ''http'' then connect_http_proxy ops oc url (oc_proxy oc)
        else if u_scheme (oc_proxy oc) = ''socks5'' then connect_socks5_proxy url (oc_proxy oc)
        else co_throw (runtime_error ''only HTTP and SOCKS5 proxies are supported'')
      else
        co_bind (co_lift (effective_port url)) (\<lambda>port.
        co_bind (async_resolve (u_host url) port) (\<lambda>rresults.
        async_connect (admits oc) rresults)))"

definition finish_transport :: "url_view \<Rightarrow> string \<Rightarrow> transport \<Rightarrow> transport \<Rightarrow> ('rq, transport) awaitable" where
  "finish_transport url org_host tls plain =
     (if u_scheme_id url = scheme_https
      then co_bind (perform_tls_handshake org_host) (\<lambda>_. co_return tls)
      else co_return plain)"

definition connect :: "'rq request_ops \<Rightarrow> operation_config \<Rightarrow> url_view \<Rightarrow> ('rq, transport) awaitable" where
  "connect ops oc org_url =
     (let org_host = u_host org_url in
      if oc_unix_socket_path oc \<noteq> []
      then co_bind (unix_connect (oc_unix_socket_path oc)) (\<lambda>_.
           finish_transport org_url org_host Tls_unix Plain_unix)
      else
        co_bind (co_lift (rbind (optional_rewrite (oc_connect_to oc) org_url)
                                (optional_rewrite (oc_resolve_to oc)))) (\<lambda>url.
        co_bind (connect_tcp ops oc url) (\<lambda>_.
        co_bind (if oc_tcp_nodelay oc then log_act No_delay else co_return ()) (\<lambda>_.
        co_bind (if oc_nokeepalive oc then log_act (Keep_alive False) else co_return ()) (\<lambda>_.
        finish_transport url org_host Tls_tcp Plain_tcp)))))"

end
