(* ===== verification/Connect_Proofs.thy ===== *)
theory Connect_Proofs
  imports Connect
begin

text \<open>
  What the burl client does on the network while it connects: the names TLS is checked against,
  the endpoints it accepts, the bytes of a SOCKS5 negotiation and what they leave unread.
\<close>

unbundle bit_operations_syntax

subsection \<open>What an operation logs\<close>

definition emits :: "('rq net_act \<Rightarrow> bool) \<Rightarrow> ('rq, 'a) awaitable \<Rightarrow> bool" where
  "emits P m \<longleftrightarrow> (\<forall>s r s'. m s = (r, s') \<longrightarrow> (\<exists>new. nt_log s' = nt_log s @ new \<and> list_all P new))"

named_theorems emit_intros \<open>rules for the actions an awaited operation logs\<close>

lemma emits_return [emit_intros]: "emits P (co_return x)"
  by (simp add: emits_def co_return_def)

lemma emits_throw [emit_intros]: "emits P (co_throw e)"
  by (simp add: emits_def co_throw_def)

lemma emits_lift [emit_intros]: "emits P (co_lift r)"
  by (simp add: emits_def co_lift_def)

lemma emits_look [emit_intros]: "emits P (\<lambda>s. (f s, s))"
  by (simp add: emits_def)

lemma emits_log [emit_intros]: "P a \<Longrightarrow> emits P (log_act a)"
  by (simp add: emits_def log_act_def)

lemma emits_bind [emit_intros]:
  assumes "emits P m" "\<And>x. emits P (k x)"
  shows "emits P (co_bind m k)"
  unfolding emits_def
proof (intro allI impI)
  fix s r s' assume b: "co_bind m k s = (r, s')"
  obtain r1 s1 where m: "m s = (r1, s1)" by (cases "m s")
  then obtain n1 where n1: "nt_log s1 = nt_log s @ n1" "list_all P n1"
    using assms(1) unfolding emits_def by blast
  show "\<exists>new. nt_log s' = nt_log s @ new \<and> list_all P new"
  proof (cases r1)
    case (Inl e)
    then show ?thesis using b m n1 by (auto simp: co_bind_def)
  next
    case (Inr x)
    then have "k x s1 = (r, s')" using b m by (simp add: co_bind_def)
    then obtain n2 where "nt_log s' = nt_log s1 @ n2" "list_all P n2"
      using assms(2) unfolding emits_def by blast
    then show ?thesis using n1 by auto
  qed
qed

lemma emits_if [emit_intros]: "emits P m \<Longrightarrow> emits P m' \<Longrightarrow> emits P (if b then m else m')"
  by simp

lemma emits_read [emit_intros]: "(\<And>bs. P (Received bs)) \<Longrightarrow> emits P (async_read n)"
  by (auto simp: emits_def async_read_def)

lemma emits_write [emit_intros]: "P (Sent bs) \<Longrightarrow> emits P (async_write bs)"
  by (auto simp: emits_def async_write_def split: nat.splits)

lemma emits_resolve [emit_intros]: "P (Resolved h p) \<Longrightarrow> emits P (async_resolve h p)"
  unfolding async_resolve_def by (intro emit_intros)

lemma emits_connect [emit_intros]:
  assumes "\<And>e. cond e \<Longrightarrow> P (Connected e)"
  shows "emits P (async_connect cond es)"
proof -
  have "emits P (async_connect_loop cond err es)" for err
    using assms
  proof (induction es arbitrary: err)
    case (Cons e es)
    then show ?case
      by (auto simp: emits_def log_act_def split: if_splits)
  qed (simp add: emits_throw)
  then show ?thesis by (simp add: async_connect_def)
qed

text \<open>The actions a TCP connection is made of.\<close>

fun tcp_act :: "operation_config \<Rightarrow> url_view \<Rightarrow> 'rq net_act \<Rightarrow> bool" where
  "tcp_act oc url (Resolved h p) \<longleftrightarrow> h = (if u_text (oc_proxy oc) = [] then u_host url else u_host (oc_proxy oc))"
| "tcp_act oc url (Connected e) \<longleftrightarrow> u_text (oc_proxy oc) \<noteq> [] \<or> admits oc e"
| "tcp_act oc url (Sent bs) \<longleftrightarrow> u_text (oc_proxy oc) \<noteq> []"
| "tcp_act oc url (Received bs) \<longleftrightarrow> u_text (oc_proxy oc) \<noteq> []"
| "tcp_act oc url (Sent_request r) \<longleftrightarrow> u_text (oc_proxy oc) \<noteq> []"
| "tcp_act oc url a \<longleftrightarrow> a = No_delay \<or> a = Keep_alive False"

lemma emits_connect_tcp: "emits (tcp_act oc url) (connect_tcp ops oc url)"
proof (cases "u_text (oc_proxy oc) = []")
  case True
  then show ?thesis
    unfolding connect_tcp_def by (auto intro!: emit_intros)
next
  case False
  then show ?thesis
    unfolding connect_tcp_def connect_http_proxy_def connect_socks5_proxy_def socks5_authenticate_def
      socks5_request_def
    by (auto intro!: emit_intros)
qed

lemma co_bind_Inr:
  "co_bind m k s = (Inr y, s') \<longleftrightarrow> (\<exists>x s1. m s = (Inr x, s1) \<and> k x s1 = (Inr y, s'))"
  by (auto simp: co_bind_def split: prod.splits sum.splits)

lemma handshake_log:
  assumes "perform_tls_handshake host s = (Inr (), s')"
  shows "nt_log s' = nt_log s @ [Sni host, Verify_host host, Handshaken]"
  using assms
  by (auto simp: perform_tls_handshake_def co_bind_def log_act_def split: if_splits option.splits)

lemma finish_log:
  assumes "finish_transport url host tls plain s = (Inr t, s')"
  shows "if u_scheme_id url = scheme_https
    then t = tls \<and> nt_log s' = nt_log s @ [Sni host, Verify_host host, Handshaken]
    else t = plain \<and> nt_log s' = nt_log s"
  using assms handshake_log [of host s]
  by (auto simp: finish_transport_def co_bind_Inr co_return_def split: if_splits)

text \<open>A successful connection, when the rewriting functions keep the scheme of the URL.\<close>

lemma connect_peer:
  assumes "connect ops oc url s = (Inr t, s')"
    and "\<And>u1 u2. optional_rewrite (oc_connect_to oc) url = Inr u1 \<Longrightarrow> optional_rewrite (oc_resolve_to oc) u1 = Inr u2 \<Longrightarrow>
      u_scheme_id u2 = u_scheme_id url"
  shows "\<exists>pre u2. nt_log s' = nt_log s @ pre @
      (if u_scheme_id url = scheme_https then [Sni (u_host url), Verify_host (u_host url), Handshaken] else []) \<and>
    t = (if oc_unix_socket_path oc \<noteq> []
         then (if u_scheme_id url = scheme_https then Tls_unix else Plain_unix)
         else (if u_scheme_id url = scheme_https then Tls_tcp else Plain_tcp)) \<and>
    (if oc_unix_socket_path oc \<noteq> [] then pre = [Unix_connected (oc_unix_socket_path oc)]
     else list_all (tcp_act oc u2) pre)"
proof (cases "oc_unix_socket_path oc = []")
  case False
  then obtain s1 where "unix_connect (oc_unix_socket_path oc) s = (Inr (), s1)"
      "finish_transport url (u_host url) Tls_unix Plain_unix s1 = (Inr t, s')"
    using assms(1) by (auto simp: connect_def co_bind_Inr)
  then show ?thesis
    using False finish_log by (fastforce simp: unix_connect_def log_act_def split: option.splits if_splits)
next
  case True
  from True obtain u1 u2 where u: "optional_rewrite (oc_connect_to oc) url = Inr u1"
      "optional_rewrite (oc_resolve_to oc) u1 = Inr u2"
    using assms(1) by (auto simp: connect_def co_bind_Inr co_lift_def rbind_Inr_iff)
  let ?set = "co_bind (connect_tcp ops oc u2) (\<lambda>_.
      co_bind (if oc_tcp_nodelay oc then log_act No_delay else co_return ()) (\<lambda>_.
        if oc_nokeepalive oc then log_act (Keep_alive False) else co_return ()))"
  from True obtain s1 where s1: "?set s = (Inr (), s1)"
      "finish_transport u2 (u_host url) Tls_tcp Plain_tcp s1 = (Inr t, s')"
    using assms(1) u by (auto simp: connect_def co_bind_Inr co_lift_def)
  have "emits (tcp_act oc u2) ?set"
    by (intro emits_bind emits_connect_tcp emits_if emits_log emits_return) simp_all
  with s1(1) obtain pre where "nt_log s1 = nt_log s @ pre" "list_all (tcp_act oc u2) pre"
    unfolding emits_def by blast
  with finish_log [OF s1(2)] True assms(2) [OF u] show ?thesis by auto
qed

definition ex_net :: "ref_request net" where
  "ex_net = \<lparr>nt_resolve = (\<lambda>h p. Inr [Ep_v6 1 443, Ep_v4 2 443]), nt_accepts = (\<lambda>_. True), nt_unix = (\<lambda>_. None),
     nt_in = [], nt_writes = 3, nt_proxy_status = Inr 200, nt_sni_ok = (\<lambda>_. True), nt_handshake = (\<lambda>_. None),
     nt_log = []\<rparr>"

subsection \<open>The bytes of SOCKS5\<close>

text \<open>How a server reads a request to connect to a named host (RFC 1928, section 4) and the user
  name and password (RFC 1929).\<close>

definition join_port :: "u8 \<Rightarrow> u8 \<Rightarrow> u16" where
  "join_port hi lo = push_bit 8 (ucast hi) OR ucast lo"

fun socks5_read_request :: "u8 list \<Rightarrow> (u8 list \<times> u16) option" where
  "socks5_read_request (v # c # r # t # n # bs) =
     (if v = 5 \<and> c = 1 \<and> r = 0 \<and> t = 3 \<and> length bs = unat n + 2
      then Some (take (unat n) bs, join_port (bs ! unat n) (bs ! Suc (unat n))) else None)"
| "socks5_read_request bs = None"

definition read_counted :: "u8 list \<Rightarrow> (u8 list \<times> u8 list) option" where
  "read_counted bs =
     (case bs of [] \<Rightarrow> None
      | n # r \<Rightarrow> if unat n \<le> length r then Some (take (unat n) r, drop (unat n) r) else None)"

definition socks5_read_auth :: "u8 list \<Rightarrow> (u8 list \<times> u8 list) option" where
  "socks5_read_auth bs =
     (case bs of [] \<Rightarrow> None
      | v # r \<Rightarrow> if v \<noteq> 1 then None else
          (case read_counted r of None \<Rightarrow> None
           | Some (u, r1) \<Rightarrow>
               (case read_counted r1 of None \<Rightarrow> None
                | Some (p, r2) \<Rightarrow> if r2 = [] then Some (u, p) else None)))"

lemma join_port_split:
  fixes port :: u16
  shows "join_port (ucast (drop_bit 8 port AND 0xFF)) (ucast (port AND 0xFF)) = port"
proof -
  have "x AND 0xFF = take_bit 8 x" for x :: u16 by (simp add: take_bit_eq_mask mask_eq_exp_minus_1)
  then show ?thesis
    unfolding join_port_def by (intro bit_word_eqI) (auto simp: bit_simps)
qed

lemma length_octets_of [simp]: "length (octets_of s) = length s"
  by (simp add: octets_of_def)

lemma unat_of_length: "unat (of_nat n :: u8) = n mod 256"
  by (simp add: unat_of_nat)

lemma read_counted_push:
  "length s \<le> 255 \<Longrightarrow> read_counted (push_counted s @ r) = Some (octets_of s, r)"
  by (simp add: read_counted_def push_counted_def unat_of_length)

lemma socks5_request_cases:
  assumes "join_port (ucast (drop_bit 8 port AND 0xFF)) (ucast (port AND 0xFF)) = port"
  shows "socks5_read_request (conn_req url port) =
     (if length (u_host url) \<le> 255 then Some (octets_of (u_host url), port) else None)"
proof -
  define h where "h = octets_of (u_host url)"
  define n where "n = (of_nat (length h) :: u8)"
  define tail where "tail = h @ [ucast (drop_bit 8 port AND 0xFF), ucast (port AND 0xFF)]"
  have r: "conn_req url port = 5 # 1 # 0 # 3 # n # tail"
    by (simp add: conn_req_def push_counted_def h_def n_def tail_def)
  have n: "unat n = length h mod 256" by (simp add: n_def unat_of_length)
  have len: "length tail = length h + 2" by (simp add: tail_def)
  have h: "length h = length (u_host url)" by (simp add: h_def)
  show ?thesis
  proof (cases "length (u_host url) \<le> 255")
    case True
    then have "unat n = length h" using n h by simp
    then have "socks5_read_request (5 # 1 # 0 # 3 # n # tail) =
        Some (take (length h) tail, join_port (tail ! length h) (tail ! Suc (length h)))"
      using len by simp
    also have "\<dots> = Some (h, port)" using assms by (simp add: tail_def nth_append)
    finally show ?thesis using True by (simp add: r h_def)
  next
    case False
    have "length h mod 256 < 256" by simp
    then have "length tail \<noteq> unat n + 2" using False len n h by linarith
    then show ?thesis using False by (simp add: r)
  qed
qed

text \<open>A text of more than 255 bytes, whose length is cut to eight bits, never comes out again.\<close>

lemma read_counted_short: "read_counted bs = Some (u, r) \<Longrightarrow> length u \<le> 255"
proof (cases bs)
  case (Cons n t)
  moreover assume "read_counted bs = Some (u, r)"
  ultimately have "length u \<le> unat n" by (auto simp: read_counted_def split: if_splits)
  then show ?thesis using unsigned_less [where 'a = nat, of n] by simp
qed (simp add: read_counted_def)

lemma read_auth_short: "socks5_read_auth bs = Some (u, p) \<Longrightarrow> length u \<le> 255 \<and> length p \<le> 255"
  by (auto simp: socks5_read_auth_def dest!: read_counted_short split: list.splits option.splits if_splits)

lemma socks5_auth_cases:
  "socks5_read_auth (auth_req proxy) = Some (octets_of (u_user proxy), octets_of (u_password proxy)) \<longleftrightarrow>
     length (u_user proxy) \<le> 255 \<and> length (u_password proxy) \<le> 255"
proof
  assume "socks5_read_auth (auth_req proxy) = Some (octets_of (u_user proxy), octets_of (u_password proxy))"
  from read_auth_short [OF this] show "length (u_user proxy) \<le> 255 \<and> length (u_password proxy) \<le> 255" by simp
next
  assume "length (u_user proxy) \<le> 255 \<and> length (u_password proxy) \<le> 255"
  then show "socks5_read_auth (auth_req proxy) = Some (octets_of (u_user proxy), octets_of (u_password proxy))"
    using read_counted_push [of "u_password proxy" "[]"]
    by (simp add: socks5_read_auth_def auth_req_def read_counted_push)
qed

text \<open>
  C38. A SOCKS5 server reads the host and the port of the URL out of the connection request exactly
  when the host has at most 255 bytes, and otherwise rejects the message for its length; it reads
  the user name and the password of the proxy's URL out of the authentication exactly when both
  have at most 255 bytes, and never gets them otherwise.
\<close>

theorem socks5_request_read:
  "socks5_read_request (conn_req url port) =
     (if length (u_host url) \<le> 255 then Some (octets_of (u_host url), port) else None) \<and>
   (socks5_read_auth (auth_req proxy) = Some (octets_of (u_user proxy), octets_of (u_password proxy)) \<longleftrightarrow>
     length (u_user proxy) \<le> 255 \<and> length (u_password proxy) \<le> 255)"
  using socks5_request_cases [OF join_port_split] socks5_auth_cases by blast

theorem socks5_request_read_witness:
  "socks5_read_auth (auth_req (url_blank\<lparr>u_user := ''u'', u_password := ''p''\<rparr>)) = Some ([117], [112])"
  using socks5_request_read [of url_blank 0 "url_blank\<lparr>u_user := ''u'', u_password := ''p''\<rparr>"]
  by (simp add: octets_of_def byte_def)

text \<open>A server's reply with an address and a port: four bytes, sixteen bytes, or a name after its
  length (RFC 1928, section 6).\<close>

definition socks5_addr :: "u8 \<Rightarrow> u8 list \<Rightarrow> bool" where
  "socks5_addr atyp addr \<longleftrightarrow>
     atyp = 1 \<and> length addr = 4 \<or> atyp = 4 \<and> length addr = 16 \<or>
     atyp = 3 \<and> addr \<noteq> [] \<and> length addr = Suc (unat (hd addr))"

definition socks5_reply :: "u8 \<Rightarrow> u8 list \<Rightarrow> u8 \<Rightarrow> u8 \<Rightarrow> u8 list" where
  "socks5_reply atyp addr p1 p2 = [5, 0, 0, atyp] @ addr @ [p1, p2]"

definition auth_reply :: "u8 \<Rightarrow> u8 list" where
  "auth_reply method = (if method = 2 then [1, 0] else [])"

fun sends :: "'rq net_act list \<Rightarrow> u8 list list" where
  "sends [] = []"
| "sends (Sent bs # as) = bs # sends as"
| "sends (_ # as) = sends as"

lemma sends_append [simp]: "sends (as @ bs) = sends as @ sends bs"
  by (induction as rule: sends.induct) simp_all

lemma connect_first:
  assumes "\<exists>e\<in>set es. cond e \<and> nt_accepts s e"
  obtains e where "async_connect cond es s = (Inr (), s\<lparr>nt_log := nt_log s @ [Connected e]\<rparr>)" "e \<in> set es"
proof -
  have "\<exists>e\<in>set es. async_connect_loop cond err es s = (Inr (), s\<lparr>nt_log := nt_log s @ [Connected e]\<rparr>)" for err
    using assms by (induction es arbitrary: err) (auto simp: log_act_def)
  then show thesis using that by (auto simp: async_connect_def)
qed

lemma read_exact: "length bs = n \<Longrightarrow> nt_in s = bs @ rest \<Longrightarrow>
  async_read n s = (Inr bs, s\<lparr>nt_in := rest, nt_log := nt_log s @ [Received bs]\<rparr>)"
  by (simp add: async_read_def)

lemma write_ok: "nt_writes s = Suc n \<Longrightarrow>
  async_write bs s = (Inr (), s\<lparr>nt_writes := n, nt_log := nt_log s @ [Sent bs]\<rparr>)"
  by (simp add: async_write_def)

lemma co_bind_step: "m s = (Inr x, s1) \<Longrightarrow> co_bind m k s = k x s1"
  by (simp add: co_bind_def)

text \<open>The authentication, when the server asks for it and accepts.\<close>

lemma authenticate_ok:
  assumes "method \<in> {0, 2}" "nt_in s = auth_reply method @ rest" "nt_writes s = Suc n"
  shows "\<exists>s1. socks5_authenticate proxy method s = (Inr (), s1) \<and> nt_in s1 = rest \<and> n \<le> nt_writes s1 \<and>
    (method = 2 \<longrightarrow> nt_writes s1 = n) \<and> (method = 0 \<longrightarrow> nt_writes s1 = Suc n) \<and>
    sends (nt_log s1) = sends (nt_log s) @ (if method = 2 then [auth_req proxy] else [])"
proof (cases "method = 0")
  case True
  then show ?thesis using assms by (simp add: socks5_authenticate_def co_return_def auth_reply_def)
next
  case False
  then have m: "method = 2" using assms(1) by simp
  define s1 where "s1 = s\<lparr>nt_writes := n, nt_log := nt_log s @ [Sent (auth_req proxy)]\<rparr>"
  define s2 where "s2 = s1\<lparr>nt_in := rest, nt_log := nt_log s1 @ [Received [1, 0]]\<rparr>"
  have "async_write (auth_req proxy) s = (Inr (), s1)" unfolding s1_def by (rule write_ok [OF assms(3)])
  moreover have "async_read 2 s1 = (Inr [1, 0], s2)"
    unfolding s2_def using assms(2) m by (intro read_exact) (simp_all add: auth_reply_def s1_def)
  ultimately have "socks5_authenticate proxy method s = (Inr (), s2)"
    using m by (simp add: socks5_authenticate_def co_bind_def co_return_def)
  then show ?thesis using m by (simp add: s1_def s2_def)
qed

text \<open>The bytes of the reply that stay in the stream.\<close>

definition socks5_unread :: "u8 \<Rightarrow> u8 \<Rightarrow> u8 list" where
  "socks5_unread atyp p2 = (if atyp = 3 then [p2] else [])"

lemma request_ok:
  assumes port: "rbind (effective_port url) port_number = Inr port" and w: "nt_writes s = Suc n"
    and i: "nt_in s = socks5_reply atyp addr p1 p2 @ rest" and a: "socks5_addr atyp addr"
  shows "\<exists>s1. socks5_request url s = (Inr (), s1) \<and> nt_in s1 = socks5_unread atyp p2 @ rest \<and>
    sends (nt_log s1) = sends (nt_log s) @ [conn_req url port]"
proof -
  obtain a0 as where addr: "addr = a0 # as" using a by (cases addr) (auto simp: socks5_addr_def)
  define h where "h = [5, 0, 0, atyp, a0]"
  define t where "t = as @ (if atyp = 3 then [p1] else [p1, p2])"
  define s1 where "s1 = s\<lparr>nt_writes := n, nt_log := nt_log s @ [Sent (conn_req url port)]\<rparr>"
  define s2 where "s2 = s1\<lparr>nt_in := t @ socks5_unread atyp p2 @ rest, nt_log := nt_log s1 @ [Received h]\<rparr>"
  define s3 where "s3 = s2\<lparr>nt_in := socks5_unread atyp p2 @ rest, nt_log := nt_log s2 @ [Received t]\<rparr>"
  have "async_write (conn_req url port) s = (Inr (), s1)" unfolding s1_def by (rule write_ok [OF w])
  moreover have "async_read 5 s1 = (Inr h, s2)"
    unfolding s2_def using i addr
    by (intro read_exact) (simp_all add: socks5_reply_def h_def t_def socks5_unread_def s1_def)
  moreover have "conn_resp_tail h = Inr (length t)"
    using a addr by (auto simp: conn_resp_tail_def h_def t_def socks5_addr_def)
  moreover have "async_read (length t) s2 = (Inr t, s3)"
    unfolding s3_def by (intro read_exact) (simp_all add: s2_def)
  moreover have "h ! 1 = 0" by (simp add: h_def)
  ultimately have "socks5_request url s = (Inr (), s3)"
    using port by (simp add: socks5_request_def co_bind_def co_lift_def co_return_def)
  then show ?thesis by (simp add: s1_def s2_def s3_def)
qed

text \<open>
  C27. A SOCKS5 negotiation with a server that accepts: the client sends the greeting, the
  credentials if they were asked for, and the connection request, and succeeds.  After a reply
  with a numeric address the stream stands right behind the reply.  After a reply with a host
  name the last byte of the reply's port has not been read, and what is read from the
  connection from then on begins with it.
\<close>

theorem socks5_negotiation:
  assumes "effective_port proxy = Inr pp" "nt_resolve s (u_host proxy) pp = Inr eps"
    and "\<exists>e\<in>set eps. nt_accepts s e"
    and "rbind (effective_port url) port_number = Inr port" "3 \<le> nt_writes s"
    and "method \<in> {0, 2}" "socks5_addr atyp addr"
    and "nt_in s = [5, method] @ auth_reply method @ socks5_reply atyp addr p1 p2 @ rest"
  shows "\<exists>s'. connect_socks5_proxy url proxy s = (Inr (), s') \<and>
    nt_in s' = (if atyp = 3 then p2 # rest else rest) \<and>
    sends (nt_log s') = sends (nt_log s) @ [greeting_req proxy] @
      (if method = 2 then [auth_req proxy] else []) @ [conn_req url port]"
proof -
  obtain n where n: "nt_writes s = Suc (Suc (Suc n))" using le_Suc_ex [OF assms(5)] by (auto simp: eval_nat_numeral)
  define s1 where "s1 = s\<lparr>nt_log := nt_log s @ [Resolved (u_host proxy) pp]\<rparr>"
  have "\<exists>e\<in>set eps. True \<and> nt_accepts s1 e" using assms(3) by (simp add: s1_def)
  from connect_first [OF this] obtain e where
    c: "async_connect (\<lambda>_. True) eps s1 = (Inr (), s1\<lparr>nt_log := nt_log s1 @ [Connected e]\<rparr>)" by blast
  define s2 where "s2 = s1\<lparr>nt_log := nt_log s1 @ [Connected e]\<rparr>"
  define s3 where "s3 = s2\<lparr>nt_writes := Suc (Suc n), nt_log := nt_log s2 @ [Sent (greeting_req proxy)]\<rparr>"
  define s4 where "s4 = s3\<lparr>nt_in := auth_reply method @ socks5_reply atyp addr p1 p2 @ rest,
      nt_log := nt_log s3 @ [Received [5, method]]\<rparr>"
  have w: "async_write (greeting_req proxy) s2 = (Inr (), s3)"
    unfolding s3_def by (rule write_ok) (simp add: s2_def s1_def n)
  have g: "async_read 2 s3 = (Inr [5, method], s4)"
    unfolding s4_def using assms(8) by (intro read_exact) (simp_all add: s3_def s2_def s1_def)
  have "nt_in s4 = auth_reply method @ socks5_reply atyp addr p1 p2 @ rest" "nt_writes s4 = Suc (Suc n)"
    by (simp_all add: s4_def s3_def)
  from authenticate_ok [OF assms(6) this, of proxy] obtain s5 where
    s5: "socks5_authenticate proxy method s4 = (Inr (), s5)" "nt_in s5 = socks5_reply atyp addr p1 p2 @ rest"
      "Suc n \<le> nt_writes s5" "sends (nt_log s5) = sends (nt_log s4) @ (if method = 2 then [auth_req proxy] else [])"
    by blast
  obtain k where "nt_writes s5 = Suc k" using s5(3) by (metis Suc_le_D)
  from request_ok [OF assms(4) this s5(2) assms(7)] obtain s6 where
    s6: "socks5_request url s5 = (Inr (), s6)" "nt_in s6 = socks5_unread atyp p2 @ rest"
      "sends (nt_log s6) = sends (nt_log s5) @ [conn_req url port]"
    by blast
  have "async_resolve (u_host proxy) pp s = (Inr eps, s1)"
    using assms(2) by (simp add: async_resolve_def co_bind_def log_act_def s1_def)
  then have "connect_socks5_proxy url proxy s = (Inr (), s6)"
    using c w g s5(1) s6(1) assms(1) by (simp add: connect_socks5_proxy_def co_bind_def co_lift_def flip: s2_def)
  moreover have "sends (nt_log s4) = sends (nt_log s) @ [greeting_req proxy]"
    by (simp add: s4_def s3_def s2_def s1_def)
  ultimately show ?thesis using s5(4) s6(2,3) by (auto simp: socks5_unread_def)
qed

theorem socks5_negotiation_witness:
  "\<exists>s'. connect_socks5_proxy (url_blank\<lparr>u_scheme := ''http'', u_host := ''a.io''\<rparr>) (url_blank\<lparr>u_scheme := ''socks5''\<rparr>)
      (ex_net\<lparr>nt_in := [5, 0, 5, 0, 0, 3, 1, 120, 31, 144]\<rparr>) = (Inr (), s') \<and> nt_in s' = [144]"
proof -
  let ?s = "ex_net\<lparr>nt_in := [5, 0, 5, 0, 0, 3, 1, 120, 31, 144]\<rparr>"
  let ?url = "url_blank\<lparr>u_scheme := ''http'', u_host := ''a.io''\<rparr>"
  have p: "effective_port (url_blank\<lparr>u_scheme := ''socks5''\<rparr>) = Inr ''1080''" "effective_port ?url = Inr ''80''"
    by (simp_all add: effective_port_def url_blank_def)
  have d: "''80'' \<noteq> []" "list_all is_digit ''80''" by (simp_all add: is_digit_def byte_def)
  have "rbind (effective_port ?url) port_number = Inr 80"
    using stoull_digits [OF d] unfolding p by (simp add: port_number_def read_nat_def digit_val_def byte_def)
  from socks5_negotiation [OF p(1) _ _ this, of ?s "[Ep_v6 1 443, Ep_v4 2 443]" 0 3 "[1, 120]" 31 144 "[]"]
  show ?thesis by (auto simp: ex_net_def socks5_addr_def socks5_reply_def auth_reply_def)
qed

end
