(* ===== verification/Any_Iostream.thy ===== *)
theory Any_Iostream
  imports Except
begin

text \<open>
  The input and output streams of the burl client (\<^verbatim>\<open>any_iostream.hpp\<close>, \<^verbatim>\<open>any_iostream.cpp\<close>): a
  path names a file, or one of the standard streams.  The world outside is explicit: the
  contents of the files, which paths are directories and which can be opened for writing, the
  standard streams and whether they are terminals.  What is read from the standard input is gone for the next reader.
\<close>

record world =
  w_files :: "string \<Rightarrow> string option"
  w_directory :: "string \<Rightarrow> bool"
  w_writable :: "string \<Rightarrow> bool"
  w_stdin :: string
  w_stdout :: string
  w_stderr :: string
  w_stdout_tty :: bool
  w_stderr_tty :: bool

subsection \<open>Output\<close>

datatype ostream_target = To_cout | To_cerr | To_file string bool

record any_ostream =
  os_stream :: ostream_target
  os_is_tty :: bool

text \<open>The flag of \<open>To_file\<close> says whether the file is open.  Opening a file that cannot be written
  throws; without \<^verbatim>\<open>append\<close> it is emptied.\<close>

definition any_ostream_new :: "string \<Rightarrow> bool \<Rightarrow> world \<Rightarrow> (exn + any_ostream) \<times> world" where
  "any_ostream_new path append_mode w =
     (if path = ''-'' then (Inr \<lparr>os_stream = To_cout, os_is_tty = w_stdout_tty w\<rparr>, w)
      else if path = ''%'' then (Inr \<lparr>os_stream = To_cerr, os_is_tty = w_stderr_tty w\<rparr>, w)
      else if \<not> w_writable w path then (Inl (runtime_error ''Couldn't open file''), w)
      else
        (Inr \<lparr>os_stream = To_file path True, os_is_tty = False\<rparr>,
         w\<lparr>w_files := (w_files w)(path :=
           Some (if append_mode then (case w_files w path of Some s \<Rightarrow> s | None \<Rightarrow> []) else []))\<rparr>))"

definition ostream_close :: "any_ostream \<Rightarrow> any_ostream" where
  "ostream_close os =
     (case os_stream os of
        To_file path _ \<Rightarrow> os\<lparr>os_stream := To_file path False\<rparr>
      | _ \<Rightarrow> os)"

text \<open>Inserting a text; on a closed file it only sets the stream's error state.\<close>

definition ostream_write :: "any_ostream \<Rightarrow> string \<Rightarrow> world \<Rightarrow> world" where
  "ostream_write os data w =
     (case os_stream os of
        To_cout \<Rightarrow> w\<lparr>w_stdout := w_stdout w @ data\<rparr>
      | To_cerr \<Rightarrow> w\<lparr>w_stderr := w_stderr w @ data\<rparr>
      | To_file path opened \<Rightarrow>
          if opened
          then w\<lparr>w_files := (w_files w)(path :=
                 Some ((case w_files w path of Some s \<Rightarrow> s | None \<Rightarrow> []) @ data))\<rparr>
          else w)"

subsection \<open>Input\<close>

datatype any_istream = From_cin | From_file string

definition any_istream_new :: "string \<Rightarrow> world \<Rightarrow> exn + any_istream" where
  "any_istream_new path w =
     (if path = ''-'' then Inr From_cin
      else if w_files w path = None then Inl (runtime_error ''Couldn't open file'')
      else Inr (From_file path))"

text \<open>Reading to the end.\<close>

definition is_read_all :: "any_istream \<Rightarrow> world \<Rightarrow> string \<times> world" where
  "is_read_all is w =
     (case is of
        From_cin \<Rightarrow> (w_stdin w, w\<lparr>w_stdin := []\<rparr>)
      | From_file path \<Rightarrow> (case w_files w path of Some s \<Rightarrow> s | None \<Rightarrow> [], w))"

definition append_to :: "any_istream \<Rightarrow> string \<Rightarrow> world \<Rightarrow> string \<times> world" where
  "append_to is s w = (case is_read_all is w of (t, w') \<Rightarrow> (s @ t, w'))"

text \<open>Opening a path and reading it to the end.\<close>

definition slurp :: "string \<Rightarrow> world \<Rightarrow> exn + (string \<times> world)" where
  "slurp path w = rmap (\<lambda>is. append_to is [] w) (any_istream_new path w)"

subsection \<open>What is written is read back\<close>

definition write_all :: "any_ostream \<Rightarrow> string list \<Rightarrow> world \<Rightarrow> world" where
  "write_all os xs w = foldl (\<lambda>w s. ostream_write os s w) w xs"

lemma write_all_file:
  "w_files w path = Some s \<Longrightarrow>
   write_all \<lparr>os_stream = To_file path True, os_is_tty = t\<rparr> xs w =
     w\<lparr>w_files := (w_files w)(path := Some (s @ concat xs))\<rparr>"
proof (induction xs arbitrary: w s)
  case Nil
  then show ?case by (simp add: write_all_def fun_upd_idem)
next
  case (Cons x xs)
  let ?w = "w\<lparr>w_files := (w_files w)(path := Some (s @ x))\<rparr>"
  have "write_all \<lparr>os_stream = To_file path True, os_is_tty = t\<rparr> (x # xs) w =
      write_all \<lparr>os_stream = To_file path True, os_is_tty = t\<rparr> xs ?w"
    using Cons.prems by (simp add: write_all_def ostream_write_def)
  also have "\<dots> = ?w\<lparr>w_files := (w_files ?w)(path := Some ((s @ x) @ concat xs))\<rparr>"
    by (rule Cons.IH) simp
  finally show ?case by (simp add: fun_upd_def cong: if_cong)
qed

text \<open>
  A file written through an output stream reads back as what was inserted, in order, after the
  old content when it was opened for appending and in its place otherwise; other files and the
  standard streams are not touched, and after closing nothing more is written.
\<close>

theorem ostream_roundtrip:
  assumes "path \<notin> {''-'', ''%''}" "w_writable w path"
  shows "\<exists>os w1. any_ostream_new path app w = (Inr os, w1) \<and>
    slurp path (write_all os xs w1) =
      Inr ((if app then (case w_files w path of Some s \<Rightarrow> s | None \<Rightarrow> []) else []) @ concat xs, write_all os xs w1) \<and>
    (\<forall>p. p \<noteq> path \<longrightarrow> w_files (write_all os xs w1) p = w_files w p) \<and>
    w_stdout (write_all os xs w1) = w_stdout w \<and> w_stderr (write_all os xs w1) = w_stderr w \<and>
    ostream_write (ostream_close os) d (write_all os xs w1) = write_all os xs w1"
proof -
  define s where "s = (if app then (case w_files w path of Some s \<Rightarrow> s | None \<Rightarrow> []) else [])"
  define w1 where "w1 = w\<lparr>w_files := (w_files w)(path := Some s)\<rparr>"
  define os where "os = \<lparr>os_stream = To_file path True, os_is_tty = False\<rparr>"
  have new: "any_ostream_new path app w = (Inr os, w1)"
    using assms by (simp add: any_ostream_new_def os_def w1_def s_def)
  have all: "write_all os xs w1 = w1\<lparr>w_files := (w_files w1)(path := Some (s @ concat xs))\<rparr>"
    unfolding os_def by (rule write_all_file) (simp add: w1_def)
  have "slurp path (write_all os xs w1) = Inr (s @ concat xs, write_all os xs w1)"
    using assms(1) by (simp add: all slurp_def any_istream_new_def append_to_def is_read_all_def)
  moreover have "ostream_write (ostream_close os) d v = v" for v
    by (simp add: os_def ostream_close_def ostream_write_def)
  ultimately show ?thesis
    using new by (intro exI [of _ os] exI [of _ w1]) (simp add: s_def [symmetric] all, simp add: w1_def)
qed

definition ex_world :: world where
  "ex_world = \<lparr>w_files = (\<lambda>p. if p = ''a'' then Some ''old'' else None), w_directory = (\<lambda>_. False), w_writable = (\<lambda>_. True), w_stdin = ''in'',
     w_stdout = [], w_stderr = [], w_stdout_tty = True, w_stderr_tty = True\<rparr>"

theorem ostream_roundtrip_witness:
  "\<exists>os w1. any_ostream_new ''a'' True ex_world = (Inr os, w1) \<and>
     slurp ''a'' (write_all os [''x'', ''y''] w1) = Inr (''oldxy'', write_all os [''x'', ''y''] w1)"
  using ostream_roundtrip [of "''a''" ex_world True "[''x'', ''y'']" "[]"] by (auto simp: ex_world_def)

end
