(* ===== verification/Options.thy ===== *)
theory Options
  imports Burl_Config Utils Glob Connect Any_Iostream "HOL-Library.Log_Nat"
begin

text \<open>
  The command line of the burl client (\<^verbatim>\<open>options.cpp\<close>).  The parsing of the arguments is done by
  Boost.Program_options: what it delivers, the values by option and the options in their order,
  is the input of the model.  An option has one type and reading it as another throws, so the
  values are kept by type, the numbers by their width; a number of seconds is given as the
  nanoseconds it is converted to.  The rest of \<^verbatim>\<open>parse_args\<close> is
  modelled: one definition per section of the function, in the order of the source.
\<close>

record variables_map =
  vm_flag :: "string \<Rightarrow> bool"
  vm_string :: "string \<Rightarrow> string option"
  vm_strings :: "string \<Rightarrow> string list option"
  vm_int64 :: "string \<Rightarrow> int option"
  vm_uint16 :: "string \<Rightarrow> u16 option"
  vm_uint64 :: "string \<Rightarrow> u64 option"
  vm_duration :: "string \<Rightarrow> int option"

text \<open>What the function calls outside: the constructor of a URL and its mutators, the grammar
  engine with Boost.URL's rules for authorities and addresses, percent encoding, the check of
  a query, the container of header fields and the calls of the TLS library that can fail.\<close>

datatype ssl_call =
    Set_no_tls nat
  | Verify_none
  | Verify_peer
  | Load_verify_file string
  | Add_verify_path string
  | Default_verify_paths
  | Use_certificate_file string
  | Set_cipher_list string
  | Set_ciphersuites string
  | Set_curves_list string
  | Set_password string
  | Use_private_key_file string

record option_env =
  oe_parse_url :: "string \<Rightarrow> exn + url_view"
  oe_set_encoded_host :: "string \<Rightarrow> url_view \<Rightarrow> url_view"
  oe_set_host :: "string \<Rightarrow> url_view \<Rightarrow> url_view"
  oe_set_port :: "string \<Rightarrow> url_view \<Rightarrow> url_view"
  oe_host_address :: "url_view \<Rightarrow> string"
  oe_gparse :: gparser
  oe_authority_rule :: grule
  oe_ipv4_rule :: grule
  oe_ipv6_rule :: grule
  oe_encode :: "string \<Rightarrow> string"
  oe_query_ok :: "string \<Rightarrow> bool"
  oe_fields_set :: "string \<Rightarrow> string \<Rightarrow> (string \<times> string) list \<Rightarrow> (string \<times> string) list"
  oe_ssl_fails :: "ssl_call \<Rightarrow> exn option"

subsection \<open>Form options\<close>

record form_option_result =
  fo_name :: string
  fo_prefix :: char
  fo_value :: string
  fo_filename :: "string option"
  fo_type :: "string option"
  fo_headers :: "string list"

definition name_rule :: grule where
  "name_rule = token_rule (cs_diff all_chars (lut_chars ''=''))"

definition value_rule :: "(string \<Rightarrow> gerror + gval \<times> string) \<Rightarrow> grule" where
  "value_rule q = variant_rule [custom_rule q, token_rule (cs_diff all_chars (lut_chars '';''))]"

definition form_rule :: "(string \<Rightarrow> gerror + gval \<times> string) \<Rightarrow> grule" where
  "form_rule q = tuple_rule
     [name_rule, squelch (delim_char (CHR ''='')), optional_rule (delim_rule (lut_chars ''@<'')), value_rule q,
      range_rule (tuple_rule
        [squelch (delim_char (CHR '';'')), name_rule, squelch (delim_char (CHR ''='')), value_rule q])]"

definition form_extract :: "gval \<Rightarrow> exn + string" where
  "form_extract v =
     (if g_index v = 0 then unquote_string (g_str (g_alt v)) else Inr (g_str (g_alt v)))"

fun form_attributes :: "gval list \<Rightarrow> form_option_result \<Rightarrow> exn + form_option_result" where
  "form_attributes [] rs = Inr rs"
| "form_attributes (a # as) rs =
     (let att_name = g_str (g_get 0 a); att_value = g_get 1 a in
      if att_name = ''filename''
      then rbind (form_extract att_value) (\<lambda>s. form_attributes as (rs\<lparr>fo_filename := Some s\<rparr>))
      else if att_name = ''type''
      then rbind (form_extract att_value) (\<lambda>s. form_attributes as (rs\<lparr>fo_type := Some s\<rparr>))
      else if att_name = ''headers''
      then rbind (form_extract att_value) (\<lambda>s. form_attributes as (rs\<lparr>fo_headers := fo_headers rs @ [s]\<rparr>))
      else Inl (runtime_error ''Illegally formatted input field''))"

definition parse_form_option ::
    "gparser \<Rightarrow> (string \<Rightarrow> gerror + gval \<times> string) \<Rightarrow> string \<Rightarrow> exn + form_option_result" where
  "parse_form_option gparse q sv =
     (case gparse (form_rule q) sv of
        Inl _ \<Rightarrow> Inl (runtime_error ''Illegally formatted input field'')
      | Inr p \<Rightarrow>
          rbind (form_extract (g_get 2 p)) (\<lambda>v.
          form_attributes (g_range (g_get 3 p))
            \<lparr>fo_name = g_str (g_get 0 p),
             fo_prefix = (case g_opt (g_get 1 p) of Some w \<Rightarrow> hd (g_str w) | None \<Rightarrow> CHR '' ''),
             fo_value = v, fo_filename = None, fo_type = None, fo_headers = []\<rparr>))"

subsection \<open>Sizes\<close>

text \<open>\<^verbatim>\<open>std::stod\<close> on digits and points: the longest decimal number at the front, rounded to the
  nearest double (ties to even), whose exact value is a rational number; numbers that would
  round to infinity or are smaller than every normal double throw.  A double has 53
  significant bits; \<open>s\<close> below scales the number into the interval where they are integral.\<close>

definition round_even :: "nat \<Rightarrow> nat \<Rightarrow> nat" where
  "round_even n d =
     (let q = n div d; r = n mod d in
      if 2 * r < d then q else if 2 * r > d then q + 1 else if even q then q else q + 1)"

definition scaled :: "nat \<Rightarrow> nat \<Rightarrow> int \<Rightarrow> nat \<times> nat" where
  "scaled n d s = (if 0 \<le> s then (n * 2 ^ nat s, d) else (n, d * 2 ^ nat (- s)))"

definition round_double :: "nat \<Rightarrow> nat \<Rightarrow> rat" where
  "round_double n d =
     (if n = 0 then 0
      else
        let s0 = 53 + bitlen (int d) - bitlen (int n);
            (n0, d0) = scaled n d s0;
            s = (if n0 \<ge> 2 ^ 53 * d0 then s0 - 1 else s0);
            (n1, d1) = scaled n d s;
            m = of_nat (round_even n1 d1) in
        if 0 \<le> s then m / 2 ^ nat s else m * 2 ^ nat (- s))"

definition stod :: "string \<Rightarrow> exn + rat" where
  "stod s =
     (let ds = takeWhile is_digit s;
          r = dropWhile is_digit s;
          fs = (case r of c # t \<Rightarrow> if c = CHR ''.'' then takeWhile is_digit t else [] | [] \<Rightarrow> []) in
      if ds @ fs = [] then Inl (invalid_argument ''stod'')
      else
        let n = read_nat (ds @ fs); d = 10 ^ length fs in
        if n \<ge> (2 ^ 54 - 1) * 2 ^ 970 * d \<or> 0 < n \<and> n * 2 ^ 1022 < d then Inl (out_of_range ''stod'')
        else Inr (round_double n d))"

text \<open>\<^verbatim>\<open>ci_delim_rule\<close>: one character, whatever its case.\<close>

definition ci_delim_rule :: "char \<Rightarrow> grule" where
  "ci_delim_rule ch = custom_rule (\<lambda>s.
     case s of
       [] \<Rightarrow> Inl err_need_more
     | c # t \<Rightarrow> if to_lower c \<noteq> to_lower ch then Inl err_mismatch else Inr (GChar (to_lower ch), t))"

definition size_rule :: grule where
  "size_rule = tuple_rule
     [token_rule (cs_union digit_chars (lut_chars ''.'')),
      optional_rule (variant_rule (map ci_delim_rule ''BKMGTP''))]"

text \<open>The conversion of a double that does not fit into 64 bits has no meaning.\<close>

definition double_to_u64 :: "rat \<Rightarrow> exn + u64" where
  "double_to_u64 r =
     (if r < 2 ^ 64 then Inr (of_int \<lfloor>r\<rfloor>)
      else Inl (undefined_behaviour ''conversion of a double out of range''))"

definition parse_human_readable_size :: "gparser \<Rightarrow> string \<Rightarrow> exn + (gerror + u64)" where
  "parse_human_readable_size gparse sv =
     (case gparse size_rule sv of
        Inl e \<Rightarrow> Inr (Inl e)
      | Inr p \<Rightarrow>
          let unit_index = (case g_opt (g_get 1 p) of Some v \<Rightarrow> g_index v | None \<Rightarrow> 0) in
          rbind (stod (g_str (g_get 0 p))) (\<lambda>x.
          rmap Inr (double_to_u64 (x * 2 ^ (10 * unit_index)))))"

subsection \<open>The simple options\<close>

definition set_frac_sec :: "variables_map \<Rightarrow> string \<Rightarrow> int \<Rightarrow> int" where
  "set_frac_sec vm option out = (case vm_duration vm option of Some d \<Rightarrow> d | None \<Rightarrow> out)"

definition set_frac_sec_opt :: "variables_map \<Rightarrow> string \<Rightarrow> int option \<Rightarrow> int option" where
  "set_frac_sec_opt vm option out = (case vm_duration vm option of Some d \<Rightarrow> Some d | None \<Rightarrow> out)"

definition set_bool :: "variables_map \<Rightarrow> string \<Rightarrow> bool \<Rightarrow> bool" where
  "set_bool vm option out \<longleftrightarrow> out \<or> vm_flag vm option"

definition set_string :: "variables_map \<Rightarrow> string \<Rightarrow> string \<Rightarrow> string" where
  "set_string vm option out = (case vm_string vm option of Some s \<Rightarrow> s | None \<Rightarrow> out)"

definition set_string_opt :: "variables_map \<Rightarrow> string \<Rightarrow> string option \<Rightarrow> string option" where
  "set_string_opt vm option out = (case vm_string vm option of Some s \<Rightarrow> Some s | None \<Rightarrow> out)"

definition set_durations :: "variables_map \<Rightarrow> operation_config \<Rightarrow> operation_config" where
  "set_durations vm oc = oc\<lparr>
     oc_timeout := set_frac_sec vm ''max-time'' (oc_timeout oc),
     oc_connect_timeout := set_frac_sec vm ''connect-timeout'' (oc_connect_timeout oc),
     oc_expect100timeout := set_frac_sec vm ''expect100-timeout'' (oc_expect100timeout oc),
     oc_retry_delay := set_frac_sec_opt vm ''retry-delay'' (oc_retry_delay oc),
     oc_retry_maxtime := set_frac_sec_opt vm ''retry-max-time'' (oc_retry_maxtime oc)\<rparr>"

definition set_bools :: "variables_map \<Rightarrow> operation_config \<Rightarrow> operation_config" where
  "set_bools vm oc = oc\<lparr>
     oc_disallow_username_in_url := set_bool vm ''disallow-username-in-url'' (oc_disallow_username_in_url oc),
     oc_encoding := set_bool vm ''compressed'' (oc_encoding oc),
     oc_create_dirs := set_bool vm ''create-dirs'' (oc_create_dirs oc),
     oc_tcp_nodelay := set_bool vm ''tcp-nodelay'' (oc_tcp_nodelay oc),
     oc_retry_all_errors := set_bool vm ''retry-all-errors'' (oc_retry_all_errors oc),
     oc_retry_connrefused := set_bool vm ''retry-connrefused'' (oc_retry_connrefused oc),
     oc_nokeepalive := set_bool vm ''no-keepalive'' (oc_nokeepalive oc),
     oc_post301 := set_bool vm ''post301'' (oc_post301 oc),
     oc_post302 := set_bool vm ''post302'' (oc_post302 oc),
     oc_post303 := set_bool vm ''post303'' (oc_post303 oc),
     oc_http10 := set_bool vm ''http1.0'' (oc_http10 oc),
     oc_http11 := set_bool vm ''http1.1'' (oc_http11 oc),
     oc_ipv4 := set_bool vm ''ipv4'' (oc_ipv4 oc),
     oc_ipv6 := set_bool vm ''ipv6'' (oc_ipv6 oc),
     oc_failonerror := set_bool vm ''fail'' (oc_failonerror oc),
     oc_failearly := set_bool vm ''fail-early'' (oc_failearly oc),
     oc_failwithbody := set_bool vm ''fail-with-body'' (oc_failwithbody oc),
     oc_rm_partial := set_bool vm ''remove-on-error'' (oc_rm_partial oc),
     oc_use_httpget := set_bool vm ''get'' (oc_use_httpget oc),
     oc_show_headers :=
       set_bool vm ''head'' (set_bool vm ''include'' (set_bool vm ''show-headers'' (oc_show_headers oc))),
     oc_no_body := set_bool vm ''head'' (oc_no_body oc),
     oc_cookiesession := set_bool vm ''junk-session-cookies'' (oc_cookiesession oc),
     oc_content_disposition := set_bool vm ''remote-header-name'' (oc_content_disposition oc),
     oc_followlocation := set_bool vm ''location-trusted'' (set_bool vm ''location'' (oc_followlocation oc)),
     oc_unrestricted_auth := set_bool vm ''location-trusted'' (oc_unrestricted_auth oc),
     oc_nobuffer := set_bool vm ''no-buffer'' (oc_nobuffer oc),
     oc_globoff := set_bool vm ''globoff'' (oc_globoff oc),
     oc_noprogress := set_bool vm ''no-progress-meter'' (oc_noprogress oc),
     oc_skip_existing := set_bool vm ''skip-existing'' (oc_skip_existing oc)\<rparr>"

definition set_strings :: "variables_map \<Rightarrow> operation_config \<Rightarrow> operation_config" where
  "set_strings vm oc = oc\<lparr>
     oc_unix_socket_path := set_string vm ''unix-socket'' (oc_unix_socket_path oc),
     oc_useragent := set_string_opt vm ''user-agent'' (oc_useragent oc),
     oc_userpwd := set_string_opt vm ''user'' (oc_userpwd oc),
     oc_range := set_string_opt vm ''range'' (oc_range oc),
     oc_request_target := set_string_opt vm ''request-target'' (oc_request_target oc),
     oc_customrequest := set_string_opt vm ''request'' (oc_customrequest oc),
     oc_headerfile := set_string vm ''dump-header'' (oc_headerfile oc),
     oc_output_dir := set_string vm ''output-dir'' (oc_output_dir oc),
     oc_cookiejar := set_string vm ''cookie-jar'' (oc_cookiejar oc)\<rparr>"

definition check_conflicts :: "operation_config \<Rightarrow> exn + operation_config" where
  "check_conflicts oc =
     (if oc_failonerror oc \<and> oc_failwithbody oc
      then Inl (runtime_error ''You must select either --fail or --fail-with-body, not both.'')
      else if oc_show_headers oc \<and> oc_content_disposition oc
      then Inl (runtime_error ''showing headers and --remote-header-name cannot be combined'')
      else Inr oc)"

end
