(* ===== verification/Parse_Args.thy ===== *)
theory Parse_Args
  imports Options
begin

text \<open>
  The rest of \<^verbatim>\<open>parse_args\<close> of the burl client (\<^verbatim>\<open>options.cpp\<close>): limits and ranges, the TLS context,
  the list of requests and its generator, request bodies and queries, the rewriting of
  addresses, the header options, and the whole function.
\<close>

subsection \<open>Addresses, limits and ranges\<close>

definition set_proxy :: "option_env \<Rightarrow> variables_map \<Rightarrow> operation_config \<Rightarrow> exn + operation_config" where
  "set_proxy env vm oc =
     (case vm_string vm ''proxy'' of
        Some s \<Rightarrow> rmap (\<lambda>u. oc\<lparr>oc_proxy := u\<rparr>) (oe_parse_url env s)
      | None \<Rightarrow> Inr oc)"

definition set_retry :: "variables_map \<Rightarrow> operation_config \<Rightarrow> operation_config" where
  "set_retry vm oc =
     (case vm_uint64 vm ''retry'' of Some n \<Rightarrow> oc\<lparr>oc_req_retry := n\<rparr> | None \<Rightarrow> oc)"

definition set_abstract_socket :: "variables_map \<Rightarrow> operation_config \<Rightarrow> operation_config" where
  "set_abstract_socket vm oc =
     (case vm_string vm ''abstract-unix-socket'' of
        Some s \<Rightarrow> oc\<lparr>oc_unix_socket_path := CHR 0x00 # s\<rparr>
      | None \<Rightarrow> oc)"

definition set_referer :: "option_env \<Rightarrow> variables_map \<Rightarrow> operation_config \<Rightarrow> exn + operation_config" where
  "set_referer env vm oc =
     (case vm_string vm ''referer'' of
        Some r \<Rightarrow>
          if r = '';auto'' then Inr (oc\<lparr>oc_autoreferer := True\<rparr>)
          else rmap (\<lambda>u. oc\<lparr>oc_referer := u\<rparr>) (oe_parse_url env r)
      | None \<Rightarrow> Inr oc)"

definition size_option :: "option_env \<Rightarrow> string \<Rightarrow> string \<Rightarrow> exn + u64" where
  "size_option env msg s =
     rbind (parse_human_readable_size (oe_gparse env) s) (\<lambda>r.
       case r of Inl _ \<Rightarrow> Inl (runtime_error msg) | Inr n \<Rightarrow> Inr n)"

definition set_limit_rate :: "option_env \<Rightarrow> variables_map \<Rightarrow> operation_config \<Rightarrow> exn + operation_config" where
  "set_limit_rate env vm oc =
     (case vm_string vm ''limit-rate'' of
        Some s \<Rightarrow> rmap (\<lambda>n. oc\<lparr>oc_recvpersecond := Some n, oc_sendpersecond := Some n\<rparr>)
                    (size_option env ''unsupported limit-rate unit'' s)
      | None \<Rightarrow> Inr oc)"

definition set_max_redirs :: "variables_map \<Rightarrow> operation_config \<Rightarrow> operation_config" where
  "set_max_redirs vm oc =
     (case vm_int64 vm ''max-redirs'' of
        Some n \<Rightarrow> oc\<lparr>oc_maxredirs := (if n < 0 then - 1 else of_int n)\<rparr>
      | None \<Rightarrow> oc)"

definition set_max_filesize :: "option_env \<Rightarrow> variables_map \<Rightarrow> operation_config \<Rightarrow> exn + operation_config" where
  "set_max_filesize env vm oc =
     (case vm_string vm ''max-filesize'' of
        Some s \<Rightarrow> rmap (\<lambda>n. oc\<lparr>oc_max_filesize := n\<rparr>) (size_option env ''unsupported max-filesize unit'' s)
      | None \<Rightarrow> Inr oc)"

definition set_parallel :: "variables_map \<Rightarrow> operation_config \<Rightarrow> operation_config" where
  "set_parallel vm oc =
     (if vm_flag vm ''parallel''
      then oc\<lparr>oc_parallel_max :=
        (case vm_uint16 vm ''parallel-max'' of
           Some v \<Rightarrow> if v > 0 \<and> v \<le> 300 then v else 50
         | None \<Rightarrow> 50)\<rparr>
      else oc)"

text \<open>\<^verbatim>\<open>proto_redir\<close> is a set; it is kept as the list of its members.\<close>

fun add_protocols :: "string list \<Rightarrow> scheme list \<Rightarrow> scheme list" where
  "add_protocols [] ps = ps"
| "add_protocols (s # ss) ps =
     add_protocols ss
       (if s = ''http'' then List.insert scheme_http ps
        else if s = ''https'' then List.insert scheme_https ps else ps)"

definition set_proto_redir :: "variables_map \<Rightarrow> operation_config \<Rightarrow> operation_config" where
  "set_proto_redir vm oc =
     (case vm_strings vm ''proto-redir'' of
        Some ss \<Rightarrow> oc\<lparr>oc_proto_redir := add_protocols ss []\<rparr>
      | None \<Rightarrow> oc)"

definition set_continue_at :: "variables_map \<Rightarrow> operation_config \<Rightarrow> exn + operation_config" where
  "set_continue_at vm oc =
     (case vm_string vm ''continue-at'' of
        None \<Rightarrow> Inr oc
      | Some s \<Rightarrow>
          if oc_range oc \<noteq> None
          then Inl (runtime_error ''--continue-at is mutually exclusive with --range'')
          else if oc_rm_partial oc
          then Inl (runtime_error ''--continue-at is mutually exclusive with --remove-on-error'')
          else if s = ''-'' then Inr (oc\<lparr>oc_resume_from_current := True\<rparr>)
          else rmap (\<lambda>n. oc\<lparr>oc_resume_from := Some n\<rparr>) (stoull s))"

fun add_cookie_options :: "string list \<Rightarrow> operation_config \<Rightarrow> operation_config" where
  "add_cookie_options [] oc = oc"
| "add_cookie_options (sv # svs) oc =
     add_cookie_options svs
       (if find_char (CHR ''='') sv \<noteq> None then oc\<lparr>oc_cookies := oc_cookies oc @ [sv]\<rparr>
        else if sv \<noteq> [] then oc\<lparr>oc_cookiefiles := oc_cookiefiles oc @ [sv]\<rparr>
        else oc)"

definition set_cookie_options :: "variables_map \<Rightarrow> operation_config \<Rightarrow> operation_config" where
  "set_cookie_options vm oc0 =
     (let oc = (if oc_cookiejar oc0 \<noteq> [] then oc0\<lparr>oc_enable_cookies := True\<rparr> else oc0) in
      case vm_strings vm ''cookie'' of
        Some svs \<Rightarrow> add_cookie_options svs (oc\<lparr>oc_enable_cookies := True\<rparr>)
      | None \<Rightarrow> oc)"

subsection \<open>The TLS context\<close>

text \<open>The context is the list of the calls made on it.\<close>

definition tls_max_of :: "variables_map \<Rightarrow> exn + nat" where
  "tls_max_of vm =
     (case vm_string vm ''tls-max'' of
        None \<Rightarrow> Inr 13
      | Some s \<Rightarrow>
          if s = ''1.0'' then Inr 10
          else if s = ''1.1'' then Inr 11
          else if s = ''1.2'' then Inr 12
          else if s = ''1.3'' then Inr 13
          else Inl (runtime_error ''Wrong TLS version''))"

definition tls_min_of :: "variables_map \<Rightarrow> nat" where
  "tls_min_of vm =
     (let m0 = 11;
          m1 = (if vm_flag vm ''tlsv1.0'' then 10 else m0);
          m2 = (if vm_flag vm ''tlsv1.1'' then 11 else m1);
          m3 = (if vm_flag vm ''tlsv1.2'' then 12 else m2) in
      if vm_flag vm ''tlsv1.3'' then 13 else m3)"

definition tls_options :: "nat \<Rightarrow> nat \<Rightarrow> ssl_call list" where
  "tls_options tls_min tls_max =
     (if tls_min > 10 then [Set_no_tls 10] else []) @
     (if tls_min > 11 \<or> tls_max < 11 then [Set_no_tls 11] else []) @
     (if tls_min > 12 \<or> tls_max < 12 then [Set_no_tls 12] else []) @
     (if tls_max < 13 then [Set_no_tls 13] else [])"

definition ssl_do :: "option_env \<Rightarrow> ssl_call \<Rightarrow> ssl_call list \<Rightarrow> exn + ssl_call list" where
  "ssl_do env c ctx = (case oe_ssl_fails env c of Some e \<Rightarrow> Inl e | None \<Rightarrow> Inr (ctx @ [c]))"

text \<open>A call on the native handle, whose failure is turned into an exception of its own.\<close>

definition ssl_native :: "option_env \<Rightarrow> string \<Rightarrow> ssl_call \<Rightarrow> ssl_call list \<Rightarrow> exn + ssl_call list" where
  "ssl_native env msg c ctx =
     (if oe_ssl_fails env c \<noteq> None then Inl (runtime_error msg) else Inr (ctx @ [c]))"

definition ssl_verify :: "option_env \<Rightarrow> variables_map \<Rightarrow> ssl_call list \<Rightarrow> exn + ssl_call list" where
  "ssl_verify env vm ctx =
     (if vm_flag vm ''insecure'' then Inr (ctx @ [Verify_none])
      else
        rmap (\<lambda>c. c @ [Verify_peer])
          (case vm_string vm ''cacert'' of
             Some f \<Rightarrow> ssl_do env (Load_verify_file f) ctx
           | None \<Rightarrow>
               (case vm_string vm ''capath'' of
                  Some d \<Rightarrow> ssl_do env (Add_verify_path d) ctx
                | None \<Rightarrow> ssl_do env Default_verify_paths ctx)))"

definition ssl_optional ::
    "variables_map \<Rightarrow> string \<Rightarrow> (string \<Rightarrow> ssl_call list \<Rightarrow> exn + ssl_call list) \<Rightarrow> ssl_call list \<Rightarrow> exn + ssl_call list" where
  "ssl_optional vm option f ctx = (case vm_string vm option of Some s \<Rightarrow> f s ctx | None \<Rightarrow> Inr ctx)"

definition make_ssl_ctx :: "option_env \<Rightarrow> variables_map \<Rightarrow> exn + ssl_call list" where
  "make_ssl_ctx env vm =
     rbind (tls_max_of vm) (\<lambda>tls_max.
     rbind (ssl_verify env vm (tls_options (tls_min_of vm) tls_max)) (\<lambda>c1.
     rbind (ssl_optional vm ''cert'' (\<lambda>s. ssl_do env (Use_certificate_file s)) c1) (\<lambda>c2.
     rbind (ssl_optional vm ''ciphers'' (\<lambda>s. ssl_native env ''failed setting cipher list'' (Set_cipher_list s)) c2) (\<lambda>c3.
     rbind (ssl_optional vm ''tls13-ciphers''
       (\<lambda>s. ssl_native env ''failed setting TLS 1.3 cipher suite'' (Set_ciphersuites s)) c3) (\<lambda>c4.
     rbind (ssl_optional vm ''curves'' (\<lambda>s. ssl_native env ''failed setting curves list'' (Set_curves_list s)) c4) (\<lambda>c5.
     rbind (ssl_optional vm ''pass'' (\<lambda>s c. Inr (c @ [Set_password s])) c5) (\<lambda>c6.
     ssl_optional vm ''key'' (\<lambda>s. ssl_do env (Use_private_key_file s)) c6)))))))"

subsection \<open>The list of requests\<close>

datatype url_gen = Oneshot "string option" | Globbed glob_state

record request_info =
  ri_url_gen :: url_gen
  ri_output :: string
  ri_input :: string
  ri_remotename :: bool

text \<open>A call of the generator; None when the call does not return.\<close>

definition url_gen_call :: "url_gen \<Rightarrow> (exn + (glob_result option \<times> url_gen)) option" where
  "url_gen_call g =
     (case g of
        Oneshot u \<Rightarrow> Some (Inr (map_option (\<lambda>s. \<lparr>gr_result = s, gr_tokens = []\<rparr>) u, Oneshot None))
      | Globbed st \<Rightarrow> map_option (rmap (\<lambda>(r, st'). (r, Globbed st'))) (glob_call st))"

fun make_requests :: "gparser \<Rightarrow> bool \<Rightarrow> bool \<Rightarrow> string list \<Rightarrow> exn + request_info list" where
  "make_requests gparse globoff remote_all [] = Inr []"
| "make_requests gparse globoff remote_all (s # ss) =
     rbind (if globoff then Inr (Oneshot (Some s)) else rmap Globbed (make_glob_generator gparse s)) (\<lambda>g.
     rmap (\<lambda>rs. \<lparr>ri_url_gen = g, ri_output = [], ri_input = [], ri_remotename = remote_all\<rparr> # rs)
       (make_requests gparse globoff remote_all ss))"

text \<open>The options in the order of the command line, each with its values.\<close>

fun assign_outputs :: "(string \<times> string list) list \<Rightarrow> request_info list \<Rightarrow> exn + request_info list" where
  "assign_outputs [] rs = Inr rs"
| "assign_outputs ((key, vs) # os) rs =
     (case rs of
        [] \<Rightarrow> Inr []
      | r # rs' \<Rightarrow>
          if key = ''output''
          then (case vs of
                  [] \<Rightarrow> Inl (out_of_range ''at'')
                | v # _ \<Rightarrow> rmap (\<lambda>t. r\<lparr>ri_output := v\<rparr> # t) (assign_outputs os rs'))
          else if key = ''remote-name''
          then rmap (\<lambda>t. r\<lparr>ri_remotename := True\<rparr> # t) (assign_outputs os rs')
          else assign_outputs os rs)"

fun assign_inputs :: "string list \<Rightarrow> request_info list \<Rightarrow> request_info list" where
  "assign_inputs (s # ss) (r # rs) = r\<lparr>ri_input := s\<rparr> # assign_inputs ss rs"
| "assign_inputs _ rs = rs"

text \<open>The generator of requests works at the back of the vector, which was reversed before.\<close>

function request_opt_gen :: "gparser \<Rightarrow> request_info list \<Rightarrow> (exn + (request_opt option \<times> request_info list)) option" where
  "request_opt_gen gparse requests =
     (if requests = [] then Some (Inr (None, []))
      else
        let info = last requests in
        case url_gen_call (ri_url_gen info) of
          None \<Rightarrow> None
        | Some (Inl e) \<Rightarrow> Some (Inl e)
        | Some (Inr (Some o', g)) \<Rightarrow>
            Some (rmap (\<lambda>out. (Some \<lparr>ro_url = gr_result o', ro_output = out, ro_input = ri_input info,
                     ro_remotename = ri_remotename info\<rparr>, butlast requests @ [info\<lparr>ri_url_gen := g\<rparr>]))
              (interpolate gparse (gr_tokens o') (ri_output info)))
        | Some (Inr (None, g)) \<Rightarrow> request_opt_gen gparse (butlast requests))"
  by pat_completeness auto
termination by (relation "measure (\<lambda>(_, requests). length requests)") auto

declare request_opt_gen.simps [simp del]

subsection \<open>Request bodies\<close>

definition striped :: "string \<Rightarrow> string" where
  "striped s = filter (\<lambda>ch. ch \<noteq> CHR 0x0D \<and> ch \<noteq> CHR 0x0A \<and> ch \<noteq> CHR 0x00) s"

text \<open>\<^verbatim>\<open>init\<close>: the first piece creates the text, every further one is separated.\<close>

definition data_init :: "string option \<Rightarrow> string" where
  "data_init data = (case data of Some d \<Rightarrow> d @ ''&'' | None \<Rightarrow> [])"

text \<open>One value of \<^verbatim>\<open>--data\<close> and \<^verbatim>\<open>--data-ascii\<close>, of \<^verbatim>\<open>--data-binary\<close>, of \<^verbatim>\<open>--data-raw\<close>: the text it
  contributes, in the world it leaves.\<close>

type_synonym data_reader = "string \<Rightarrow> world \<Rightarrow> exn + (string \<times> world)"

definition at_file :: "string \<Rightarrow> bool" where
  "at_file sv \<longleftrightarrow> starts_with sv ''@''"

definition data_ascii :: data_reader where
  "data_ascii sv w =
     (if at_file sv then rmap (\<lambda>(s, w'). (striped s, w')) (slurp (tl sv) w) else Inr (sv, w))"

definition data_binary :: data_reader where
  "data_binary sv w = (if at_file sv then slurp (tl sv) w else Inr (sv, w))"

definition data_raw :: data_reader where
  "data_raw sv w = Inr (sv, w)"

text \<open>A name in front of the encoded content.\<close>

definition named :: "string \<Rightarrow> string \<Rightarrow> string" where
  "named name enc = (if name \<noteq> [] then name @ ''='' @ enc else enc)"

definition data_urlencode :: "option_env \<Rightarrow> data_reader" where
  "data_urlencode env sv w =
     (case find_char (CHR ''='') sv of
        Some pos \<Rightarrow> Inr (named (take pos sv) (oe_encode env (drop (pos + 1) sv)), w)
      | None \<Rightarrow>
          (case find_char (CHR ''@'') sv of
             Some pos \<Rightarrow>
               rmap (\<lambda>(tmp, w'). (named (take pos sv) (oe_encode env tmp), w')) (slurp (drop (pos + 1) sv) w)
           | None \<Rightarrow> Inr (oe_encode env sv, w)))"

fun data_append :: "data_reader \<Rightarrow> string list \<Rightarrow> string option \<Rightarrow> world \<Rightarrow> exn + (string option \<times> world)" where
  "data_append f [] data w = Inr (data, w)"
| "data_append f (sv # svs) data w =
     rbind (f sv w) (\<lambda>(s, w'). data_append f svs (Some (data_init data @ s)) w')"

definition data_option ::
    "variables_map \<Rightarrow> string \<Rightarrow> data_reader \<Rightarrow> string option \<times> world \<Rightarrow> exn + (string option \<times> world)" where
  "data_option vm option f = (\<lambda>(data, w).
     case vm_strings vm option of Some svs \<Rightarrow> data_append f svs data w | None \<Rightarrow> Inr (data, w))"

definition collect_data :: "option_env \<Rightarrow> variables_map \<Rightarrow> world \<Rightarrow> exn + (string option \<times> world)" where
  "collect_data env vm w =
     rbind (data_option vm ''data'' data_ascii (None, w)) (\<lambda>d1.
     rbind (data_option vm ''data-ascii'' data_ascii d1) (\<lambda>d2.
     rbind (data_option vm ''data-binary'' data_binary d2) (\<lambda>d3.
     rbind (data_option vm ''data-raw'' data_raw d3) (\<lambda>d4.
     data_option vm ''data-urlencode'' (data_urlencode env) d4))))"

definition use_data :: "option_env \<Rightarrow> variables_map \<Rightarrow> string option \<Rightarrow> operation_config \<Rightarrow> exn + operation_config" where
  "use_data env vm data oc =
     (case data of
        None \<Rightarrow> Inr oc
      | Some d \<Rightarrow>
          if vm_flag vm ''get''
          then (if oe_query_ok env d then Inr (oc\<lparr>oc_query := d\<rparr>)
                else Inl (runtime_error ''Invalid data encoding''))
          else Inr (oc\<lparr>oc_msg := String_body d ''application/x-www-form-urlencoded''\<rparr>))"

definition check_method :: "variables_map \<Rightarrow> string option \<Rightarrow> exn + unit" where
  "check_method vm data =
     (if of_bool (data \<noteq> None) + of_bool (vm_strings vm ''form'' \<noteq> None) + of_bool (vm_strings vm ''json'' \<noteq> None) +
         of_bool (vm_strings vm ''upload-file'' \<noteq> None) > (1 :: nat)
      then Inl (runtime_error ''You can only select one HTTP request method'')
      else if vm_strings vm ''form'' \<noteq> None \<or> vm_strings vm ''form-string'' \<noteq> None
      then Inl (runtime_error ''Multipart form support is not available'')
      else Inr ())"

fun json_append :: "string list \<Rightarrow> string \<Rightarrow> world \<Rightarrow> exn + (string \<times> world)" where
  "json_append [] body w = Inr (body, w)"
| "json_append (sv # svs) body w =
     rbind (data_binary sv w) (\<lambda>(s, w'). json_append svs (body @ s) w')"

definition set_json :: "variables_map \<Rightarrow> operation_config \<times> world \<Rightarrow> exn + (operation_config \<times> world)" where
  "set_json vm = (\<lambda>(oc, w).
     case vm_strings vm ''json'' of
       Some svs \<Rightarrow> rmap (\<lambda>(body, w'). (oc\<lparr>oc_msg := String_body body ''application/json''\<rparr>, w')) (json_append svs [] w)
     | None \<Rightarrow> Inr (oc, w))"

definition query_piece :: "option_env \<Rightarrow> data_reader" where
  "query_piece env sv w =
     (if starts_with sv ''+'' then Inr (tl sv, w) else data_urlencode env sv w)"

fun query_append :: "option_env \<Rightarrow> string list \<Rightarrow> string \<Rightarrow> world \<Rightarrow> exn + (string \<times> world)" where
  "query_append env [] query w = Inr (query, w)"
| "query_append env (sv # svs) query w =
     rbind (query_piece env sv w) (\<lambda>(s, w').
       query_append env svs ((if query \<noteq> [] then query @ ''&'' else query) @ s) w')"

definition set_url_query ::
    "option_env \<Rightarrow> variables_map \<Rightarrow> operation_config \<times> world \<Rightarrow> exn + (operation_config \<times> world)" where
  "set_url_query env vm = (\<lambda>(oc, w).
     case vm_strings vm ''url-query'' of
       Some svs \<Rightarrow>
         rmap (\<lambda>(query, w').
             (if query \<noteq> []
              then oc\<lparr>oc_query := (if oc_query oc \<noteq> [] then oc_query oc @ ''&'' else oc_query oc) @ query\<rparr>
              else oc, w'))
           (query_append env svs [] w)
     | None \<Rightarrow> Inr (oc, w))"

subsection \<open>Rewriting addresses\<close>

definition connect_to_rule :: "option_env \<Rightarrow> grule" where
  "connect_to_rule env = tuple_rule
     [oe_authority_rule env, squelch (optional_rule (delim_char (CHR '':''))), oe_authority_rule env]"

text \<open>The text of each authority is handed to the constructor of a URL.\<close>

fun connect_to_items :: "option_env \<Rightarrow> string list \<Rightarrow> exn + (url_view \<times> url_view) list" where
  "connect_to_items env [] = Inr []"
| "connect_to_items env (sv # svs) =
     (case oe_gparse env (connect_to_rule env) sv of
        Inl _ \<Rightarrow> Inl (runtime_error ''bad --connect-to option'')
      | Inr p \<Rightarrow>
          rbind (oe_parse_url env (g_str (g_get 0 p))) (\<lambda>l.
          rbind (oe_parse_url env (g_str (g_get 1 p))) (\<lambda>r.
          rmap (\<lambda>items. (l, r) # items) (connect_to_items env svs))))"

fun connect_to_fn :: "option_env \<Rightarrow> (url_view \<times> url_view) list \<Rightarrow> url_rewrite" where
  "connect_to_fn env [] url = Inr url"
| "connect_to_fn env ((left, right) # items) url =
     (if u_encoded_host url \<noteq> u_encoded_host left \<and> u_encoded_host left \<noteq> [] then connect_to_fn env items url
      else
        rbind (effective_port url) (\<lambda>port.
        if port \<noteq> u_port left \<and> u_port left \<noteq> [] then connect_to_fn env items url
        else
          let url1 = (if u_encoded_host right \<noteq> [] then oe_set_encoded_host env (u_encoded_host right) url else url) in
          Inr (if u_port right \<noteq> [] then oe_set_port env (u_port right) url1 else url1)))"

definition resolve_rule :: "option_env \<Rightarrow> grule" where
  "resolve_rule env = tuple_rule
     [token_rule (cs_diff all_chars (lut_chars '':'')), squelch (delim_char (CHR '':'')), token_rule digit_chars,
      squelch (delim_char (CHR '':'')), squelch (optional_rule (delim_char (CHR ''[''))),
      variant_rule [oe_ipv4_rule env, oe_ipv6_rule env], squelch (optional_rule (delim_char (CHR '']'')))]"

fun resolve_items :: "option_env \<Rightarrow> string list \<Rightarrow> exn + (url_view \<times> url_view) list" where
  "resolve_items env [] = Inr []"
| "resolve_items env (sv # svs) =
     (case oe_gparse env (resolve_rule env) sv of
        Inl _ \<Rightarrow> Inl (runtime_error ''bad --resolve option'')
      | Inr p \<Rightarrow>
          rmap (\<lambda>items.
              (oe_set_port env (g_str (g_get 1 p)) (oe_set_host env (g_str (g_get 0 p)) url_blank),
               oe_set_host env (g_str (g_alt (g_get 2 p))) url_blank) # items)
            (resolve_items env svs))"

fun resolve_to_fn :: "option_env \<Rightarrow> (url_view \<times> url_view) list \<Rightarrow> url_rewrite" where
  "resolve_to_fn env [] url = Inr url"
| "resolve_to_fn env ((left, right) # items) url =
     (if u_encoded_host url \<noteq> u_encoded_host left \<and> u_encoded_host left \<noteq> ''*'' then resolve_to_fn env items url
      else
        rbind (effective_port url) (\<lambda>port.
        if port \<noteq> u_port left then resolve_to_fn env items url
        else Inr (oe_set_encoded_host env (oe_host_address env right) url)))"

definition set_rewrites :: "option_env \<Rightarrow> variables_map \<Rightarrow> operation_config \<Rightarrow> exn + operation_config" where
  "set_rewrites env vm oc =
     rbind (case vm_strings vm ''connect-to'' of
              Some svs \<Rightarrow> rmap (\<lambda>items. oc\<lparr>oc_connect_to := Some (connect_to_fn env items)\<rparr>) (connect_to_items env svs)
            | None \<Rightarrow> Inr oc) (\<lambda>oc1.
     (case vm_strings vm ''resolve'' of
        Some svs \<Rightarrow> rmap (\<lambda>items. oc1\<lparr>oc_resolve_to := Some (resolve_to_fn env items)\<rparr>) (resolve_items env svs)
      | None \<Rightarrow> Inr oc1))"

subsection \<open>Header options\<close>

definition add_header :: "option_env \<Rightarrow> string \<Rightarrow> operation_config \<Rightarrow> operation_config" where
  "add_header env sv oc =
     (case find_char (CHR '':'') sv of
        Some pos \<Rightarrow>
          let name = take pos sv; val = drop (pos + 1) sv in
          if val \<noteq> [] then oc\<lparr>oc_headers := oe_fields_set env name val (oc_headers oc)\<rparr>
          else oc\<lparr>oc_omitheaders := oc_omitheaders oc @ [name]\<rparr>
      | None \<Rightarrow>
          (case find_char (CHR '';'') sv of
             Some pos \<Rightarrow> oc\<lparr>oc_headers := oe_fields_set env (take pos sv) [] (oc_headers oc)\<rparr>
           | None \<Rightarrow> oc))"

fun add_headers :: "option_env \<Rightarrow> string list \<Rightarrow> operation_config \<Rightarrow> world \<Rightarrow> exn + (operation_config \<times> world)" where
  "add_headers env [] oc w = Inr (oc, w)"
| "add_headers env (sv # svs) oc w =
     (if at_file sv
      then rbind (slurp (tl sv) w) (\<lambda>(s, w').
             add_headers env svs (foldl (\<lambda>c l. add_header env l c) oc (get_lines s)) w')
      else add_headers env svs (add_header env sv oc) w)"

definition set_header_options ::
    "option_env \<Rightarrow> variables_map \<Rightarrow> operation_config \<times> world \<Rightarrow> exn + (operation_config \<times> world)" where
  "set_header_options env vm = (\<lambda>(oc, w).
     case vm_strings vm ''header'' of Some svs \<Rightarrow> add_headers env svs oc w | None \<Rightarrow> Inr (oc, w))"

subsection \<open>The whole function\<close>

record parsed_args =
  pa_oc :: operation_config
  pa_ssl_ctx :: "ssl_call list"
  pa_requests :: "request_info list"

text \<open>The settings that neither touch files nor the TLS context (lines 464 to 649).\<close>

definition parse_settings :: "option_env \<Rightarrow> variables_map \<Rightarrow> exn + operation_config" where
  "parse_settings env vm =
     rbind (check_conflicts (set_strings vm (set_bools vm (set_durations vm operation_config_default)))) (\<lambda>c1.
     rbind (set_proxy env vm c1) (\<lambda>c2.
     rbind (set_referer env vm (set_abstract_socket vm (set_retry vm c2))) (\<lambda>c3.
     rbind (set_limit_rate env vm c3) (\<lambda>c4.
     rbind (set_max_filesize env vm (set_max_redirs vm c4)) (\<lambda>c5.
     rmap (set_cookie_options vm) (set_continue_at vm (set_proto_redir vm (set_parallel vm c5))))))))"

definition parse_requests ::
    "gparser \<Rightarrow> variables_map \<Rightarrow> (string \<times> string list) list \<Rightarrow> bool \<Rightarrow> string list \<Rightarrow> exn + request_info list" where
  "parse_requests gparse vm options globoff urls =
     rbind (make_requests gparse globoff (vm_flag vm ''remote-name-all'') urls) (\<lambda>rs.
     rmap (\<lambda>rs'. rev (case vm_strings vm ''upload-file'' of Some ss \<Rightarrow> assign_inputs ss rs' | None \<Rightarrow> rs'))
       (assign_outputs options rs))"

text \<open>The options that give the request its body, query and header (lines 843 to 1189).\<close>

definition parse_content ::
    "option_env \<Rightarrow> variables_map \<Rightarrow> operation_config \<Rightarrow> world \<Rightarrow> exn + (operation_config \<times> world)" where
  "parse_content env vm oc w =
     rbind (collect_data env vm w) (\<lambda>(data, w1).
     rbind (use_data env vm data oc) (\<lambda>c1.
     rbind (check_method vm data) (\<lambda>_.
     rbind (set_json vm (c1, w1)) (\<lambda>c2.
     rbind (set_url_query env vm c2) (\<lambda>(c3, w3).
     rbind (set_rewrites env vm c3) (\<lambda>c4.
     set_header_options env vm (c4, w3)))))))"

definition parse_args ::
    "option_env \<Rightarrow> variables_map \<Rightarrow> (string \<times> string list) list \<Rightarrow> world \<Rightarrow> exn + (parsed_args \<times> world)" where
  "parse_args env vm options w =
     (case vm_strings vm ''url'' of
        None \<Rightarrow> Inl (runtime_error ''Usage: burl [options...] <url>'')
      | Some urls \<Rightarrow>
          if vm_flag vm ''help'' then Inl (runtime_error ''Usage: burl [options...] <url>'')
          else
            rbind (parse_settings env vm) (\<lambda>oc.
            rbind (make_ssl_ctx env vm) (\<lambda>ctx.
            rbind (parse_requests (oe_gparse env) vm options (oc_globoff oc) urls) (\<lambda>reqs.
            rmap (\<lambda>(oc', w'). (\<lparr>pa_oc = oc', pa_ssl_ctx = ctx, pa_requests = reqs\<rparr>, w'))
              (parse_content env vm oc w)))))"

end
