(* ===== verification/Request_List.thy ===== *)
theory Request_List
  imports Parse_Args_Proofs
begin

text \<open>
  The requests a burl run makes, as the composition of the command line with the URL generators:
  which URL gets which output, and in which order the generator of requests delivers them.
\<close>

subsection \<open>The generator of requests\<close>

text \<open>The texts a URL generator still has.\<close>

definition url_texts :: "url_gen \<Rightarrow> glob_result list \<Rightarrow> bool" where
  "url_texts g outs \<longleftrightarrow>
     (case g of
        Oneshot u \<Rightarrow> outs = (case u of Some s \<Rightarrow> [\<lparr>gr_result = s, gr_tokens = []\<rparr>] | None \<Rightarrow> [])
      | Globbed st \<Rightarrow> \<exists>n. glob_repr (gs_stack st) (gs_tokens st) outs n)"

lemma url_gen_call_texts:
  assumes "url_texts g outs"
  obtains g' where "url_gen_call g = Some (Inr (if outs = [] then None else Some (hd outs), g'))" "url_texts g' (tl outs)"
proof (cases g)
  case (Oneshot u)
  then show thesis using assms that [of "Oneshot None"] by (cases u) (auto simp: url_gen_call_def url_texts_def)
next
  case (Globbed st)
  then obtain n where "glob_repr (gs_stack st) (gs_tokens st) outs n" using assms by (auto simp: url_texts_def)
  from glob_call_repr [OF this] obtain st' m where
    "glob_call st = Some (Inr (if outs = [] then None else Some (hd outs), st'))"
    "glob_repr (gs_stack st') (gs_tokens st') (tl outs) m" by blast
  then show thesis using Globbed that [of "Globbed st'"] by (auto simp: url_gen_call_def url_texts_def)
qed

definition request_of :: "gparser \<Rightarrow> request_info \<Rightarrow> glob_result \<Rightarrow> request_opt" where
  "request_of gparse r g = \<lparr>ro_url = gr_result g, ro_output = projr (interpolate gparse (gr_tokens g) (ri_output r)),
     ro_input = ri_input r, ro_remotename = ri_remotename r\<rparr>"

definition info_texts :: "gparser \<Rightarrow> request_info \<Rightarrow> glob_result list \<Rightarrow> bool" where
  "info_texts gparse r outs \<longleftrightarrow> url_texts (ri_url_gen r) outs \<and>
     (\<forall>g\<in>set outs. is_ok (interpolate gparse (gr_tokens g) (ri_output r)))"

fun requests_in_order :: "gparser \<Rightarrow> request_info list \<Rightarrow> glob_result list list \<Rightarrow> request_opt list" where
  "requests_in_order gparse (r # rs) (outs # outss) = map (request_of gparse r) outs @ requests_in_order gparse rs outss"
| "requests_in_order gparse _ _ = []"

text \<open>What a vector of requests stands for, from its back to its front.\<close>

definition all_requests :: "gparser \<Rightarrow> request_info list \<Rightarrow> glob_result list list \<Rightarrow> request_opt list" where
  "all_requests gparse rs outss = requests_in_order gparse (rev rs) (rev outss)"

lemma request_opt_gen_Nil [simp]: "request_opt_gen gparse [] = Some (Inr (None, []))"
  by (simp add: request_opt_gen.simps)

lemma request_opt_gen_snoc [simp]:
  "request_opt_gen gparse (rs @ [r]) =
     (case url_gen_call (ri_url_gen r) of
        None \<Rightarrow> None
      | Some (Inl e) \<Rightarrow> Some (Inl e)
      | Some (Inr (Some o', g)) \<Rightarrow>
          Some (rmap (\<lambda>out. (Some \<lparr>ro_url = gr_result o', ro_output = out, ro_input = ri_input r,
                   ro_remotename = ri_remotename r\<rparr>, rs @ [r\<lparr>ri_url_gen := g\<rparr>]))
            (interpolate gparse (gr_tokens o') (ri_output r)))
      | Some (Inr (None, g)) \<Rightarrow> request_opt_gen gparse rs)"
  by (subst request_opt_gen.simps) (simp add: Let_def split: option.split sum.split prod.split)

lemmas request_opt_gen_short [simp] =
  request_opt_gen_snoc [of gparse "[]" for gparse, unfolded append_Nil]
  request_opt_gen_snoc [of gparse "[r0]" for gparse r0, unfolded append_Cons append_Nil]

lemma requests_in_order_step:
  "list_all2 (info_texts gparse) rs outss \<Longrightarrow>
   \<exists>rs' outss'. list_all2 (info_texts gparse) rs' outss' \<and>
     requests_in_order gparse rs' outss' = tl (requests_in_order gparse rs outss) \<and>
     request_opt_gen gparse (rev rs) =
       Some (Inr (case requests_in_order gparse rs outss of [] \<Rightarrow> None | x # _ \<Rightarrow> Some x, rev rs'))"
proof (induction rs outss rule: list_all2_induct)
  case Nil
  then show ?case by (intro exI [of _ "[]"]) simp
next
  case (Cons r rs outs outss)
  have r: "url_texts (ri_url_gen r) outs" "\<forall>g\<in>set outs. is_ok (interpolate gparse (gr_tokens g) (ri_output r))"
    using Cons.hyps(1) by (simp_all add: info_texts_def)
  from url_gen_call_texts [OF r(1)] obtain g' where
    g': "url_gen_call (ri_url_gen r) = Some (Inr (if outs = [] then None else Some (hd outs), g'))"
      "url_texts g' (tl outs)" .
  show ?case
  proof (cases outs)
    case Nil
    from Cons.IH show ?thesis using g'(1) Nil by simp
  next
    case (Cons x xs)
    obtain out where out: "interpolate gparse (gr_tokens x) (ri_output r) = Inr out"
      using r(2) Cons by (auto simp: is_ok_iff)
    let ?r = "r\<lparr>ri_url_gen := g'\<rparr>"
    have "info_texts gparse ?r xs" using g'(2) r(2) Cons by (simp add: info_texts_def)
    then have "list_all2 (info_texts gparse) (?r # rs) (xs # outss)"
      using \<open>list_all2 (info_texts gparse) rs outss\<close> by simp
    moreover have "requests_in_order gparse (?r # rs) (xs # outss) = tl (requests_in_order gparse (r # rs) (outs # outss))"
      using Cons by (simp add: request_of_def)
    moreover have "request_opt_gen gparse (rev (r # rs)) = Some (Inr (Some (request_of gparse r x), rev (?r # rs)))"
      using g'(1) out Cons by (simp add: request_of_def)
    ultimately show ?thesis using Cons by (intro exI [of _ "?r # rs"] exI [of _ "xs # outss"]) simp
  qed
qed

lemma request_opt_gen_step:
  assumes "list_all2 (info_texts gparse) rs outss"
  shows "\<exists>rs' outss'. list_all2 (info_texts gparse) rs' outss' \<and>
    all_requests gparse rs' outss' = tl (all_requests gparse rs outss) \<and>
    request_opt_gen gparse rs = Some (Inr (case all_requests gparse rs outss of [] \<Rightarrow> None | x # _ \<Rightarrow> Some x, rs'))"
proof -
  have "list_all2 (info_texts gparse) (rev rs) (rev outss)" using assms by simp
  from requests_in_order_step [OF this] obtain rs' outss' where "list_all2 (info_texts gparse) rs' outss'"
      "requests_in_order gparse rs' outss' = tl (all_requests gparse rs outss)"
      "request_opt_gen gparse rs = Some (Inr (case all_requests gparse rs outss of [] \<Rightarrow> None | x # _ \<Rightarrow> Some x, rev rs'))"
    by (auto simp: all_requests_def)
  then show ?thesis by (intro exI [of _ "rev rs'"] exI [of _ "rev outss'"]) (simp add: all_requests_def)
qed

text \<open>Calling the generator a number of times.\<close>

fun request_calls :: "gparser \<Rightarrow> nat \<Rightarrow> request_info list \<Rightarrow> request_opt option list option" where
  "request_calls gparse 0 rs = Some []"
| "request_calls gparse (Suc n) rs =
     (case request_opt_gen gparse rs of
        Some (Inr (x, rs')) \<Rightarrow> map_option (\<lambda>xs. x # xs) (request_calls gparse n rs')
      | _ \<Rightarrow> None)"

lemma request_calls_all:
  "list_all2 (info_texts gparse) rs outss \<Longrightarrow>
   request_calls gparse (length (all_requests gparse rs outss) + k) rs =
     Some (map Some (all_requests gparse rs outss) @ replicate k None)"
proof (induction "length (all_requests gparse rs outss) + k" arbitrary: rs outss k)
  case (Suc n)
  from request_opt_gen_step [OF Suc.prems] obtain rs' outss' where s: "list_all2 (info_texts gparse) rs' outss'"
      "all_requests gparse rs' outss' = tl (all_requests gparse rs outss)"
      "request_opt_gen gparse rs = Some (Inr (case all_requests gparse rs outss of [] \<Rightarrow> None | x # _ \<Rightarrow> Some x, rs'))"
    by blast
  show ?case
  proof (cases "all_requests gparse rs outss")
    case Nil
    then obtain k' where k: "k = Suc k'" using Suc.hyps(2) by (cases k) auto
    have "request_calls gparse (length (all_requests gparse rs' outss') + k') rs' =
        Some (map Some (all_requests gparse rs' outss') @ replicate k' None)"
      using Suc.hyps(2) s(2) Nil k by (intro Suc.hyps(1) s(1)) simp
    then show ?thesis using s(2,3) Nil k by simp
  next
    case (Cons x xs)
    have "request_calls gparse (length (all_requests gparse rs' outss') + k) rs' =
        Some (map Some (all_requests gparse rs' outss') @ replicate k None)"
      using Suc.hyps(2) s(2) Cons by (intro Suc.hyps(1) s(1)) simp
    then show ?thesis using s(2,3) Cons by simp
  qed
qed simp

subsection \<open>Which URL gets which output\<close>

definition name_options :: "(string \<times> string list) list \<Rightarrow> (string \<times> string list) list" where
  "name_options options = filter (\<lambda>(k, _). k = ''output'' \<or> k = ''remote-name'') options"

definition named_output :: "(string \<times> string list) list \<Rightarrow> nat \<Rightarrow> string" where
  "named_output nos i = (if i < length nos \<and> fst (nos ! i) = ''output'' then hd (snd (nos ! i)) else [])"

definition named_remote :: "(string \<times> string list) list \<Rightarrow> nat \<Rightarrow> bool" where
  "named_remote nos i \<longleftrightarrow> i < length nos \<and> fst (nos ! i) = ''remote-name''"

lemma named_shift:
  "named_output (x # nos) (Suc i) = named_output nos i" "named_remote (x # nos) (Suc i) = named_remote nos i"
  "named_output (x # nos) 0 = (if fst x = ''output'' then hd (snd x) else [])"
  "named_remote (x # nos) 0 = (fst x = ''remote-name'')" "named_output [] i = []" "\<not> named_remote [] i"
  by (simp_all add: named_output_def named_remote_def)

lemma assign_outputs_nth:
  "assign_outputs options rs = Inr rs' \<Longrightarrow> list_all (\<lambda>r. ri_output r = []) rs \<Longrightarrow>
   length rs' = length rs \<and>
   (\<forall>i < length rs. ri_url_gen (rs' ! i) = ri_url_gen (rs ! i) \<and> ri_input (rs' ! i) = ri_input (rs ! i) \<and>
      ri_output (rs' ! i) = named_output (name_options options) i \<and>
      ri_remotename (rs' ! i) = (ri_remotename (rs ! i) \<or> named_remote (name_options options) i))"
proof (induction options rs arbitrary: rs' rule: assign_outputs.induct)
  case (1 rs)
  then show ?case by (auto simp: name_options_def named_shift list_all_length)
next
  case (2 key vs os rs)
  show ?case
  proof (cases rs)
    case Nil
    then show ?thesis using "2.prems" by simp
  next
    case (Cons r rs1)
    consider "key = ''output''" | "key = ''remote-name''" | "key \<noteq> ''output''" "key \<noteq> ''remote-name''" by blast
    then show ?thesis
    proof cases
      case 1
      then obtain v vs' t where t: "vs = v # vs'" "assign_outputs os rs1 = Inr t" "rs' = r\<lparr>ri_output := v\<rparr> # t"
        using "2.prems"(1) Cons by (auto simp: rmap_Inr_iff split: list.splits)
      have "list_all (\<lambda>r. ri_output r = []) rs1" using "2.prems"(2) Cons by simp
      note ih = "2.IH"(1) [OF Cons 1 t(1,2) this]
      have "name_options ((key, vs) # os) = (key, vs) # name_options os" using 1 by (simp add: name_options_def)
      then show ?thesis using ih t 1 Cons by (auto simp: nth_Cons named_shift split: nat.split)
    next
      case 2
      then obtain t where t: "assign_outputs os rs1 = Inr t" "rs' = r\<lparr>ri_remotename := True\<rparr> # t"
        using "2.prems"(1) Cons by (auto simp: rmap_Inr_iff)
      have p: "list_all (\<lambda>r. ri_output r = []) rs1" "ri_output r = []" using "2.prems"(2) Cons by simp_all
      have "key \<noteq> ''output''" using 2 by simp
      note ih = "2.IH"(2) [OF Cons this 2 t(1) p(1)]
      have "name_options ((key, vs) # os) = (key, vs) # name_options os" using 2 by (simp add: name_options_def)
      then show ?thesis using ih t p 2 Cons by (auto simp: nth_Cons named_shift split: nat.split)
    next
      case 3
      have "assign_outputs os rs = Inr rs'" using "2.prems"(1) Cons 3 by simp
      note ih = "2.IH"(3) [OF Cons 3 this "2.prems"(2)]
      have "name_options ((key, vs) # os) = name_options os" using 3 by (simp add: name_options_def)
      then show ?thesis using ih by simp
    qed
  qed
qed

text \<open>The generator of a URL as it was given.\<close>

definition url_gen_of :: "gparser \<Rightarrow> bool \<Rightarrow> string \<Rightarrow> url_gen \<Rightarrow> bool" where
  "url_gen_of gparse globoff url g \<longleftrightarrow>
     (if globoff then g = Oneshot (Some url) else \<exists>st. make_glob_generator gparse url = Inr st \<and> g = Globbed st)"

lemma make_requests_shape:
  "make_requests gparse globoff ra urls = Inr rs \<Longrightarrow>
   list_all2 (\<lambda>url r. url_gen_of gparse globoff url (ri_url_gen r) \<and> ri_output r = [] \<and> ri_input r = [] \<and>
     ri_remotename r = ra) urls rs"
  by (induction gparse globoff ra urls arbitrary: rs rule: make_requests.induct)
    (auto simp: rbind_Inr_iff rmap_Inr_iff url_gen_of_def split: if_splits)

lemma assign_inputs_nth:
  "length (assign_inputs ss rs) = length rs \<and>
   (\<forall>i < length rs. assign_inputs ss rs ! i = (if i < length ss then (rs ! i)\<lparr>ri_input := ss ! i\<rparr> else rs ! i))"
  by (induction ss rs rule: assign_inputs.induct) (auto simp: nth_Cons split: nat.split)

definition uploaded :: "variables_map \<Rightarrow> nat \<Rightarrow> string" where
  "uploaded vm i = (case vm_strings vm ''upload-file'' of Some ss \<Rightarrow> if i < length ss then ss ! i else [] | None \<Rightarrow> [])"

lemma parse_requests_nth:
  assumes "parse_requests gparse vm options globoff urls = Inr rs"
  shows "length rs = length urls \<and> (\<forall>i < length urls.
    url_gen_of gparse globoff (urls ! i) (ri_url_gen (rev rs ! i)) \<and>
    ri_output (rev rs ! i) = named_output (name_options options) i \<and>
    ri_remotename (rev rs ! i) = (vm_flag vm ''remote-name-all'' \<or> named_remote (name_options options) i) \<and>
    ri_input (rev rs ! i) = uploaded vm i)"
proof -
  from assms obtain rs0 rs1 where r0: "make_requests gparse globoff (vm_flag vm ''remote-name-all'') urls = Inr rs0"
    and r1: "assign_outputs options rs0 = Inr rs1"
    and rs: "rev rs = (case vm_strings vm ''upload-file'' of Some ss \<Rightarrow> assign_inputs ss rs1 | None \<Rightarrow> rs1)"
    by (auto simp: parse_requests_def rbind_Inr_iff rmap_Inr_iff)
  note m = make_requests_shape [OF r0]
  have "list_all (\<lambda>r. ri_output r = []) rs0" using m by (auto simp: list_all_length list_all2_conv_all_nth)
  note a = assign_outputs_nth [OF r1 this]
  have "length (rev rs) = length urls" using m a assign_inputs_nth [of _ rs1] unfolding rs
    by (auto simp: list_all2_conv_all_nth split: option.split)
  moreover have "url_gen_of gparse globoff (urls ! i) (ri_url_gen (rev rs ! i)) \<and>
      ri_output (rev rs ! i) = named_output (name_options options) i \<and>
      ri_remotename (rev rs ! i) = (vm_flag vm ''remote-name-all'' \<or> named_remote (name_options options) i) \<and>
      ri_input (rev rs ! i) = uploaded vm i" if "i < length urls" for i
    using m a assign_inputs_nth [of _ rs1] that unfolding rs
    by (auto simp: uploaded_def list_all2_conv_all_nth split: option.split)
  ultimately show ?thesis by simp
qed

subsection \<open>The requests of a command line\<close>

text \<open>The texts a URL of the command line stands for: itself when globbing is off, otherwise every
  combination of the texts its generators have, the last varying fastest, each with its tokens.\<close>

definition url_expansions :: "gparser \<Rightarrow> bool \<Rightarrow> string \<Rightarrow> glob_result list \<Rightarrow> bool" where
  "url_expansions gparse globoff url outs \<longleftrightarrow>
     (if globoff then outs = [\<lparr>gr_result = url, gr_tokens = []\<rparr>]
      else \<exists>st ys. make_glob_generator gparse url = Inr st \<and> ys \<noteq> [] \<and>
        gens_yield (snd (hd (gs_stack st))) ys \<and> outs = combos [] [] ys)"

lemma url_expansions_texts:
  assumes "url_gen_of gparse globoff url g" "url_expansions gparse globoff url outs"
  shows "url_texts g outs"
proof (cases globoff)
  case True
  then show ?thesis using assms by (simp add: url_gen_of_def url_expansions_def url_texts_def)
next
  case False
  then obtain st ys where st: "make_glob_generator gparse url = Inr st" "g = Globbed st" "ys \<noteq> []"
      "gens_yield (snd (hd (gs_stack st))) ys" "outs = combos [] [] ys"
    using assms by (auto simp: url_gen_of_def url_expansions_def)
  then show ?thesis using glob_start_repr [OF st(1,4,3)] by (auto simp: url_texts_def)
qed

text \<open>The requests for the expansions of the URL with number \<open>i\<close>.\<close>

definition planned ::
    "gparser \<Rightarrow> variables_map \<Rightarrow> (string \<times> string list) list \<Rightarrow> nat \<Rightarrow> glob_result list \<Rightarrow> request_opt list" where
  "planned gparse vm options i outs =
     map (\<lambda>g. \<lparr>ro_url = gr_result g,
        ro_output = projr (interpolate gparse (gr_tokens g) (named_output (name_options options) i)),
        ro_input = uploaded vm i,
        ro_remotename = (vm_flag vm ''remote-name-all'' \<or> named_remote (name_options options) i)\<rparr>) outs"

lemma requests_in_order_nth:
  "length rs = length outss \<Longrightarrow>
   requests_in_order gparse rs outss = concat (map (\<lambda>i. map (request_of gparse (rs ! i)) (outss ! i)) [0 ..< length rs])"
proof (induction rs outss rule: list_induct2)
  case (Cons r rs outs outss)
  show ?case by (simp add: Cons.IH map_upt_Suc del: upt_Suc)
qed simp

text \<open>
  C11. The transfers of a run: for every URL of the command line in order, the generator of requests
  delivers each of its expansions once, and then none; it always returns.  A URL's expansions are
  the URL itself with \<^verbatim>\<open>--globoff\<close> and otherwise the combinations its own pattern stands for.  The
  first output or remote-name option of the command line belongs to the first URL, the second
  to the second and so on, and the upload files likewise; surplus options are ignored, and an
  output name has the tokens of the expansion filled in.
\<close>

theorem request_order:
  assumes "parse_requests gparse vm options globoff urls = Inr rs"
    and "list_all2 (url_expansions gparse globoff) urls outss"
    and "\<forall>i < length urls. \<forall>g \<in> set (outss ! i).
      is_ok (interpolate gparse (gr_tokens g) (named_output (name_options options) i))"
  shows "let expected = concat (map (\<lambda>i. planned gparse vm options i (outss ! i)) [0 ..< length urls]) in
    request_calls gparse (length expected + k) rs = Some (map Some expected @ replicate k None)"
proof -
  note p = parse_requests_nth [OF assms(1)]
  have l: "length (rev rs) = length outss" using p assms(2) by (simp add: list_all2_conv_all_nth)
  have "info_texts gparse (rev rs ! i) (outss ! i)" if "i < length urls" for i
  proof -
    have "url_texts (ri_url_gen (rev rs ! i)) (outss ! i)"
      using p assms(2) that by (intro url_expansions_texts [of gparse globoff "urls ! i"]) (auto simp: list_all2_conv_all_nth)
    then show ?thesis using p assms(3) that by (simp add: info_texts_def)
  qed
  then have "list_all2 (info_texts gparse) (rev rs) outss" using p l by (simp add: list_all2_conv_all_nth)
  then have texts: "list_all2 (info_texts gparse) rs (rev outss)" by (metis list_all2_rev rev_rev_ident)
  have "map (request_of gparse (rev rs ! i)) (outss ! i) = planned gparse vm options i (outss ! i)" if "i < length urls" for i
    using p that by (simp add: planned_def request_of_def)
  then have "all_requests gparse rs (rev outss) = concat (map (\<lambda>i. planned gparse vm options i (outss ! i)) [0 ..< length urls])"
    using p unfolding all_requests_def rev_rev_ident requests_in_order_nth [OF l]
    by (intro arg_cong [of _ _ concat]) simp
  then show ?thesis using request_calls_all [OF texts, of k] by (simp add: Let_def)
qed

text \<open>A pattern and a plain URL, with an output that takes the pattern's token.\<close>

theorem request_order_witness:
  "\<exists>rs. parse_requests ref_gparse vm_empty [(''remote-name'', []), (''output'', [''o#1''])] False [''b'', ''a{x,y}''] = Inr rs \<and>
     request_calls ref_gparse (3 + 1) rs =
       Some [Some \<lparr>ro_url = ''b'', ro_output = [], ro_input = [], ro_remotename = True\<rparr>,
             Some \<lparr>ro_url = ''ax'', ro_output = ''ox'', ro_input = [], ro_remotename = False\<rparr>,
             Some \<lparr>ro_url = ''ay'', ro_output = ''oy'', ro_input = [], ro_remotename = False\<rparr>, None]"
proof -
  let ?opts = "[(''remote-name'', []), (''output'', [''o#1''])] :: (string \<times> string list) list"
  let ?urls = "[''b'', ''a{x,y}'']"
  let ?st1 = "\<lparr>gs_stack = [([], [StaticGen (Some ''b'')])], gs_tokens = []\<rparr>"
  let ?st2 = "\<lparr>gs_stack = [([], [StaticGen (Some ''a''), SetGen [''x'', ''y''] 0])], gs_tokens = []\<rparr>"
  let ?ys1 = "[(True, [''b''])]" and ?ys2 = "[(True, [''a'']), (False, [''x'', ''y''])]"
  let ?outss = "[combos [] [] ?ys1, combos [] [] ?ys2]"
  have st: "make_glob_generator ref_gparse ''b'' = Inr ?st1" "make_glob_generator ref_gparse ''a{x,y}'' = Inr ?st2"
    by (simp_all add: make_glob_generator_def ref_gparse_def glob_rule_def static_rule_def num_range_rule_def
        char_range_rule_def set_rule_def ref_range.simps unsigned_parse_def Let_def mk_tuple_def
        make_gen_def g_get_def stoull_digits is_digit_def is_alpha_def byte_def read_nat_def digit_val_def)
  have y: "gens_yield (snd (hd (gs_stack ?st1))) ?ys1" "gens_yield (snd (hd (gs_stack ?st2))) ?ys2"
    using static_gen_yields [of "''a''"] static_gen_yields [of "''b''"] set_gen_yields [of 0 "[''x'', ''y'']"]
    by (simp_all add: gens_yield_def)
  obtain rs where rs: "parse_requests ref_gparse vm_empty ?opts False ?urls = Inr rs"
    by (simp add: parse_requests_def vm_empty_def st)
  have e: "list_all2 (url_expansions ref_gparse False) ?urls ?outss"
    using st y by (auto simp: url_expansions_def)
  have i: "interpolate ref_gparse [] [] = Inr []" "interpolate ref_gparse [''x''] ''o#1'' = Inr ''ox''"
      "interpolate ref_gparse [''y''] ''o#1'' = Inr ''oy''"
    by (simp_all add: interpolate_def ref_gparse_def interpolate_rule_def ref_range.simps Let_def mk_tuple_def
        interpolate_piece_def unsigned_parse_def stoull_digits is_digit_def byte_def read_nat_def digit_val_def)
  have n: "named_output (name_options ?opts) 0 = []" "named_output (name_options ?opts) 1 = ''o#1''"
      "named_remote (name_options ?opts) 0" "\<not> named_remote (name_options ?opts) 1"
    by (simp_all add: name_options_def named_output_def named_remote_def)
  have u: "uploaded vm_empty j = []" "vm_flag vm_empty f = False" for j f by (simp_all add: uploaded_def vm_empty_def)
  have ok: "\<forall>j < length ?urls. \<forall>g \<in> set (?outss ! j).
      is_ok (interpolate ref_gparse (gr_tokens g) (named_output (name_options ?opts) j))"
    using n i by (auto simp: less_Suc_eq)
  have "concat (map (\<lambda>j. planned ref_gparse vm_empty ?opts j (?outss ! j)) [0 ..< length ?urls]) =
      [\<lparr>ro_url = ''b'', ro_output = [], ro_input = [], ro_remotename = True\<rparr>,
       \<lparr>ro_url = ''ax'', ro_output = ''ox'', ro_input = [], ro_remotename = False\<rparr>,
       \<lparr>ro_url = ''ay'', ro_output = ''oy'', ro_input = [], ro_remotename = False\<rparr>]"
    using n [unfolded One_nat_def] by (simp add: planned_def u i)
  note r = request_order [OF rs e ok, of 1, unfolded Let_def this]
  show ?thesis using rs r by (simp add: numeral_3_eq_3 del: request_calls.simps)
qed

end
