(* ===== verification/Option_Values.thy ===== *)
theory Option_Values
  imports Parse_Args_Proofs
begin

text \<open>
  Values of burl's options: what percent encoding does to the fields of a form, how the pieces of
  a request body are joined, and the sizes that \<^verbatim>\<open>--limit-rate\<close> and \<^verbatim>\<open>--max-filesize\<close> take.
\<close>

subsection \<open>Form fields\<close>

text \<open>How a server reads a field back: plus signs are spaces, percent signs start two hexadecimal
  digits.\<close>

definition hex_val :: "char \<Rightarrow> nat" where
  "hex_val c = (if is_digit c then nat (byte c - 48) else nat (byte (to_lower c) - 87))"

fun form_decode :: "string \<Rightarrow> string" where
  "form_decode [] = []"
| "form_decode (c # s) =
     (if c = CHR ''+'' then CHR '' '' # form_decode s
      else if c = CHR ''%'' \<and> length s \<ge> 2
      then char_of (16 * hex_val (s ! 0) + hex_val (s ! 1)) # form_decode (drop 2 s)
      else c # form_decode s)"

lemma hex_val_digit: "n < 16 \<Longrightarrow> hex_val (hex_digit n) = n"
proof -
  assume "n < 16"
  moreover have "\<forall>n \<in> {0..<16}. hex_val (hex_digit n) = n" by code_simp
  ultimately show ?thesis by simp
qed

lemma char_nibble: "(of_char c :: nat) div 16 < 16"
  by (rule less_mult_imp_div_less) simp

lemma form_decode_char:
  "form_decode (encode_char c @ s) = (if c = CHR ''+'' then CHR '' '' else c) # form_decode s"
proof (cases "c = CHR '' '' \<or> pchar c")
  case True
  moreover have "\<not> pchar (CHR ''%'')" by code_simp
  ultimately show ?thesis by (auto simp: encode_char_def)
next
  case False
  then have e: "encode_char c = [CHR ''%'', hex_digit (of_char c div 16), hex_digit (of_char c mod 16)]" "c \<noteq> CHR ''+''"
    by (auto simp: encode_char_def pchar_def)
  have "16 * hex_val (hex_digit (of_char c div 16)) + hex_val (hex_digit (of_char c mod 16)) = of_char c"
    by (simp add: hex_val_digit char_nibble)
  then show ?thesis using e by simp
qed

lemma form_decode_encode:
  "form_decode (concat (map encode_char s)) = map (\<lambda>c. if c = CHR ''+'' then CHR '' '' else c) s"
  by (induction s) (simp_all add: form_decode_char)

lemma encode_char_amp: "CHR ''&'' \<in> set (encode_char c) \<longleftrightarrow> c = CHR ''&''"
proof -
  have "\<forall>n \<in> {0..<16}. hex_digit n \<noteq> CHR ''&''" by code_simp
  moreover note char_nibble [of c]
  ultimately have "hex_digit (of_char c div 16) \<noteq> CHR ''&''" "hex_digit (of_char c mod 16) \<noteq> CHR ''&''"
    by simp_all
  then show ?thesis by (auto simp: encode_char_def pchar_def)
qed

text \<open>
  A field of \<^verbatim>\<open>--data-urlencode name=content\<close>: the name is copied and the content is encoded;
  a server that decodes the field gets the content back exactly when it has no plus sign, and an
  ampersand of the content is not encoded, so that it ends the field.
\<close>

theorem data_urlencode_field:
  assumes "option_interface env" "CHR ''='' \<notin> set name"
  shows "data_urlencode env (name @ CHR ''='' # s) w = Inr (named name (oe_encode env s), w) \<and>
    (form_decode (oe_encode env s) = s \<longleftrightarrow> CHR ''+'' \<notin> set s) \<and>
    (CHR ''&'' \<in> set (oe_encode env s) \<longleftrightarrow> CHR ''&'' \<in> set s)"
proof -
  have "map (\<lambda>c. if c = CHR ''+'' then CHR '' '' else c) s = s \<longleftrightarrow> CHR ''+'' \<notin> set s"
    by (induction s) auto
  moreover have "CHR ''&'' \<in> set (concat (map encode_char s)) \<longleftrightarrow> CHR ''&'' \<in> set s"
    by (induction s) (auto simp: encode_char_amp)
  ultimately show ?thesis
    using assms(2) by (simp add: data_urlencode_def option_interface.encode [OF assms(1)] form_decode_encode)
qed

theorem data_urlencode_field_witness:
  "data_urlencode ref_env ''q=a&b'' ex_world = Inr (''q=a&b'', ex_world)"
proof -
  have e: "oe_encode ref_env ''a&b'' = ''a&b''"
    unfolding refenv.encode by code_simp
  from data_urlencode_field [OF refenv.option_interface_axioms, of "''q''" "''a&b''" ex_world] show ?thesis
    by (simp add: e named_def)
qed

subsection \<open>Request bodies\<close>

text \<open>The pieces of a body in the order of the options, separated by ampersands.\<close>

fun join_amp :: "string list \<Rightarrow> string" where
  "join_amp [] = []"
| "join_amp [s] = s"
| "join_amp (s # ss) = s @ ''&'' @ join_amp ss"

fun read_pieces :: "data_reader \<Rightarrow> string list \<Rightarrow> world \<Rightarrow> exn + (string list \<times> world)" where
  "read_pieces f [] w = Inr ([], w)"
| "read_pieces f (sv # svs) w = rbind (f sv w) (\<lambda>(s, w'). rmap (\<lambda>(ss, w''). (s # ss, w'')) (read_pieces f svs w'))"

lemma join_amp_append:
  "join_amp (xs @ ys) = (if xs = [] then join_amp ys else if ys = [] then join_amp xs else join_amp xs @ ''&'' @ join_amp ys)"
proof (induction xs rule: join_amp.induct)
  case (2 s)
  then show ?case by (cases ys) auto
next
  case (3 s t ss)
  then show ?case by auto
qed simp

text \<open>The text collected so far as the list of its pieces.\<close>

definition joined :: "string list \<Rightarrow> string option" where
  "joined ps = (if ps = [] then None else Some (join_amp ps))"

lemma data_append_pieces:
  "data_append f svs (joined ps) w = rmap (\<lambda>(ss, w'). (joined (ps @ ss), w')) (read_pieces f svs w)"
proof (induction svs arbitrary: ps w)
  case (Cons sv svs)
  have "Some (data_init (joined ps) @ s) = joined (ps @ [s])" for s
    by (simp add: joined_def data_init_def join_amp_append)
  then show ?case
    using Cons.IH by (cases "f sv w") (auto split: prod.split sum.split simp: case_prod_beta' comp_def)
qed simp

subsection \<open>Sizes\<close>

lemma round_double_nat:
  assumes "n < 2 ^ 53"
  shows "round_double n 1 = of_nat n"
proof (cases "n = 0")
  case False
  have "bitlen (int n) \<le> 53" using assms by (simp add: bitlen_le_iff_power)
  then obtain s0 where s0: "53 + bitlen (int 1) - bitlen (int n) = 1 + int s0"
    by (intro that [of "nat (53 - bitlen (int n))"]) (simp add: bitlen_def floorlog_def)
  have "of_nat (round_even (n * 2 ^ k) 1) / 2 ^ k = (of_nat n :: rat)" for k
    by (simp add: round_even_def Let_def)
  then show ?thesis
    unfolding round_double_def s0 using False by (simp add: scaled_def Let_def nat_add_distrib)
qed (simp add: round_double_def)

lemma stod_digits:
  assumes "s \<noteq> []" "list_all is_digit s" "read_nat s < 2 ^ 53"
  shows "stod s = Inr (of_nat (read_nat s))"
proof -
  have d: "takeWhile is_digit s = s" "dropWhile is_digit s = []"
    using assms(2) by (auto simp: list_all_iff takeWhile_eq_all_conv dropWhile_eq_Nil_conv)
  have "(2 :: nat) ^ 53 \<le> (2 ^ 54 - 1) * 2 ^ 970" by simp
  then have "\<not> read_nat s \<ge> (2 ^ 54 - 1) * 2 ^ 970 * 1" using assms(3) by linarith
  then show ?thesis
    using assms(1) round_double_nat [OF assms(3)] by (auto simp: stod_def Let_def d)
qed

lemma digit_letter: "c \<in> set ''BKMGTPbkmgtp'' \<Longrightarrow> \<not> is_digit c \<and> c \<noteq> CHR ''.''"
  by (auto simp: is_digit_def byte_def)

lemma unit_lower:
  "to_lower (CHR ''B'') = CHR ''b''" "to_lower (CHR ''K'') = CHR ''k''" "to_lower (CHR ''M'') = CHR ''m''"
  "to_lower (CHR ''G'') = CHR ''g''" "to_lower (CHR ''T'') = CHR ''t''" "to_lower (CHR ''P'') = CHR ''p''"
  "to_lower (CHR ''b'') = CHR ''b''" "to_lower (CHR ''k'') = CHR ''k''" "to_lower (CHR ''m'') = CHR ''m''"
  "to_lower (CHR ''g'') = CHR ''g''" "to_lower (CHR ''t'') = CHR ''t''" "to_lower (CHR ''p'') = CHR ''p''"
  by code_simp+

context url_grammar
begin

lemma size_unit:
  assumes "i < 6" "c \<in> {''BKMGTP'' ! i, ''bkmgtp'' ! i}"
  shows "\<exists>v. alt_parse rparse 0 (map ci_delim_rule ''BKMGTP'') [c] = Inr (GAlt i v, [])"
proof -
  consider "i = 0" | "i = 1" | "i = 2" | "i = 3" | "i = 4" | "i = 5" using assms(1) by linarith
  then show ?thesis
    using assms(2) by cases (auto simp: custom ci_delim_rule_def unit_lower)
qed

lemma size_parse:
  assumes "i < 6" "c \<in> {''BKMGTP'' ! i, ''bkmgtp'' ! i}"
  shows "\<exists>v. gparse size_rule (show_nat n @ [c]) = Inr (GTuple [GStr (show_nat n), GSome (GAlt i v)])"
    and "gparse size_rule (show_nat n) = Inr (GTuple [GStr (show_nat n), GNone])"
proof -
  let ?cs = "cs_union digit_chars (lut_chars ''.'')"
  have all: "list_all (cs_mem ?cs) (show_nat n)"
    using show_nat_digits [of n] by (auto simp: list_all_iff)
  have "c \<in> set ''BKMGTPbkmgtp''"
  proof -
    have "''BKMGTP'' ! i \<in> set ''BKMGTP''" "''bkmgtp'' ! i \<in> set ''bkmgtp''"
      using assms(1) by (intro nth_mem, simp)+
    then show ?thesis using assms(2) by auto
  qed
  then have "\<not> cs_mem ?cs c" using digit_letter by simp
  from token_field [OF show_nat_not_Nil all this] size_unit [OF assms]
  show "\<exists>v. gparse size_rule (show_nat n @ [c]) = Inr (GTuple [GStr (show_nat n), GSome (GAlt i v)])"
    by (auto simp: parse_all size_rule_def tupled optional variants mk_tuple_def simp del: list.map)
  from token_all [OF show_nat_not_Nil all]
  show "gparse size_rule (show_nat n) = Inr (GTuple [GStr (show_nat n), GNone])"
    by (simp add: parse_all size_rule_def tupled optional mk_tuple_def)
qed

end

lemma double_to_u64_nat:
  "double_to_u64 (of_nat m) = (if m < 2 ^ 64 then Inr (of_nat m)
     else Inl (undefined_behaviour ''conversion of a double out of range''))"
proof -
  have "(of_nat m :: rat) < 2 ^ 64 \<longleftrightarrow> m < 2 ^ 64"
    using of_nat_less_iff [of m "2 ^ 64", where ?'a = rat] by simp
  then show ?thesis by (simp add: double_to_u64_def)
qed

text \<open>
  Sizes are exact: a decimal number below two to the 53 with a unit letter of either case is
  the number times the power of 1024 the letter stands for, and without a letter the number
  itself; a product of 64 bits or more has no defined value.
\<close>

theorem size_exact:
  assumes "url_grammar gparse rparse" "n < 2 ^ 53" "i < 6" "c \<in> {''BKMGTP'' ! i, ''bkmgtp'' ! i}"
  shows "parse_human_readable_size gparse (show_nat n @ [c]) =
      (if n * 1024 ^ i < 2 ^ 64 then Inr (Inr (of_nat (n * 1024 ^ i)))
       else Inl (undefined_behaviour ''conversion of a double out of range'')) \<and>
    parse_human_readable_size gparse (show_nat n) = Inr (Inr (of_nat n))"
proof -
  note p = url_grammar.size_parse [OF assms(1,3,4), of n]
  have st: "stod (show_nat n) = Inr (of_nat n)"
    using stod_digits [OF show_nat_not_Nil show_nat_digits] assms(2) by simp
  have "(of_nat n :: rat) * 2 ^ (10 * i) = of_nat (n * 1024 ^ i)"
    by (simp add: power_mult)
  then have "parse_human_readable_size gparse (show_nat n @ [c]) = rmap Inr (double_to_u64 (of_nat (n * 1024 ^ i)))"
    using p(1) st by (auto simp: parse_human_readable_size_def g_get_def simp del: of_nat_mult of_nat_power)
  moreover have "parse_human_readable_size gparse (show_nat n) = rmap Inr (double_to_u64 (of_nat n))"
    using p(2) st by (simp add: parse_human_readable_size_def g_get_def)
  moreover have "n < 2 ^ 64" using assms(2) by simp
  ultimately show ?thesis by (simp only: double_to_u64_nat rmap.simps if_distrib [of "rmap Inr"] if_True)
qed

theorem size_exact_witness:
  "parse_human_readable_size ref_gparse ''10k'' = Inr (Inr 10240)"
proof -
  have "show_nat 10 = ''10''" by code_simp
  then show ?thesis
    using size_exact [OF ref.url_grammar_axioms, of 10 1 "CHR ''k''"] by simp
qed

end
