(* ===== verification/Burl_Transfer.thy ===== *)
theory Burl_Transfer
  imports Burl_Request Any_Iostream Progress_Meter Utils
begin

text \<open>
  One transfer of the burl client (\<^verbatim>\<open>perform_request\<close> of \<^verbatim>\<open>main.cpp\<close>): the URL, the output file and
  its name, the request with its redirects, the body that goes into the output, and what happens
  to a partial file.  What the awaits of a transfer bring is given as a record; the functions of
  Boost.URL and the grammar engine are parameters.
\<close>

subsection \<open>Paths\<close>

text \<open>\<^verbatim>\<open>std::filesystem::path\<close> on a POSIX system: appending, the file name and existence.\<close>

definition path_append :: "string \<Rightarrow> string \<Rightarrow> string" where
  "path_append p x =
     (if starts_with x ''/'' then x
      else if p \<noteq> [] \<and> last p \<noteq> CHR ''/'' then p @ ''/'' @ x
      else p @ x)"

definition path_filename :: "string \<Rightarrow> string" where
  "path_filename p = rev (takeWhile (\<lambda>c. c \<noteq> CHR ''/'') (rev p))"

definition fs_exists :: "world \<Rightarrow> string \<Rightarrow> bool" where
  "fs_exists w p \<longleftrightarrow> w_files w p \<noteq> None \<or> w_directory w p"

definition fs_remove :: "string \<Rightarrow> world \<Rightarrow> world" where
  "fs_remove p w = w\<lparr>w_files := (w_files w)(p := None)\<rparr>"

subsection \<open>The URL and the output\<close>

record 'rq transfer_env =
  te_redirect :: "'rq redirect_env"
  te_brotli :: bool
  te_zlib :: bool
  te_gparse :: gparser
  te_quoted :: "string \<Rightarrow> gerror + gval \<times> string"
  te_parse_uri :: "string \<Rightarrow> gerror + url_view"
  te_normalize :: "url_view \<Rightarrow> url_view"
  te_append_params :: "string \<Rightarrow> url_view \<Rightarrow> url_view"
  te_set_path :: "string \<Rightarrow> url_view \<Rightarrow> url_view"

definition transfer_url :: "'rq transfer_env \<Rightarrow> operation_config \<Rightarrow> string \<Rightarrow> exn + url_view" where
  "transfer_url te oc str =
     (case normalize_and_parse_url (te_gparse te) (te_parse_uri te) (te_normalize te) str of
        Inl _ \<Rightarrow> Inl (system_error ''Failed to parse URL'')
      | Inr u0 \<Rightarrow>
          if u_host u0 = [] then Inl (runtime_error ''No host part in the URL'')
          else
            let u1 = te_append_params te (oc_query oc) u0 in
            Inr (if u_path u1 = [] then te_set_path te ''/'' u1 else u1))"

text \<open>The path of the output, and the options with what choosing it changes.  Resuming from the
  file's size and creating its directories read the variable that is being initialized.\<close>

definition output_path :: "operation_config \<Rightarrow> url_view \<Rightarrow> request_opt \<Rightarrow> exn + string \<times> operation_config" where
  "output_path oc url ro =
     (let (path, oc1) =
        (if ro_remotename ro then
           (if u_segments url = [] \<or> last (u_segments url) = []
            then (path_append (oc_output_dir oc) ''burl_response'', oc)
            else (path_append (oc_output_dir oc) (last (u_segments url)), oc))
         else if ro_output ro = ''-'' then (''-'', oc\<lparr>oc_terminal_binary_ok := True\<rparr>)
         else if ro_output ro = [] then (''-'', oc)
         else (path_append (oc_output_dir oc) (ro_output ro), oc)) in
      if path \<noteq> ''-'' \<and> (oc_resume_from_current oc1 \<or> oc_create_dirs oc1)
      then Inl (undefined_behaviour ''output_path: read in its initializer'')
      else Inr (path, oc1))"

text \<open>The header of each response, in order, to the output and to the header file.\<close>

definition write_headers ::
    "operation_config \<Rightarrow> any_ostream \<Rightarrow> any_ostream option \<Rightarrow> string \<Rightarrow> world \<Rightarrow> world" where
  "write_headers oc os header_output buffer w =
     (let w1 = (if oc_show_headers oc then ostream_write os buffer w else w) in
      case header_output of Some h \<Rightarrow> ostream_write h buffer w1 | None \<Rightarrow> w1)"

definition write_streamed ::
    "operation_config \<Rightarrow> any_ostream \<Rightarrow> any_ostream option \<Rightarrow> string list \<Rightarrow> world \<Rightarrow> world" where
  "write_streamed oc os header_output buffers w =
     foldl (\<lambda>w b. write_headers oc os header_output b w) w buffers"

text \<open>The file name a server asks for.\<close>

fun choose_output ::
    "'rq transfer_env \<Rightarrow> string \<Rightarrow> string list \<Rightarrow> any_ostream \<Rightarrow> world \<Rightarrow> (exn + any_ostream) \<times> world" where
  "choose_output te dir [] os w = (Inr os, w)"
| "choose_output te dir (sv # svs) os w =
     (case extract_filename_form_content_disposition (te_gparse te) (te_quoted te) sv of
        Inl e \<Rightarrow> (Inl e, w)
      | Inr None \<Rightarrow> choose_output te dir svs os w
      | Inr (Some filepath) \<Rightarrow>
          let filename = path_filename filepath in
          if filename = [] then choose_output te dir svs os w
          else any_ostream_new (path_append dir filename) False w)"

subsection \<open>The body\<close>

text \<open>One call of the sink: the error or the number of bytes taken, and the meter.\<close>

definition sink_on_write ::
    "bool \<Rightarrow> any_ostream \<Rightarrow> int \<Rightarrow> string \<Rightarrow> progress_meter \<Rightarrow> world \<Rightarrow> (exn + nat) \<times> progress_meter \<times> world" where
  "sink_on_write terminal_binary_ok os now chunk pm w =
     (if \<not> terminal_binary_ok \<and> os_is_tty os \<and> CHR 0x00 \<in> set chunk
      then (Inl (system_error ''binary output to tty''), pm, w)
      else (Inr (length chunk), pm_update now (of_nat (length chunk)) pm, ostream_write os chunk w))"

text \<open>The parser hands the body to the sink in pieces and stops at its first error.\<close>

fun sink_writes ::
    "bool \<Rightarrow> any_ostream \<Rightarrow> (int \<times> string) list \<Rightarrow> progress_meter \<Rightarrow> world \<Rightarrow> exn option \<times> progress_meter \<times> world" where
  "sink_writes ok os [] pm w = (None, pm, w)"
| "sink_writes ok os ((now, chunk) # cs) pm w =
     (case sink_on_write ok os now chunk pm w of
        (Inl e, pm1, w1) \<Rightarrow> (Some e, pm1, w1)
      | (Inr _, pm1, w1) \<Rightarrow> sink_writes ok os cs pm1 w1)"

text \<open>What the awaits of a transfer bring: the first connection, the rounds of the redirect loop,
  the pieces of the body and the error reading it ends with, if any.\<close>

record transfer_events =
  tv_connect :: "exn option"
  tv_rounds :: "round list"
  tv_start :: int
  tv_chunks :: "(int \<times> string) list"
  tv_read :: "exn option"

text \<open>Whether the progress is reported; the first report is made as soon as the reading starts.
  The reports themselves go to the standard error and are left out.\<close>

definition shows_progress :: "operation_config \<Rightarrow> any_ostream \<Rightarrow> bool" where
  "shows_progress oc os \<longleftrightarrow> \<not> (os_is_tty os \<or> oc_parallel_max oc > 1 \<or> oc_noprogress oc)"

definition read_body ::
    "operation_config \<Rightarrow> any_ostream \<Rightarrow> response \<Rightarrow> transfer_events \<Rightarrow> world \<Rightarrow> exn option \<times> world" where
  "read_body oc os rsp ev w =
     (let pm = pm_new (body_size rsp) (tv_start ev) in
      case (if shows_progress oc os then pm_pct pm else Inr None) of
        Inl e \<Rightarrow> (Some e, w)
      | Inr _ \<Rightarrow>
          (case sink_writes (oc_terminal_binary_ok oc) os (tv_chunks ev) pm w of
             (Some e, _, w1) \<Rightarrow> (Some e, w1)
           | (None, _, w1) \<Rightarrow> (tv_read ev, w1)))"

subsection \<open>The transfer\<close>

datatype transfer_end = Transfer_done nat | Transfer_threw exn | Transfer_waiting

text \<open>From the last response to the end.\<close>

definition finish_transfer ::
    "'rq transfer_env \<Rightarrow> operation_config \<Rightarrow> request_opt \<Rightarrow> any_ostream \<Rightarrow> response \<Rightarrow> transfer_events \<Rightarrow> world \<Rightarrow>
     transfer_end \<times> world" where
  "finish_transfer te oc ro os rsp ev w =
     (case check_failonerror oc rsp of
        Some e \<Rightarrow> (Transfer_threw e, w)
      | None \<Rightarrow>
          (case (if oc_content_disposition oc \<and> ro_remotename ro
                 then choose_output te (oc_output_dir oc) (rsp_dispositions rsp) os w else (Inr os, w)) of
             (Inl e, w1) \<Rightarrow> (Transfer_threw e, w1)
           | (Inr os1, w1) \<Rightarrow>
               (case check_resume oc rsp of
                  Some e \<Rightarrow> (Transfer_threw e, w1)
                | None \<Rightarrow>
                    (case (if should_ignore_body oc rsp then (None, w1) else read_body oc os1 rsp ev w1) of
                       (Some e, w2) \<Rightarrow> (Transfer_threw e, w2)
                     | (None, w2) \<Rightarrow>
                         (case after_body oc rsp of
                            Some e \<Rightarrow> (Transfer_threw e, w2)
                          | None \<Rightarrow> (Transfer_done (rsp_status rsp), w2))))))"

text \<open>From the first connection on, with the jar it leaves.\<close>

definition run_transfer ::
    "'rq transfer_env \<Rightarrow> operation_config \<Rightarrow> any_ostream option \<Rightarrow> cookie_jar option \<Rightarrow> string \<Rightarrow> message \<Rightarrow>
     request_opt \<Rightarrow> transfer_events \<Rightarrow> url_view \<Rightarrow> any_ostream \<Rightarrow> 'rq \<Rightarrow> world \<Rightarrow>
     transfer_end \<times> cookie_jar option \<times> world" where
  "run_transfer te oc header_output jar exp_cookies msg ro ev url os request w =
     (case tv_connect ev of
        Some e \<Rightarrow> (Transfer_threw e, jar, w)
      | None \<Rightarrow>
          (case redirect_loop (te_redirect te) oc exp_cookies url (tv_rounds ev)
                  (redirect_start oc msg url jar request) of
             (e, st) \<Rightarrow>
               let w1 = write_streamed oc os header_output (rd_streamed st) w in
               (case e of
                  Loop_threw x \<Rightarrow> (Transfer_threw x, rd_jar st, w1)
                | Loop_waiting \<Rightarrow> (Transfer_waiting, rd_jar st, w1)
                | Loop_done rsp \<Rightarrow>
                    (case finish_transfer te oc ro os rsp ev w1 of (r, w2) \<Rightarrow> (r, rd_jar st, w2)))))"

text \<open>The guard that runs when the function is left by an exception.\<close>

definition scope_fail :: "operation_config \<Rightarrow> string \<Rightarrow> transfer_end \<Rightarrow> world \<Rightarrow> world" where
  "scope_fail oc path r w =
     (case r of
        Transfer_threw _ \<Rightarrow> if oc_rm_partial oc \<and> path \<noteq> ''-'' then fs_remove path w else w
      | _ \<Rightarrow> w)"

definition perform_request ::
    "'rq transfer_env \<Rightarrow> operation_config \<Rightarrow> any_ostream option \<Rightarrow> cookie_jar option \<Rightarrow> string \<Rightarrow> message \<Rightarrow>
     request_opt \<Rightarrow> transfer_events \<Rightarrow> world \<Rightarrow> transfer_end \<times> cookie_jar option \<times> world" where
  "perform_request te oc0 header_output jar exp_cookies msg ro ev w =
     (case transfer_url te oc0 (ro_url ro) of
        Inl e \<Rightarrow> (Transfer_threw e, jar, w)
      | Inr url \<Rightarrow>
          if ro_input ro \<noteq> [] then (Transfer_threw (runtime_error ''File upload is not available''), jar, w)
          else
            (case output_path oc0 url ro of
               Inl e \<Rightarrow> (Transfer_threw e, jar, w)
             | Inr (path, oc) \<Rightarrow>
                 if oc_skip_existing oc \<and> fs_exists w path then (Transfer_done 200, jar, w)
                 else
                   (case any_ostream_new path (oc_resume_from oc \<noteq> None) w of
                      (Inl e, w1) \<Rightarrow> (Transfer_threw e, jar, w1)
                    | (Inr os, w1) \<Rightarrow>
                        (case create_request (en_ops (te_redirect te)) (te_brotli te) (te_zlib te) oc msg url of
                           Inl e \<Rightarrow> (Transfer_threw e, jar, w1)
                         | Inr request \<Rightarrow>
                             (case run_transfer te oc header_output jar exp_cookies msg ro ev url os request w1 of
                                (r, jar', w2) \<Rightarrow> (r, jar', scope_fail oc path r w2))))))"

end
