(* ===== verification/Burl_Transfer_Proofs.thy ===== *)
theory Burl_Transfer_Proofs
  imports Burl_Transfer Burl_Request_Proofs
begin

text \<open>
  What a transfer of the burl client leaves behind: the bytes of the output file, nothing of a
  failed transfer when partial files are to be removed, no binary data on a terminal, and a
  server-chosen file name that stays in the output directory.
\<close>

subsection \<open>The sink\<close>

text \<open>The pieces a sink takes: all of them, or on a guarded terminal those before the first one
  with a NUL byte.\<close>

definition sink_takes :: "bool \<Rightarrow> any_ostream \<Rightarrow> (int \<times> string) list \<Rightarrow> (int \<times> string) list" where
  "sink_takes ok os cs = (if ok \<or> \<not> os_is_tty os then cs else takeWhile (\<lambda>(_, c). CHR 0x00 \<notin> set c) cs)"

definition chunk_sizes :: "(int \<times> string) list \<Rightarrow> (int \<times> u64) list" where
  "chunk_sizes cs = map (\<lambda>(t, c). (t, of_nat (length c))) cs"

lemma sink_takes_Cons:
  "sink_takes ok os ((t, c) # cs) =
     (if \<not> ok \<and> os_is_tty os \<and> CHR 0x00 \<in> set c then [] else (t, c) # sink_takes ok os cs)"
  by (simp add: sink_takes_def)

lemma write_all_Cons: "write_all os (x # xs) w = write_all os xs (ostream_write os x w)"
  by (simp add: write_all_def)

lemma sink_writes_eq:
  "sink_writes ok os cs pm w =
     ((if sink_takes ok os cs = cs then None else Some (system_error ''binary output to tty'')),
      pm_run (chunk_sizes (sink_takes ok os cs)) pm,
      write_all os (map snd (sink_takes ok os cs)) w)"
proof (induction cs arbitrary: pm w)
  case Nil
  show ?case by (simp add: sink_takes_def chunk_sizes_def write_all_def)
next
  case (Cons x cs)
  obtain t c where x: "x = (t, c)" by (cases x)
  show ?case
  proof (cases "\<not> ok \<and> os_is_tty os \<and> CHR 0x00 \<in> set c")
    case True
    then show ?thesis by (simp add: x sink_takes_Cons sink_on_write_def chunk_sizes_def write_all_def)
  next
    case False
    have "sink_writes ok os (x # cs) pm w =
        sink_writes ok os cs (pm_update t (of_nat (length c)) pm) (ostream_write os c w)"
      unfolding x sink_writes.simps sink_on_write_def if_not_P [OF False] by simp
    then show ?thesis
      unfolding Cons.IH x sink_takes_Cons if_not_P [OF False] by (simp add: chunk_sizes_def write_all_Cons)
  qed
qed

lemma write_all_cout:
  "os_stream os = To_cout \<Longrightarrow> write_all os xs w = w\<lparr>w_stdout := w_stdout w @ concat xs\<rparr>"
  by (induction xs arbitrary: w) (simp_all add: write_all_def ostream_write_def)

text \<open>
  What of a body reaches a terminal: when the standard output is a terminal and binary
  output was not asked for, exactly the pieces before the first one with a NUL byte are
  written, the transfer fails when there is such a piece, and the meter counts the bytes
  written; otherwise every piece is written.
\<close>

theorem sink_guards_terminal:
  assumes "os_stream os = To_cout" "bytes_of (chunk_sizes cs) < 2 ^ 64"
  shows "\<exists>taken dropped pm w'. cs = taken @ dropped \<and>
    sink_writes ok os cs (pm_new tot t0) w =
      ((if dropped = [] then None else Some (system_error ''binary output to tty'')), pm, w') \<and>
    w_stdout w' = w_stdout w @ concat (map snd taken) \<and> w_files w' = w_files w \<and>
    unat (pm_transfered pm) = bytes_of (chunk_sizes taken) \<and>
    (if \<not> ok \<and> os_is_tty os
     then CHR 0x00 \<notin> set (concat (map snd taken)) \<and> (dropped \<noteq> [] \<longrightarrow> CHR 0x00 \<in> set (snd (hd dropped)))
     else dropped = [])"
proof -
  define taken where "taken = sink_takes ok os cs"
  define dropped where "dropped = drop (length taken) cs"
  have cs: "cs = taken @ dropped"
    unfolding dropped_def taken_def sink_takes_def by (simp add: dropWhile_eq_drop [symmetric])
  then have all: "taken = cs \<longleftrightarrow> dropped = []" by (metis append_self_conv)
  have "bytes_of (chunk_sizes taken) \<le> bytes_of (chunk_sizes cs)"
    unfolding cs by (simp add: bytes_of_def chunk_sizes_def)
  then have pm: "unat (pm_transfered (pm_run (chunk_sizes taken) (pm_new tot t0))) = bytes_of (chunk_sizes taken)"
    using progress_meter_counts [of "chunk_sizes taken" tot t0 0] assms(2) by simp
  have nul: "CHR 0x00 \<notin> set (concat (map snd taken))" "dropped \<noteq> [] \<Longrightarrow> CHR 0x00 \<in> set (snd (hd dropped))"
    if "\<not> ok \<and> os_is_tty os"
  proof -
    have t: "taken = takeWhile (\<lambda>(_, c). CHR 0x00 \<notin> set c) cs" using that by (simp add: taken_def sink_takes_def)
    show "CHR 0x00 \<notin> set (concat (map snd taken))" unfolding t by (auto dest: set_takeWhileD)
    have "dropped = dropWhile (\<lambda>(_, c). CHR 0x00 \<notin> set c) cs"
      unfolding dropped_def t by (simp add: dropWhile_eq_drop)
    then show "CHR 0x00 \<in> set (snd (hd dropped))" if "dropped \<noteq> []"
      using that hd_dropWhile [of "\<lambda>(_, c). CHR 0x00 \<notin> set c" cs] by (simp add: case_prod_beta)
  qed
  have rest: "dropped = []" if "\<not> (\<not> ok \<and> os_is_tty os)"
    using that by (auto simp: dropped_def taken_def sink_takes_def)
  let ?pm = "pm_run (chunk_sizes taken) (pm_new tot t0)"
  have "sink_writes ok os cs (pm_new tot t0) w =
      ((if dropped = [] then None else Some (system_error ''binary output to tty'')), ?pm,
       w\<lparr>w_stdout := w_stdout w @ concat (map snd taken)\<rparr>)"
    unfolding sink_writes_eq taken_def [symmetric] all write_all_cout [OF assms(1)] ..
  then show ?thesis using cs pm nul rest
    by (intro exI [of _ taken] exI [of _ dropped] exI [of _ ?pm]
        exI [of _ "w\<lparr>w_stdout := w_stdout w @ concat (map snd taken)\<rparr>"]) (simp add: if_split)
qed

subsection \<open>Files\<close>

abbreviation file_stream :: "string \<Rightarrow> any_ostream" where
  "file_stream path \<equiv> \<lparr>os_stream = To_file path True, os_is_tty = False\<rparr>"

definition file_text :: "world \<Rightarrow> string \<Rightarrow> string" where
  "file_text w p = (case w_files w p of Some s \<Rightarrow> s | None \<Rightarrow> [])"

text \<open>The file the headers go to, if there is one; they may also go to a standard stream.\<close>

definition header_path :: "any_ostream option \<Rightarrow> string option" where
  "header_path header_output =
     (case header_output of
        None \<Rightarrow> None
      | Some h \<Rightarrow> (case os_stream h of To_file p True \<Rightarrow> Some p | _ \<Rightarrow> None))"

lemma write_headers_files:
  "w_files (write_headers oc (file_stream path) ho b w) p =
     (if oc_show_headers oc \<and> p = path \<or> header_path ho = Some p
      then Some (file_text w p @ (if oc_show_headers oc \<and> p = path then b else []) @
        (if header_path ho = Some p then b else []))
      else w_files w p)"
  by (auto simp: write_headers_def ostream_write_def file_text_def header_path_def Let_def
      split: option.splits ostream_target.splits bool.splits)

lemma write_streamed_other:
  "p \<noteq> path \<Longrightarrow> header_path ho \<noteq> Some p \<Longrightarrow>
   w_files (write_streamed oc (file_stream path) ho bs w) p = w_files w p"
  by (induction bs arbitrary: w) (simp_all add: write_streamed_def write_headers_files)

lemma write_streamed_file:
  "w_files w p = Some s \<Longrightarrow> p = path \<and> header_path ho \<noteq> Some p \<or> p \<noteq> path \<and> header_path ho = Some p \<Longrightarrow>
   w_files (write_streamed oc (file_stream path) ho bs w) p =
     Some (s @ (if p \<noteq> path \<or> oc_show_headers oc then concat bs else []))"
proof (induction bs arbitrary: w s)
  case (Cons b bs)
  let ?w = "write_headers oc (file_stream path) ho b w"
  have "w_files ?w p = Some (s @ (if p \<noteq> path \<or> oc_show_headers oc then b else []))"
    using Cons.prems by (auto simp: write_headers_files file_text_def)
  from Cons.IH [OF this Cons.prems(2)] show ?case by (simp add: write_streamed_def)
qed (simp add: write_streamed_def)

lemma write_streamed_header:
  assumes "header_path ho = Some p" "p \<noteq> path" "bs \<noteq> []"
  shows "w_files (write_streamed oc (file_stream path) ho bs w) p = Some (file_text w p @ concat bs)"
proof -
  obtain b bs' where bs: "bs = b # bs'" using assms(3) by (cases bs) auto
  have "w_files (write_headers oc (file_stream path) ho b w) p = Some (file_text w p @ b)"
    using assms(1,2) by (simp add: write_headers_files)
  from write_streamed_file [OF this, of path ho oc bs'] show ?thesis
    using assms(1,2) by (simp add: bs write_streamed_def)
qed

text \<open>The files when the last header is in: what resuming keeps of the output, with the headers
  behind it if they are shown, and the headers at the end of their own file.\<close>

definition started_files ::
    "operation_config \<Rightarrow> string \<Rightarrow> any_ostream option \<Rightarrow> string \<Rightarrow> world \<Rightarrow> string \<Rightarrow> string option" where
  "started_files oc path header_output headers w =
     (case header_path header_output of
        Some hp \<Rightarrow> (w_files w)(hp := Some (file_text w hp @ headers))
      | None \<Rightarrow> w_files w)
     (path := Some ((if oc_resume_from oc \<noteq> None then file_text w path else []) @
        (if oc_show_headers oc then headers else [])))"

lemma write_streamed_started:
  assumes "header_path ho \<noteq> Some path" "bs \<noteq> []"
  shows "w_files (write_streamed oc (file_stream path) ho bs
      (w\<lparr>w_files := (w_files w)(path := Some (if oc_resume_from oc \<noteq> None then file_text w path else []))\<rparr>)) =
    started_files oc path ho (concat bs) w" (is "w_files (write_streamed oc ?f ho bs ?w) = _")
proof
  fix p
  consider "p = path" | "p \<noteq> path" "header_path ho = Some p" | "p \<noteq> path" "header_path ho \<noteq> Some p" by blast
  then show "w_files (write_streamed oc ?f ho bs ?w) p = started_files oc path ho (concat bs) w p"
  proof cases
    case 1
    then show ?thesis
      using write_streamed_file [of ?w p _ path ho oc bs] assms(1) by (simp add: started_files_def)
  next
    case 2
    then show ?thesis
      using write_streamed_header [OF 2(2,1) assms(2), of oc ?w] by (simp add: started_files_def file_text_def)
  next
    case 3
    then show ?thesis
      using write_streamed_other [OF 3, of oc bs ?w] by (auto simp: started_files_def split: option.split)
  qed
qed

subsection \<open>The name the server asks for\<close>

text \<open>The first \<^verbatim>\<open>Content-Disposition\<close> that decides: one with a file name, or one that cannot be read.\<close>

definition decisive :: "'rq transfer_env \<Rightarrow> string \<Rightarrow> bool" where
  "decisive te sv \<longleftrightarrow>
     (case extract_filename_form_content_disposition (te_gparse te) (te_quoted te) sv of
        Inl _ \<Rightarrow> True | Inr None \<Rightarrow> False | Inr (Some f) \<Rightarrow> path_filename f \<noteq> [])"

definition disposition :: "'rq transfer_env \<Rightarrow> string list \<Rightarrow> exn + string option" where
  "disposition te svs =
     (case find (decisive te) svs of
        None \<Rightarrow> Inr None
      | Some sv \<Rightarrow>
          rmap (map_option path_filename)
            (extract_filename_form_content_disposition (te_gparse te) (te_quoted te) sv))"

text \<open>A name in a directory.\<close>

definition dir_entry :: "string \<Rightarrow> string \<Rightarrow> string" where
  "dir_entry dir name =
     (if dir = [] then name else if last dir = CHR ''/'' then dir @ name else dir @ ''/'' @ name)"

lemma path_append_entry: "CHR ''/'' \<notin> set name \<Longrightarrow> path_append dir name = dir_entry dir name"
  by (cases name) (auto simp: path_append_def dir_entry_def starts_with_def)

lemma disposition_name: "disposition te svs = Inr (Some name) \<Longrightarrow> name \<noteq> [] \<and> CHR ''/'' \<notin> set name"
  by (auto simp: disposition_def find_Some_iff decisive_def path_filename_def rmap_Inr_iff
      split: option.splits sum.splits dest: set_takeWhileD)

lemma choose_output_eq:
  "choose_output te dir svs os w =
     (case disposition te svs of
        Inl e \<Rightarrow> (Inl e, w)
      | Inr None \<Rightarrow> (Inr os, w)
      | Inr (Some name) \<Rightarrow> any_ostream_new (dir_entry dir name) False w)"
proof (induction svs)
  case (Cons sv svs)
  have slash: "CHR ''/'' \<notin> set (path_filename f)" for f by (auto simp: path_filename_def dest: set_takeWhileD)
  show ?case
  proof (cases "decisive te sv")
    case True
    then show ?thesis
      using path_append_entry [OF slash]
      by (auto simp: disposition_def decisive_def Let_def split: sum.splits option.splits)
  next
    case False
    then have "choose_output te dir (sv # svs) os w = choose_output te dir svs os w"
      by (auto simp: decisive_def Let_def split: sum.splits option.splits)
    then show ?thesis using Cons.IH False by (simp add: disposition_def)
  qed
qed (simp add: disposition_def)

text \<open>The path of the file the server names.\<close>

definition server_path :: "'rq transfer_env \<Rightarrow> operation_config \<Rightarrow> request_opt \<Rightarrow> response \<Rightarrow> string option" where
  "server_path te oc ro rsp =
     (if oc_content_disposition oc \<and> ro_remotename ro
      then case disposition te (rsp_dispositions rsp) of
        Inr (Some name) \<Rightarrow> Some (dir_entry (oc_output_dir oc) name) | _ \<Rightarrow> None
      else None)"

definition kept_body :: "operation_config \<Rightarrow> response \<Rightarrow> transfer_events \<Rightarrow> string" where
  "kept_body oc rsp ev = (if should_ignore_body oc rsp then [] else concat (map snd (tv_chunks ev)))"

subsection \<open>From the last response to the end\<close>

lemma write_all_std: "os_stream os \<in> {To_cout, To_cerr} \<Longrightarrow> w_files (write_all os xs w) = w_files w"
  by (induction xs arbitrary: w) (auto simp: write_all_def ostream_write_def)

lemma write_all_other: "p \<noteq> path \<Longrightarrow> w_files (write_all (file_stream path) xs w) p = w_files w p"
  by (induction xs arbitrary: w) (simp_all add: write_all_def ostream_write_def)

lemma sink_takes_file: "sink_takes ok (file_stream path) cs = cs"
  by (simp add: sink_takes_def)

lemma read_body_done: "read_body oc os rsp ev w = (None, w') \<Longrightarrow> w' = write_all os (map snd (tv_chunks ev)) w"
  by (auto simp: read_body_def Let_def sink_writes_eq split: sum.splits if_splits)

lemma read_body_file:
  "read_body oc (file_stream path) rsp ev w = (e, w') \<Longrightarrow>
   w' = w \<or> w' = write_all (file_stream path) (map snd (tv_chunks ev)) w"
  by (auto simp: read_body_def Let_def sink_writes_eq sink_takes_file split: sum.splits if_splits)

lemma read_body_std:
  "read_body oc os rsp ev w = (e, w') \<Longrightarrow> os_stream os \<in> {To_cout, To_cerr} \<Longrightarrow> w_files w' = w_files w"
  using write_all_std [of os]
  by (auto simp: read_body_def Let_def sink_writes_eq split: sum.splits if_splits)

text \<open>The stream the body goes to.\<close>

definition body_stream ::
    "'rq transfer_env \<Rightarrow> operation_config \<Rightarrow> request_opt \<Rightarrow> any_ostream \<Rightarrow> response \<Rightarrow> world \<Rightarrow> (exn + any_ostream) \<times> world" where
  "body_stream te oc ro os rsp w =
     (if oc_content_disposition oc \<and> ro_remotename ro
      then choose_output te (oc_output_dir oc) (rsp_dispositions rsp) os w else (Inr os, w))"

lemma body_stream_cases:
  assumes "body_stream te oc ro os rsp w = (r, w1)"
  obtains (refused) e where "r = Inl e" "w1 = w"
    | (own) "server_path te oc ro rsp = None" "r = Inr os" "w1 = w"
    | (standard) q os1 where "server_path te oc ro rsp = Some q" "q \<in> {''-'', ''%''}" "r = Inr os1"
        "os_stream os1 \<in> {To_cout, To_cerr}" "w1 = w"
    | (named) q where "server_path te oc ro rsp = Some q" "q \<notin> {''-'', ''%''}" "r = Inr (file_stream q)"
        "w1 = w\<lparr>w_files := (w_files w)(q := Some [])\<rparr>"
  using assms
  by (auto simp: body_stream_def choose_output_eq server_path_def any_ostream_new_def
      split: if_splits sum.splits option.splits)

lemma finish_done:
  assumes "finish_transfer te oc ro (file_stream path) rsp ev w = (Transfer_done status, w')" "w_files w path = Some s"
  shows "status = rsp_status rsp \<and>
    w_files w' = (case server_path te oc ro rsp of
        None \<Rightarrow> (w_files w)(path := Some (s @ kept_body oc rsp ev))
      | Some q \<Rightarrow> if q \<in> {''-'', ''%''} then w_files w else (w_files w)(q := Some (kept_body oc rsp ev)))"
proof -
  obtain os1 w1 where os1: "body_stream te oc ro (file_stream path) rsp w = (Inr os1, w1)"
    and body: "(if should_ignore_body oc rsp then (None, w1) else read_body oc os1 rsp ev w1) = (None, w')"
    and status: "status = rsp_status rsp"
    using assms(1) unfolding finish_transfer_def body_stream_def [symmetric]
    by (auto split: option.splits prod.splits sum.splits)
  have w': "w' = (if should_ignore_body oc rsp then w1 else write_all os1 (map snd (tv_chunks ev)) w1)"
    using body read_body_done [of oc os1 rsp ev w1 w'] by (auto split: if_splits)
  from os1 show ?thesis
    by (cases rule: body_stream_cases)
      (use status assms(2) in \<open>auto simp: w' kept_body_def write_all_file write_all_std fun_upd_idem\<close>)
qed

lemma finish_other:
  assumes "finish_transfer te oc ro (file_stream path) rsp ev w = (r, w')" "p \<noteq> path"
  shows "w_files w' p = w_files w p \<or>
    server_path te oc ro rsp = Some p \<and> w_files w' p \<in> {Some [], Some (concat (map snd (tv_chunks ev)))}"
proof -
  obtain x w1 where os1: "body_stream te oc ro (file_stream path) rsp w = (x, w1)" by fastforce
  have w': "w' = w \<or> w' = w1 \<or> (\<exists>os1 e. x = Inr os1 \<and> read_body oc os1 rsp ev w1 = (e, w'))"
    using assms(1) os1 unfolding finish_transfer_def body_stream_def [symmetric]
    by (auto split: option.splits prod.splits sum.splits if_splits)
  from os1 show ?thesis
  proof (cases rule: body_stream_cases)
    case own
    then show ?thesis using w' assms(2) read_body_file [of oc path rsp ev w _ w']
      by (auto simp: write_all_other)
  next
    case (standard q os1)
    then show ?thesis using w' read_body_std [of oc os1 rsp ev w _ w'] by auto
  next
    case (named q)
    then show ?thesis using w' read_body_file [of oc q rsp ev w1 _ w']
      by (cases "p = q") (auto simp: write_all_file)
  qed (use w' in auto)
qed

subsection \<open>The headers shown\<close>

definition header_texts :: "round list \<Rightarrow> string list" where
  "header_texts rounds = map (rsp_buffer \<circ> projr \<circ> ru_response) rounds"

lemma send_request_streamed: "send_request en exp_cookies now st = Inr st1 \<Longrightarrow> rd_streamed st1 = rd_streamed st"
  by (auto simp: send_request_def set_cookies_def rmap_Inr_iff Let_def start_serializer_def
      split: sum.splits option.splits prod.splits message.splits)

lemma extract_cookies_streamed:
  "rmap (stream_headers rsp) (extract_cookies en now rsp st) = Inr st2 \<Longrightarrow> rd_streamed st2 = rd_streamed st @ [rsp_buffer rsp]"
  by (auto simp: extract_cookies_def stream_headers_def rmap_Inr_iff split: option.splits sum.splits)

lemma follow_redirect_streamed:
  "follow_redirect en oc org ru rsp chg st = Inr st' \<Longrightarrow> rd_streamed st' = rd_streamed st"
  by (auto simp: follow_redirect_def next_request_def Let_def rbind_Inr_iff split: if_splits option.splits)

lemma redirect_loop_streamed:
  "redirect_loop en oc exp_cookies org rounds st = (Loop_done rsp, st') \<Longrightarrow>
   \<exists>k < length rounds. ru_response (rounds ! k) = Inr rsp \<and>
     rd_streamed st' = rd_streamed st @ header_texts (take (Suc k) rounds)"
proof (induction rounds arbitrary: st)
  case (Cons ru rounds)
  obtain st1 r st2 where s: "send_request en exp_cookies (ru_now ru) st = Inr st1" "ru_response ru = Inr r"
      "rmap (stream_headers r) (extract_cookies en (ru_now ru) r st1) = Inr st2"
    using Cons.prems by (auto split: sum.splits prod.splits)
  have str: "rd_streamed st2 = rd_streamed st @ [rsp_buffer r]"
    using send_request_streamed [OF s(1)] extract_cookies_streamed [OF s(3)] by simp
  obtain red chg where red: "is_redirect oc (rsp_status r) = (red, chg)" by (cases "is_redirect oc (rsp_status r)")
  consider "rsp = r" "st' = st2"
    | st3 where "follow_redirect en oc org ru r chg st2 = Inr st3"
        "redirect_loop en oc exp_cookies org rounds st3 = (Loop_done rsp, st')"
    using Cons.prems s red by (auto split: if_splits sum.splits)
  then show ?case
  proof cases
    case 1
    then show ?thesis using s(2) str by (intro exI [of _ 0]) (simp add: header_texts_def)
  next
    case 2
    from Cons.IH [OF 2(2)] obtain k where "k < length rounds" "ru_response (rounds ! k) = Inr rsp"
        "rd_streamed st' = rd_streamed st3 @ header_texts (take (Suc k) rounds)"
      by blast
    then show ?thesis using s(2) str follow_redirect_streamed [OF 2(1)]
      by (intro exI [of _ "Suc k"]) (simp add: header_texts_def)
  qed
qed simp

subsection \<open>A whole transfer\<close>

lemma perform_request_opens:
  assumes "transfer_url te oc0 (ro_url ro) = Inr url" "output_path oc0 url ro = Inr (path, oc)" "ro_input ro = []"
    and "path \<notin> {''-'', ''%''}" "\<not> (oc_skip_existing oc \<and> fs_exists w path)"
  defines "w1 \<equiv> w\<lparr>w_files := (w_files w)(path := Some (if oc_resume_from oc \<noteq> None then file_text w path else []))\<rparr>"
  shows "perform_request te oc0 header_output jar exp_cookies msg ro ev w =
    (if \<not> w_writable w path then (Transfer_threw (runtime_error ''Couldn't open file''), jar, w)
     else case create_request (en_ops (te_redirect te)) (te_brotli te) (te_zlib te) oc msg url of
       Inl e \<Rightarrow> (Transfer_threw e, jar, w1)
     | Inr request \<Rightarrow>
         (case run_transfer te oc header_output jar exp_cookies msg ro ev url (file_stream path) request w1 of
            (r, jar', w2) \<Rightarrow> (r, jar', scope_fail oc path r w2)))"
proof -
  have "any_ostream_new path (oc_resume_from oc \<noteq> None) w =
      (if \<not> w_writable w path then (Inl (runtime_error ''Couldn't open file''), w) else (Inr (file_stream path), w1))"
    using assms(4) by (simp add: any_ostream_new_def w1_def file_text_def)
  then show ?thesis
    unfolding perform_request_def assms(1) sum.case assms(2) assms(3) prod.case if_not_P [OF assms(5)]
    by (simp split: if_split)
qed

text \<open>
  What a finished transfer leaves in the files.  A file that is there and to be skipped is left
  alone.  Otherwise the body of the last response goes behind what is in the output, or, when the
  server may name the file and does, into that file, which is emptied first, while the output
  keeps what it has; a name that means a standard stream leaves the files alone.  (Two streams
  that write to one file are left open: a named file that is also the header file, or the output
  with headers in it.)
\<close>

definition transfer_leaves ::
    "'rq transfer_env \<Rightarrow> operation_config \<Rightarrow> request_opt \<Rightarrow> string \<Rightarrow> any_ostream option \<Rightarrow> transfer_events \<Rightarrow>
     world \<Rightarrow> nat \<Rightarrow> world \<Rightarrow> bool" where
  "transfer_leaves te oc ro path header_output ev w status w' \<longleftrightarrow>
     (if oc_skip_existing oc \<and> fs_exists w path then status = 200 \<and> w_files w' = w_files w
      else \<exists>k rsp. k < length (tv_rounds ev) \<and> ru_response (tv_rounds ev ! k) = Inr rsp \<and> status = rsp_status rsp \<and>
        (let started = started_files oc path header_output (concat (header_texts (take (Suc k) (tv_rounds ev)))) w in
         case server_path te oc ro rsp of
           None \<Rightarrow> w_files w' = started(path := Some (the (started path) @ kept_body oc rsp ev))
         | Some q \<Rightarrow>
             if q \<in> {''-'', ''%''} then w_files w' = started
             else (\<forall>p. p \<noteq> q \<longrightarrow> w_files w' p = started p) \<and>
               (header_path header_output = Some q \<or> q = path \<and> oc_show_headers oc \<or>
                w_files w' q = Some (kept_body oc rsp ev))))"

lemma finished_transfer:
  assumes "transfer_url te oc0 (ro_url ro) = Inr url" "output_path oc0 url ro = Inr (path, oc)"
    and "path \<notin> {''-'', ''%''}" "header_path header_output \<noteq> Some path"
    and "perform_request te oc0 header_output jar exp_cookies msg ro ev w = (Transfer_done status, jar', w')"
  shows "transfer_leaves te oc ro path header_output ev w status w'"
proof (cases "oc_skip_existing oc \<and> fs_exists w path")
  case True
  then have "status = 200 \<and> w' = w"
    using assms(5) unfolding perform_request_def assms(1) sum.case assms(2) by (auto split: if_splits)
  then show ?thesis using True by (simp add: transfer_leaves_def)
next
  case skip: False
  let ?w1 = "w\<lparr>w_files := (w_files w)(path := Some (if oc_resume_from oc \<noteq> None then file_text w path else []))\<rparr>"
  have inp: "ro_input ro = []"
    using assms(5) unfolding perform_request_def assms(1) by (auto split: if_splits)
  obtain request where
    run: "run_transfer te oc header_output jar exp_cookies msg ro ev url (file_stream path) request ?w1
        = (Transfer_done status, jar', w')"
    using assms(5) unfolding perform_request_opens [OF assms(1,2) inp assms(3) skip]
    by (auto simp: scope_fail_def split: if_splits sum.splits prod.splits transfer_end.splits)
  then obtain rsp st where
    loop: "redirect_loop (te_redirect te) oc exp_cookies url (tv_rounds ev) (redirect_start oc msg url jar request)
        = (Loop_done rsp, st)"
    and fin: "finish_transfer te oc ro (file_stream path) rsp ev
        (write_streamed oc (file_stream path) header_output (rd_streamed st) ?w1) = (Transfer_done status, w')"
    by (auto simp: run_transfer_def Let_def split: option.splits prod.splits loop_end.splits)
  obtain k where k: "k < length (tv_rounds ev)" "ru_response (tv_rounds ev ! k) = Inr rsp"
      "rd_streamed st = header_texts (take (Suc k) (tv_rounds ev))"
    using redirect_loop_streamed [OF loop] by (auto simp: redirect_start_def)
  have "header_texts (take (Suc k) (tv_rounds ev)) \<noteq> []" using k(1) by (auto simp: header_texts_def)
  note st = write_streamed_started [OF assms(4) this, of oc w, folded k(3)]
  let ?s = "started_files oc path header_output (concat (rd_streamed st)) w"
  have "?s path = Some (the (?s path))" by (simp add: started_files_def)
  from finish_done [OF fin, unfolded st, OF this] skip k
  show ?thesis unfolding transfer_leaves_def if_not_P [OF skip]
    by (intro exI [of _ k] exI [of _ rsp]) (auto simp: Let_def split: option.split if_splits)
qed

text \<open>
  C14. What a finished transfer whose output is a file leaves, when the headers do not go to the
  same file: the output holds what it held before when the transfer resumes it and nothing of it
  otherwise, then the headers of every response up to the last one if they are to be shown, then
  the body in order; a header file gets those headers at its end; no other file is touched; and
  the status is the last response's.  With \<^verbatim>\<open>--remote-header-name\<close>, when a
  \<^verbatim>\<open>Content-Disposition\<close> of the last response names a file, the body is the content of that file
  of the output directory instead and the output, which was already opened, is left without it.
  With \<^verbatim>\<open>--skip-existing\<close> an output that is there means status 200 and no change at all.
\<close>

theorem transfer_output:
  assumes "transfer_url te oc0 (ro_url ro) = Inr url" "output_path oc0 url ro = Inr (path, oc)"
    and "path \<notin> {''-'', ''%''}" "header_path header_output \<noteq> Some path"
    and "perform_request te oc0 header_output jar exp_cookies msg ro ev w = (Transfer_done status, jar', w')"
  shows "transfer_leaves te oc ro path header_output ev w status w'"
  by (rule finished_transfer [OF assms])

lemma run_transfer_other:
  assumes "run_transfer te oc header_output jar exp_cookies msg ro ev url (file_stream path) request w = (r, jar', w')"
    and "p \<noteq> path" "header_path header_output \<noteq> Some p"
  shows "w_files w' p = w_files w p \<or>
    (\<exists>ru rsp. ru \<in> set (tv_rounds ev) \<and> ru_response ru = Inr rsp \<and> server_path te oc ro rsp = Some p \<and>
      w_files w' p \<in> {Some [], Some (concat (map snd (tv_chunks ev)))})"
proof -
  have str: "w_files (write_streamed oc (file_stream path) header_output bs w) p = w_files w p" for bs
    by (rule write_streamed_other [OF assms(2,3)])
  consider "w_files w' p = w_files w p"
    | rsp st where "redirect_loop (te_redirect te) oc exp_cookies url (tv_rounds ev)
          (redirect_start oc msg url jar request) = (Loop_done rsp, st)"
        "finish_transfer te oc ro (file_stream path) rsp ev
          (write_streamed oc (file_stream path) header_output (rd_streamed st) w) = (r, w')"
    using assms(1) str by (auto simp: run_transfer_def Let_def split: option.splits prod.splits loop_end.splits)
  then show ?thesis
  proof cases
    case 2
    from redirect_loop_streamed [OF 2(1)] obtain ru where "ru \<in> set (tv_rounds ev)" "ru_response ru = Inr rsp"
      by (auto simp: in_set_conv_nth)
    then show ?thesis using finish_other [OF 2(2) assms(2)] str by auto
  qed simp
qed

text \<open>
  C15. A failed transfer with \<^verbatim>\<open>--remove-on-error\<close> whose output is a file.  Whatever fails after
  the request was built, the connection, the redirects, the checks or the body, the output is
  gone, and every other file but the header file is as before, except that a file the server
  named with \<^verbatim>\<open>Content-Disposition\<close> is not removed: it stays, empty or with the body so far.  Before
  that, an upload that was asked for or a file that cannot be opened fails with nothing changed,
  and a refusal of the URL's credentials leaves the output behind, emptied unless the transfer
  was to resume it.
\<close>

theorem partial_output_removed:
  assumes "transfer_url te oc0 (ro_url ro) = Inr url" "output_path oc0 url ro = Inr (path, oc)"
    and "path \<notin> {''-'', ''%''}" "oc_rm_partial oc"
    and "perform_request te oc0 header_output jar exp_cookies msg ro ev w = (Transfer_threw e, jar', w')"
  shows "if ro_input ro \<noteq> [] \<or> \<not> w_writable w path then w' = w
    else if oc_disallow_username_in_url oc \<and> u_has_userinfo url
    then w_files w' = (w_files w)(path := Some (if oc_resume_from oc \<noteq> None then file_text w path else []))
    else w_files w' path = None \<and>
      (\<forall>p. p \<noteq> path \<and> header_path header_output \<noteq> Some p \<longrightarrow> w_files w' p = w_files w p \<or>
        (\<exists>ru rsp. ru \<in> set (tv_rounds ev) \<and> ru_response ru = Inr rsp \<and> server_path te oc ro rsp = Some p \<and>
          w_files w' p \<in> {Some [], Some (concat (map snd (tv_chunks ev)))}))"
proof (cases "ro_input ro = []")
  case False
  then show ?thesis using assms(5) unfolding perform_request_def assms(1) by simp
next
  case inp: True
  have "\<not> (oc_skip_existing oc \<and> fs_exists w path)"
    using assms(5) inp unfolding perform_request_def assms(1) sum.case assms(2) by (auto split: if_splits)
  note opens = assms(5) [unfolded perform_request_opens [OF assms(1,2) inp assms(3) this]]
  show ?thesis
  proof (cases "w_writable w path \<and> \<not> (oc_disallow_username_in_url oc \<and> u_has_userinfo url)")
    case False
    then show ?thesis using opens inp by (auto simp: create_request_def split: if_splits)
  next
    case True
    let ?w1 = "w\<lparr>w_files := (w_files w)(path := Some (if oc_resume_from oc \<noteq> None then file_text w path else []))\<rparr>"
    from True opens obtain request w2 where
      run: "run_transfer te oc header_output jar exp_cookies msg ro ev url (file_stream path) request ?w1
          = (Transfer_threw e, jar', w2)" and w': "w' = scope_fail oc path (Transfer_threw e) w2"
      by (auto simp: create_request_def scope_fail_def split: prod.splits transfer_end.splits if_splits)
    have "w_files w' = (w_files w2)(path := None)"
      using assms(3,4) by (simp add: w' scope_fail_def fs_remove_def)
    then show ?thesis using True inp run_transfer_other [OF run] by auto
  qed
qed

text \<open>
  C39. A file name a server chooses with \<^verbatim>\<open>Content-Disposition\<close> stays in the output directory.  The
  first field that has a file name, or that cannot be read, decides: an unreadable one throws and
  changes nothing, without any the output stays as it was, and otherwise the last component of
  the name, never empty and without a slash, is opened in the output directory, directory, slash
  and name, and only that file is emptied.  Without an output directory the names \<^verbatim>\<open>-\<close> and
  \<^verbatim>\<open>%\<close> are the standard streams, and then no file changes.
\<close>

theorem disposition_in_directory:
  "case disposition te svs of
     Inl e \<Rightarrow> choose_output te dir svs os w = (Inl e, w)
   | Inr None \<Rightarrow> choose_output te dir svs os w = (Inr os, w)
   | Inr (Some name) \<Rightarrow>
       name \<noteq> [] \<and> CHR ''/'' \<notin> set name \<and>
       (let path = (if dir = [] then name else if last dir = CHR ''/'' then dir @ name else dir @ ''/'' @ name) in
        choose_output te dir svs os w =
          (if dir = [] \<and> name = ''-'' then (Inr \<lparr>os_stream = To_cout, os_is_tty = w_stdout_tty w\<rparr>, w)
           else if dir = [] \<and> name = ''%'' then (Inr \<lparr>os_stream = To_cerr, os_is_tty = w_stderr_tty w\<rparr>, w)
           else if \<not> w_writable w path then (Inl (runtime_error ''Couldn't open file''), w)
           else (Inr (file_stream path), w\<lparr>w_files := (w_files w)(path := Some [])\<rparr>)))"
  using disposition_name [of te svs]
  by (auto simp: choose_output_eq any_ostream_new_def Let_def dir_entry_def append_eq_Cons_conv
      split: sum.split option.split)

subsection \<open>An example\<close>

definition ex_transfer :: "ref_request transfer_env" where
  "ex_transfer = \<lparr>te_redirect = ex_env, te_brotli = False, te_zlib = False, te_gparse = ref_gparse,
     te_quoted = (\<lambda>s. Inl err_mismatch), te_parse_uri = (\<lambda>s. Inr (url_blank\<lparr>u_host := ''a.io''\<rparr>)),
     te_normalize = id, te_append_params = (\<lambda>q u. u), te_set_path = (\<lambda>p u. u\<lparr>u_path := p\<rparr>)\<rparr>"

definition ex_ro :: request_opt where
  "ex_ro = \<lparr>ro_url = ''a.io'', ro_output = ''a'', ro_input = [], ro_remotename = False\<rparr>"

definition ex_transfer_oc :: operation_config where
  "ex_transfer_oc = ex_oc\<lparr>oc_rm_partial := True, oc_req_retry := 1\<rparr>"

definition ex_events :: "nat \<Rightarrow> string \<Rightarrow> exn option \<Rightarrow> transfer_events" where
  "ex_events status body e = \<lparr>tv_connect = None, tv_rounds = [ex_round status], tv_start = 0,
     tv_chunks = [(0, body), (1, ''yz'')], tv_read = e\<rparr>"

abbreviation ex_transfer_url :: url_view where
  "ex_transfer_url \<equiv> url_blank\<lparr>u_host := ''a.io'', u_path := ''/''\<rparr>"

lemma ex_transfer_url: "transfer_url ex_transfer ex_transfer_oc (ro_url ex_ro) = Inr ex_transfer_url"
  by (simp add: transfer_url_def normalize_and_parse_url_def ex_transfer_def url_blank_def Let_def split: sum.split)

lemma ex_transfer_oc_simps:
  "oc_output_dir ex_transfer_oc = []" "oc_resume_from_current ex_transfer_oc = False" "oc_create_dirs ex_transfer_oc = False"
  "oc_skip_existing ex_transfer_oc = False" "oc_content_disposition ex_transfer_oc = False"
  "oc_resume_from ex_transfer_oc = None" "oc_rm_partial ex_transfer_oc" "oc_show_headers ex_transfer_oc = False"
  "oc_disallow_username_in_url ex_transfer_oc = False" "oc_failonerror ex_transfer_oc = False"
  "oc_failwithbody ex_transfer_oc = False" "oc_terminal_binary_ok ex_transfer_oc = False"
  by (simp_all add: ex_transfer_oc_def ex_oc_def operation_config_default_def)

lemma ex_output_path: "output_path ex_transfer_oc ex_transfer_url ex_ro = Inr (''a'', ex_transfer_oc)"
  by (simp add: output_path_def ex_ro_def ex_transfer_oc_simps path_append_def starts_with_def)

lemma ex_input: "ro_input ex_ro = []" "ro_remotename ex_ro = False"
  by (simp_all add: ex_ro_def)

abbreviation ex_end :: "nat \<Rightarrow> exn option \<Rightarrow> transfer_end" where
  "ex_end status e \<equiv> (case e of None \<Rightarrow> Transfer_done status | Some x \<Rightarrow> Transfer_threw x)"

lemma ostream_write_writable: "w_writable (ostream_write os d w) = w_writable w"
  by (simp add: ostream_write_def split: ostream_target.split)

lemma write_all_writable: "w_writable (write_all os xs w) = w_writable w"
  by (induction xs arbitrary: w) (simp_all add: write_all_def ostream_write_writable)

lemma write_streamed_writable: "w_writable (write_streamed oc os ho bs w) = w_writable w"
  by (induction bs arbitrary: w)
    (simp_all add: write_streamed_def write_headers_def ostream_write_writable Let_def split: option.split)

lemma ex_finish:
  "\<exists>w2. finish_transfer ex_transfer ex_transfer_oc ex_ro (file_stream ''a'') (projr (ru_response (ex_round status)))
      (ex_events status body e) v = (ex_end status e, w2) \<and> w_writable w2 = w_writable v"
  by (cases e) (simp_all add: write_all_writable finish_transfer_def check_failonerror_def check_resume_def after_body_def
      should_ignore_body_def ex_transfer_oc_simps read_body_def pm_pct_def pm_new_def body_size_def sink_writes_eq
      sink_takes_file ex_round_def ex_events_def Let_def)

lemma ex_run:
  assumes "status \<in> {200, 503}"
  shows "\<exists>w2. run_transfer ex_transfer ex_transfer_oc None None [] No_body ex_ro (ex_events status body e)
    ex_transfer_url (file_stream ''a'') request v = (ex_end status e, None, w2) \<and> w_writable w2 = w_writable v"
proof -
  let ?st = "redirect_start ex_transfer_oc No_body ex_transfer_url None request :: ref_request redirect_state"
  let ?rsp = "projr (ru_response (ex_round status))"
  obtain st1 where st1: "send_request ex_env [] 0 ?st = Inr st1" "rd_jar st1 = None"
    using send_no_jar [of ?st ex_env "[]" 0] by (auto simp: redirect_start_def)
  have loop: "redirect_loop ex_env ex_transfer_oc [] ex_transfer_url [ex_round status] ?st =
      (Loop_done ?rsp, stream_headers ?rsp st1)"
    using st1 assms by (auto simp: ex_round_def extract_cookies_def is_redirect_def)
  have en: "te_redirect ex_transfer = ex_env" "tv_connect (ex_events status body e) = None"
      "tv_rounds (ex_events status body e) = [ex_round status]"
    by (simp_all add: ex_transfer_def ex_events_def)
  obtain w2 where "finish_transfer ex_transfer ex_transfer_oc ex_ro (file_stream ''a'') ?rsp (ex_events status body e)
      (write_streamed ex_transfer_oc (file_stream ''a'') None (rd_streamed (stream_headers ?rsp st1)) v) =
      (ex_end status e, w2)" "w_writable w2 = w_writable v"
    using ex_finish write_streamed_writable by metis
  then show ?thesis using st1(2) unfolding run_transfer_def en loop by (simp add: Let_def stream_headers_def)
qed

lemma ex_perform:
  assumes "status \<in> {200, 503}" "w_writable w ''a''"
  shows "\<exists>w'. perform_request ex_transfer ex_transfer_oc None None [] No_body ex_ro (ex_events status body e) w =
    (ex_end status e, None, w') \<and> w_writable w' = w_writable w"
proof -
  have skip: "\<not> (oc_skip_existing ex_transfer_oc \<and> fs_exists w ''a'')" by (simp add: ex_transfer_oc_simps)
  obtain request where req: "create_request (en_ops (te_redirect ex_transfer)) (te_brotli ex_transfer)
      (te_zlib ex_transfer) ex_transfer_oc No_body ex_transfer_url = Inr request"
    by (simp add: create_request_def ex_transfer_oc_simps)
  have path: "''a'' \<notin> {''-'', ''%''}" by simp
  let ?w1 = "w\<lparr>w_files := (w_files w)(''a'' :=
      Some (if oc_resume_from ex_transfer_oc \<noteq> None then file_text w ''a'' else []))\<rparr>"
  show ?thesis
    unfolding perform_request_opens [OF ex_transfer_url ex_output_path ex_input(1) path skip] req sum.case
    using ex_run [OF assms(1), of body e request ?w1] assms(2)
    by (auto simp: scope_fail_def fs_remove_def split: transfer_end.splits)
qed

lemma ex_leaves:
  "transfer_leaves ex_transfer ex_transfer_oc ex_ro ''a'' None (ex_events status body None) w st w' \<Longrightarrow>
   w_files w' = (w_files w)(''a'' := Some (body @ ''yz''))"
  by (auto simp: transfer_leaves_def Let_def ex_transfer_oc_simps server_path_def started_files_def header_path_def
      kept_body_def should_ignore_body_def ex_events_def)

theorem transfer_output_witness:
  "\<exists>jar' w'. perform_request ex_transfer ex_transfer_oc None None [] No_body ex_ro (ex_events 200 ''x'' None) ex_world =
      (Transfer_done 200, jar', w') \<and> w_files w' ''a'' = Some ''xyz''"
proof -
  have "w_writable ex_world ''a''" by (simp add: ex_world_def)
  then obtain jar' w' where p: "perform_request ex_transfer ex_transfer_oc None None [] No_body ex_ro
      (ex_events 200 ''x'' None) ex_world = (Transfer_done 200, jar', w')"
    using ex_perform [of 200 ex_world "''x''" None] by auto
  from transfer_output [OF ex_transfer_url ex_output_path _ _ p]
  have "transfer_leaves ex_transfer ex_transfer_oc ex_ro ''a'' None (ex_events 200 ''x'' None) ex_world 200 w'"
    by (simp add: header_path_def)
  then show ?thesis using p ex_leaves by fastforce
qed

theorem partial_output_removed_witness:
  "\<exists>jar' w'. perform_request ex_transfer ex_transfer_oc None None [] No_body ex_ro
      (ex_events 200 ''x'' (Some (system_error ''reset''))) ex_world = (Transfer_threw (system_error ''reset''), jar', w') \<and>
     w_files ex_world ''a'' = Some ''old'' \<and> w_files w' ''a'' = None"
proof -
  have w: "w_writable ex_world ''a''" by (simp add: ex_world_def)
  then obtain jar' w' where p: "perform_request ex_transfer ex_transfer_oc None None [] No_body ex_ro
      (ex_events 200 ''x'' (Some (system_error ''reset''))) ex_world = (Transfer_threw (system_error ''reset''), jar', w')"
    using ex_perform [of 200 ex_world "''x''" "Some (system_error ''reset'')"] by auto
  from partial_output_removed [OF ex_transfer_url ex_output_path _ ex_transfer_oc_simps(7) p] p w
  show ?thesis by (simp add: ex_transfer_oc_simps ex_input ex_world_def)
qed

theorem sink_guards_terminal_witness:
  "\<exists>pm w'. sink_writes False \<lparr>os_stream = To_cout, os_is_tty = True\<rparr> [(0, ''ab''), (1, [CHR 0x00])] (pm_new None 0) ex_world
      = (Some (system_error ''binary output to tty''), pm, w') \<and> CHR 0x00 \<notin> set (w_stdout w')"
proof -
  let ?os = "\<lparr>os_stream = To_cout, os_is_tty = True\<rparr>"
  let ?cs = "[(0, ''ab''), (1, [CHR 0x00])] :: (int \<times> string) list"
  have "bytes_of (chunk_sizes ?cs) < 2 ^ 64" by (simp add: bytes_of_def chunk_sizes_def)
  from sink_guards_terminal [where os = ?os and ok = False and tot = None and ?t0.0 = 0 and w = ex_world, OF _ this] obtain taken dropped pm w' where
    t: "?cs = taken @ dropped" "sink_writes False ?os ?cs (pm_new None 0) ex_world =
      ((if dropped = [] then None else Some (system_error ''binary output to tty'')), pm, w')"
    "w_stdout w' = w_stdout ex_world @ concat (map snd taken)" "CHR 0x00 \<notin> set (concat (map snd taken))"
    by (auto simp del: sink_writes.simps)
  have "dropped \<noteq> []" using t(1,4) by auto
  then show ?thesis using t(2,3,4) by (auto simp: ex_world_def)
qed

text \<open>A quoted name that climbs out of the directory.\<close>

definition ex_quoted :: "string \<Rightarrow> gerror + gval \<times> string" where
  "ex_quoted s = (case quoted_string_parse s of
     Inl _ \<Rightarrow> Inl err_mismatch | Inr r \<Rightarrow> rmap (\<lambda>(v, t). (GStr v, t)) r)"

theorem disposition_in_directory_witness:
  "\<exists>w'. choose_output (ex_transfer\<lparr>te_quoted := ex_quoted\<rparr>) ''d'' [''attachment'' @ ''; filename='' @ quote ''../x'']
      (file_stream ''f'') ex_world = (Inr (file_stream ''d/x''), w') \<and>
     w_files w' ''x'' = w_files ex_world ''x''"
proof -
  let ?te = "ex_transfer\<lparr>te_quoted := ex_quoted\<rparr>" and ?sv = "''attachment'' @ ''; filename='' @ quote ''../x''"
  have q: "quoted_rule ex_quoted" by (simp add: quoted_rule_def ex_quoted_def)
  have "extract_filename_form_content_disposition (te_gparse ?te) (te_quoted ?te) ?sv = Inr (Some ''../x'')"
    unfolding ex_transfer_def transfer_env.simps
    by (rule extract_filename_quoted [OF ref.url_grammar_axioms q]) (simp_all add: attr_char_def is_alpha_def byte_def)
  then have "disposition ?te [?sv] = Inr (Some ''x'')"
    by (simp add: disposition_def decisive_def path_filename_def)
  note d = disposition_in_directory [where te = ?te and svs = "[?sv]" and dir = "''d''" and os = "file_stream ''f''"
      and w = ex_world, unfolded this sum.case option.case Let_def]
  have w: "w_writable ex_world p" for p by (simp add: ex_world_def)
  have "choose_output ?te ''d'' [?sv] (file_stream ''f'') ex_world =
      (Inr (file_stream ''d/x''), ex_world\<lparr>w_files := (w_files ex_world)(''d/x'' := Some [])\<rparr>)"
    using d by (simp add: w del: choose_output.simps)
  then show ?thesis by (intro exI conjI) (assumption, simp)
qed

end
