(* ===== verification/Burl_Retry.thy ===== *)
theory Burl_Retry
  imports Burl_Transfer_Proofs
begin

text \<open>
  A transfer with its retries (\<^verbatim>\<open>retry\<close> around \<^verbatim>\<open>perform_request\<close> in \<^verbatim>\<open>main.cpp\<close>): every attempt is a
  whole transfer on the files and the cookie jar the one before has left.
\<close>

subsection \<open>The attempts\<close>

text \<open>What the awaits of one attempt bring, the clock after it, and whether the coroutine was
  cancelled meanwhile.\<close>

record try_events =
  ty_transfer :: transfer_events
  ty_now :: int
  ty_cancelled :: bool

text \<open>The outcome of a transfer as the loop sees it; \<^verbatim>\<open>code_of\<close> gives the error code of a system error
  of the network.\<close>

definition attempt_result_of :: "(string \<Rightarrow> req_error) \<Rightarrow> exn \<Rightarrow> attempt_result" where
  "attempt_result_of code_of e =
     (case e of
        system_error s \<Rightarrow> Att_system_error (if s = ''binary output to tty'' then Err_binary_to_tty else code_of s)
      | _ \<Rightarrow> Att_exception e)"

definition attempt_of :: "(string \<Rightarrow> req_error) \<Rightarrow> transfer_end \<Rightarrow> try_events \<Rightarrow> attempt option" where
  "attempt_of code_of r ty =
     (case r of
        Transfer_done s \<Rightarrow> Some \<lparr>at_result = Att_status s, at_now = ty_now ty, at_cancelled = ty_cancelled ty\<rparr>
      | Transfer_threw e \<Rightarrow>
          Some \<lparr>at_result = attempt_result_of code_of e, at_now = ty_now ty, at_cancelled = ty_cancelled ty\<rparr>
      | Transfer_waiting \<Rightarrow> None)"

text \<open>The loop: how it ends, the outcomes of the attempts, the jar and the files.\<close>

fun retry_transfers ::
    "(string \<Rightarrow> req_error) \<Rightarrow> (cookie_jar option \<Rightarrow> transfer_events \<Rightarrow> world \<Rightarrow> transfer_end \<times> cookie_jar option \<times> world) \<Rightarrow>
     operation_config \<Rightarrow> int \<Rightarrow> try_events list \<Rightarrow> u64 \<Rightarrow> cookie_jar option \<Rightarrow> world \<Rightarrow>
     retry_end \<times> transfer_end list \<times> cookie_jar option \<times> world" where
  "retry_transfers code_of request_task oc max_time [] retries jar w = (Retry_waiting, [], jar, w)"
| "retry_transfers code_of request_task oc max_time (ty # tys) retries jar w =
     (case request_task jar (ty_transfer ty) w of
        (r, jar1, w1) \<Rightarrow>
          (case attempt_of code_of r ty of
             None \<Rightarrow> (Retry_waiting, [r], jar1, w1)
           | Some a \<Rightarrow>
               (case retry_stop oc max_time retries a of
                  Some e \<Rightarrow> (e, [r], jar1, w1)
                | None \<Rightarrow>
                    if at_cancelled a then (Retry_returned, [r], jar1, w1)
                    else
                      (case retry_transfers code_of request_task oc max_time tys (retries - 1) jar1 w1 of
                         (e, rs, jar2, w2) \<Rightarrow> (e, r # rs, jar2, w2)))))"

definition retry_request ::
    "(string \<Rightarrow> req_error) \<Rightarrow> 'rq transfer_env \<Rightarrow> operation_config \<Rightarrow> any_ostream option \<Rightarrow> string \<Rightarrow> message \<Rightarrow>
     request_opt \<Rightarrow> int \<Rightarrow> try_events list \<Rightarrow> cookie_jar option \<Rightarrow> world \<Rightarrow>
     retry_end \<times> transfer_end list \<times> cookie_jar option \<times> world" where
  "retry_request code_of te oc header_output exp_cookies msg ro now tys jar w =
     retry_transfers code_of (\<lambda>jar ev w. perform_request te oc header_output jar exp_cookies msg ro ev w) oc
       (case oc_retry_maxtime oc of Some t \<Rightarrow> now + t | None \<Rightarrow> duration_max) tys (oc_req_retry oc) jar w"

subsection \<open>The loop over attempts\<close>

text \<open>The attempts that were made, as the loop of \<open>Burl_Request\<close> takes them.\<close>

definition made_attempts :: "(string \<Rightarrow> req_error) \<Rightarrow> try_events list \<Rightarrow> transfer_end list \<Rightarrow> attempt list" where
  "made_attempts code_of tys rs = map (\<lambda>(r, ty). the (attempt_of code_of r ty)) (zip rs tys)"

lemma retry_transfers_loop:
  "retry_transfers code_of task oc max_time tys retries jar w = (e, rs, jar', w') \<Longrightarrow> e \<noteq> Retry_waiting \<Longrightarrow>
   \<exists>out. retry_loop oc max_time (made_attempts code_of tys rs) retries backoff delays = (e, delays @ out) \<and>
     length rs = Suc (length out)"
proof (induction tys arbitrary: retries jar w rs backoff delays)
  case (Cons ty tys)
  obtain r jar1 w1 where r: "task jar (ty_transfer ty) w = (r, jar1, w1)" by (metis prod_cases3)
  from Cons.prems obtain a where a: "attempt_of code_of r ty = Some a" by (auto simp: r split: option.splits)
  show ?case
  proof (cases "retry_stop oc max_time retries a = None \<and> \<not> at_cancelled a")
    case False
    then show ?thesis using Cons.prems by (auto simp: r a made_attempts_def split: option.splits)
  next
    case True
    obtain d b where d: "next_delay oc backoff = (d, b)" by (cases "next_delay oc backoff")
    from True Cons.prems obtain rs1 where rs1: "rs = r # rs1"
        "retry_transfers code_of task oc max_time tys (retries - 1) jar1 w1 = (e, rs1, jar', w')"
      by (auto simp: r a split: prod.splits)
    from Cons.IH [OF rs1(2) Cons.prems(2), of b "delays @ [d]"] show ?thesis
      using True rs1(1) d a by (auto simp: made_attempts_def)
  qed
qed simp

text \<open>Attempts one after the other, each on the jar and the files the one before has left.\<close>

fun run_attempts ::
    "(cookie_jar option \<Rightarrow> transfer_events \<Rightarrow> world \<Rightarrow> transfer_end \<times> cookie_jar option \<times> world) \<Rightarrow>
     transfer_events list \<Rightarrow> cookie_jar option \<Rightarrow> world \<Rightarrow> transfer_end list \<times> cookie_jar option \<times> world" where
  "run_attempts task [] jar w = ([], jar, w)"
| "run_attempts task (ev # evs) jar w =
     (case task jar ev w of
        (r, jar1, w1) \<Rightarrow> (case run_attempts task evs jar1 w1 of (rs, jar2, w2) \<Rightarrow> (r # rs, jar2, w2)))"

text \<open>The last attempt, and what it started from.\<close>

lemma retry_transfers_last:
  "retry_transfers code_of task oc max_time tys retries jar w = (e, rs, jar', w') \<Longrightarrow> e \<noteq> Retry_waiting \<Longrightarrow>
   rs \<noteq> [] \<and> length rs \<le> length tys \<and>
     (\<exists>jar0 w0. run_attempts task (map ty_transfer (take (length rs - 1) tys)) jar w = (butlast rs, jar0, w0) \<and>
       task jar0 (ty_transfer (tys ! (length rs - 1))) w0 = (last rs, jar', w'))"
proof (induction tys arbitrary: retries jar w rs)
  case (Cons ty tys)
  obtain r jar1 w1 where r: "task jar (ty_transfer ty) w = (r, jar1, w1)" by (metis prod_cases3)
  from Cons.prems obtain a where a: "attempt_of code_of r ty = Some a" by (auto simp: r split: option.splits)
  show ?case
  proof (cases "retry_stop oc max_time retries a = None \<and> \<not> at_cancelled a")
    case False
    then have "rs = [r]" "jar' = jar1" "w' = w1" using Cons.prems r by (auto simp: a split: option.splits)
    then show ?thesis using r by auto
  next
    case True
    from True Cons.prems obtain rs1 where rs1: "rs = r # rs1"
        "retry_transfers code_of task oc max_time tys (retries - 1) jar1 w1 = (e, rs1, jar', w')"
      by (auto simp: r a split: prod.splits)
    from Cons.IH [OF rs1(2) Cons.prems(2)] show ?thesis using rs1(1) r by (cases rs1) auto
  qed
qed simp

subsection \<open>What the attempts leave\<close>

text \<open>What a transfer that starts the output anew leaves in it.\<close>

definition fresh_text :: "operation_config \<Rightarrow> transfer_events \<Rightarrow> nat \<Rightarrow> string \<Rightarrow> bool" where
  "fresh_text oc ev status t \<longleftrightarrow>
     (\<exists>k rsp. k < length (tv_rounds ev) \<and> ru_response (tv_rounds ev ! k) = Inr rsp \<and> status = rsp_status rsp \<and>
        t = (if oc_show_headers oc then concat (header_texts (take (Suc k) (tv_rounds ev))) else []) @ kept_body oc rsp ev)"

lemma transfer_leaves_fresh:
  assumes "transfer_leaves te oc ro path header_output ev w0 status w'"
    and "oc_resume_from oc = None" "\<not> oc_skip_existing oc" "\<not> (oc_content_disposition oc \<and> ro_remotename ro)"
  shows "\<exists>t. fresh_text oc ev status t \<and> w_files w' path = Some t"
proof -
  obtain k rsp where k: "k < length (tv_rounds ev)" "ru_response (tv_rounds ev ! k) = Inr rsp" "status = rsp_status rsp"
    and p: "w_files w' path =
      Some ((if oc_show_headers oc then concat (header_texts (take (Suc k) (tv_rounds ev))) else []) @ kept_body oc rsp ev)"
    using assms by (auto simp: transfer_leaves_def server_path_def started_files_def Let_def)
  show ?thesis unfolding fresh_text_def by (rule exI, rule conjI [OF _ p]) (use k in blast)
qed

text \<open>
  C33. The output of a transfer that is retried, when it is a file and the headers do not go to
  the same one: there are at most as many further attempts as retries, each a whole transfer on
  the files the ones before have left, and a last attempt that ends with a status leaves the files
  as a single transfer started on these does.  So the output starts with what the earlier attempts
  left in it when the transfer resumes, and holds nothing of them otherwise; then come the last
  attempt's headers if they are shown and its body, or the body is in the file the server names.
\<close>

theorem retry_output:
  assumes "transfer_url te oc0 (ro_url ro) = Inr url" "output_path oc0 url ro = Inr (path, oc)"
    and "path \<notin> {''-'', ''%''}" "header_path header_output \<noteq> Some path"
    and "retry_request code_of te oc0 header_output exp_cookies msg ro now tys jar w = (e, rs, jar', w')" "e \<noteq> Retry_waiting"
  shows "rs \<noteq> [] \<and> length rs \<le> Suc (unat (oc_req_retry oc0)) \<and> length rs \<le> length tys \<and>
    (\<exists>jar0 w0.
      run_attempts (\<lambda>jar ev w. perform_request te oc0 header_output jar exp_cookies msg ro ev w)
        (map ty_transfer (take (length rs - 1) tys)) jar w = (butlast rs, jar0, w0) \<and>
      (\<forall>status. last rs = Transfer_done status \<longrightarrow>
        transfer_leaves te oc ro path header_output (ty_transfer (tys ! (length rs - 1))) w0 status w' \<and>
        (oc_resume_from oc = None \<and> \<not> oc_skip_existing oc \<and> \<not> (oc_content_disposition oc \<and> ro_remotename ro) \<longrightarrow>
          (\<exists>t. fresh_text oc (ty_transfer (tys ! (length rs - 1))) status t \<and> w_files w' path = Some t))))"
proof -
  note run = assms(5) [unfolded retry_request_def]
  obtain out where "retry_loop oc0 (case oc_retry_maxtime oc0 of Some t \<Rightarrow> now + t | None \<Rightarrow> duration_max)
      (made_attempts code_of tys rs) (oc_req_retry oc0) 1 [] = (e, [] @ out)" "length rs = Suc (length out)"
    using retry_transfers_loop [OF run assms(6)] by blast
  then have "length rs \<le> Suc (unat (oc_req_retry oc0))" using retry_loop_bounds by fastforce
  moreover obtain jar0 w0 where last: "rs \<noteq> []" "length rs \<le> length tys"
      "run_attempts (\<lambda>jar ev w. perform_request te oc0 header_output jar exp_cookies msg ro ev w)
        (map ty_transfer (take (length rs - 1) tys)) jar w = (butlast rs, jar0, w0)"
      "perform_request te oc0 header_output jar0 exp_cookies msg ro (ty_transfer (tys ! (length rs - 1))) w0 =
        (last rs, jar', w')"
    using retry_transfers_last [OF run assms(6)] by blast
  moreover have "transfer_leaves te oc ro path header_output (ty_transfer (tys ! (length rs - 1))) w0 status w'"
    if "last rs = Transfer_done status" for status
    using finished_transfer [OF assms(1-4) last(4) [unfolded that]] .
  ultimately show ?thesis using transfer_leaves_fresh by blast
qed

text \<open>A first attempt that ends with the transient status 503 and a body, and a second that succeeds.\<close>

theorem retry_output_witness:
  "\<exists>rs jar' w'. retry_request (\<lambda>_. Err_other 0) ex_transfer ex_transfer_oc None [] No_body ex_ro 0
      [\<lparr>ty_transfer = ex_events 503 ''busy'' None, ty_now = 0, ty_cancelled = False\<rparr>,
       \<lparr>ty_transfer = ex_events 200 ''x'' None, ty_now = 0, ty_cancelled = False\<rparr>] None ex_world =
      (Retry_returned, rs, jar', w') \<and> length rs = 2 \<and> w_files w' ''a'' = Some ''xyz''"
proof -
  let ?tys = "[\<lparr>ty_transfer = ex_events 503 ''busy'' None, ty_now = 0, ty_cancelled = False\<rparr>,
    \<lparr>ty_transfer = ex_events 200 ''x'' None, ty_now = 0, ty_cancelled = False\<rparr>]"
  have w: "w_writable ex_world ''a''" by (simp add: ex_world_def)
  then obtain w1 where w1: "perform_request ex_transfer ex_transfer_oc None None [] No_body ex_ro
      (ex_events 503 ''busy'' None) ex_world = (Transfer_done 503, None, w1)" "w_writable w1 = w_writable ex_world"
    using ex_perform [of 503 ex_world "''busy''" None] by auto
  then obtain w2 where w2: "perform_request ex_transfer ex_transfer_oc None None [] No_body ex_ro
      (ex_events 200 ''x'' None) w1 = (Transfer_done 200, None, w2)"
    using ex_perform [of 200 w1 "''x''" None] w by auto
  have o: "oc_retry_maxtime ex_transfer_oc = None" "oc_req_retry ex_transfer_oc = 1"
    by (simp_all add: ex_transfer_oc_def ex_oc_def operation_config_default_def)
  have r: "retry_request (\<lambda>_. Err_other 0) ex_transfer ex_transfer_oc None [] No_body ex_ro 0 ?tys None ex_world =
      (Retry_returned, [Transfer_done 503, Transfer_done 200], None, w2)"
    by (simp add: retry_request_def o w1(1) w2 attempt_of_def retry_stop_def can_retry_def is_transient_error_def
        duration_max_def)
  from retry_output [OF ex_transfer_url ex_output_path _ _ r] obtain w0 where
    "transfer_leaves ex_transfer ex_transfer_oc ex_ro ''a'' None (ex_events 200 ''x'' None) w0 200 w2"
    by (auto simp: header_path_def)
  then show ?thesis using r ex_leaves by fastforce
qed

end
