(* ===== verification/Burl_Main.thy ===== *)
theory Burl_Main
  imports Burl_Transfer Burl_Request_Proofs
begin

text \<open>
  The beginning and the end of a run of the burl client (\<^verbatim>\<open>co_main\<close> of \<^verbatim>\<open>main.cpp\<close>): the header
  file, the cookie jar filled from the cookie files, the cookies of the command line, and the jar
  that is written when every transfer is over.
\<close>

record run_state =
  rs_header_output :: "any_ostream option"
  rs_cookie_jar :: "cookie_jar option"
  rs_exp_cookies :: string

text \<open>\<^verbatim>\<open>any_istream{ path } >> cookie_jar.value()\<close> for the files that exist.\<close>

fun load_cookie_files ::
    "gparser \<Rightarrow> string list \<Rightarrow> cookie_jar option \<Rightarrow> world \<Rightarrow> (exn + cookie_jar option) \<times> world" where
  "load_cookie_files gparse [] jar w = (Inr jar, w)"
| "load_cookie_files gparse (path # paths) jar w =
     (if \<not> fs_exists w path then load_cookie_files gparse paths jar w
      else
        (case any_istream_new path w of
           Inl e \<Rightarrow> (Inl e, w)
         | Inr is \<Rightarrow>
             (case jar of
                None \<Rightarrow> (Inl bad_optional_access, w)
              | Some j \<Rightarrow>
                  (case is_read_all is w of
                     (text, w1) \<Rightarrow>
                       (case jar_read gparse text j of
                          (Some e, _) \<Rightarrow> (Inl e, w1)
                        | (None, j') \<Rightarrow> load_cookie_files gparse paths (Some j') w1)))))"

definition open_header_file :: "operation_config \<Rightarrow> world \<Rightarrow> (exn + any_ostream option) \<times> world" where
  "open_header_file oc w =
     (if oc_headerfile oc = [] then (Inr None, w)
      else case any_ostream_new (oc_headerfile oc) False w of (r, w1) \<Rightarrow> (rmap Some r, w1))"

definition prepare_run :: "gparser \<Rightarrow> operation_config \<Rightarrow> world \<Rightarrow> (exn + run_state) \<times> world" where
  "prepare_run gparse oc w =
     (case open_header_file oc w of
        (Inl e, w1) \<Rightarrow> (Inl e, w1)
      | (Inr header_output, w1) \<Rightarrow>
          let jar = (if oc_enable_cookies oc then Some jar_empty else None);
              exp_cookies = join_cookies (oc_cookies oc) [] in
          (case load_cookie_files gparse (oc_cookiefiles oc) jar w1 of
             (Inl e, w2) \<Rightarrow> (Inl e, w2)
           | (Inr jar', w2) \<Rightarrow>
               (Inr \<lparr>rs_header_output = header_output,
                  rs_cookie_jar = (if oc_cookiesession oc then map_option clear_session_cookies jar' else jar'),
                  rs_exp_cookies = exp_cookies\<rparr>, w2)))"

text \<open>The end: the jar is written if there is one and it has a file, then an exception of the
  generator is thrown again.\<close>

definition write_jar :: "operation_config \<Rightarrow> cookie_jar option \<Rightarrow> world \<Rightarrow> exn option \<times> world" where
  "write_jar oc jar w =
     (case jar of
        None \<Rightarrow> (None, w)
      | Some j \<Rightarrow>
          if oc_cookiejar oc = [] then (None, w)
          else
            (case any_ostream_new (oc_cookiejar oc) False w of
               (Inl e, w1) \<Rightarrow> (Some e, w1)
             | (Inr os, w1) \<Rightarrow>
                 (case jar_write j [] of
                    Inl (e, text) \<Rightarrow> (Some e, ostream_write os text w1)
                  | Inr text \<Rightarrow> (None, ostream_write os text w1))))"

definition finish_run :: "operation_config \<Rightarrow> cookie_jar option \<Rightarrow> exn option \<Rightarrow> world \<Rightarrow> exn option \<times> world" where
  "finish_run oc jar ep w =
     (case write_jar oc jar w of
        (Some e, w1) \<Rightarrow> (Some e, w1)
      | (None, w1) \<Rightarrow> (ep, w1))"

subsection \<open>Cookies from one run to the next\<close>

text \<open>
  C17. Cookies live on between runs: a run that ends with a jar of cookies whose fields the
  Netscape format can hold writes its file, with the run's outcome unchanged and no other file
  touched. A later run that names the file starts with these cookies in the same order, except
  that the expiry times are cut to whole seconds, \<^verbatim>\<open>SameSite\<close> and \<^verbatim>\<open>Partitioned\<close>
  are forgotten, and with \<^verbatim>\<open>--junk-session-cookies\<close> the cookies without expiry are dropped.
  This holds when every cookie has a value; a single cookie without one makes the later run
  throw when it starts. (The format can hold a cookie with domain, path and name non-empty and
  free of tabs and line ends, the value likewise when there is one, and an expiry that is absent
  or from one second after 1970 until 2106; the domain of a cookie that is not
  \<^verbatim>\<open>HttpOnly\<close> must not start with \<^verbatim>\<open>#\<close>.)
\<close>

theorem cookies_persist:
  assumes "url_grammar gparse rparse" "list_all storable (jar_cookies j)"
    and "oc_cookiejar oc1 = path" "path \<notin> {[], ''-'', ''%''}" "w_writable w path"
    and "oc_enable_cookies oc2" "oc_cookiefiles oc2 = [path]" "oc_headerfile oc2 = []"
  shows "\<exists>w1. finish_run oc1 (Some j) ep w = (ep, w1) \<and>
    (if list_all has_value (jar_cookies j)
     then prepare_run gparse oc2 w1 = (Inr \<lparr>rs_header_output = None,
       rs_cookie_jar = Some \<lparr>jar_cookies = filter (\<lambda>c. \<not> oc_cookiesession oc2 \<or> ck_expires c \<noteq> None)
         (map saved (jar_cookies j))\<rparr>,
       rs_exp_cookies = join_cookies (oc_cookies oc2) []\<rparr>, w1)
     else prepare_run gparse oc2 w1 = (Inl (system_error ''parse_netscape_cookie''), w1)) \<and>
    (\<forall>p. p \<noteq> path \<longrightarrow> w_files w1 p = w_files w p)"
proof -
  let ?v = "list_all has_value (jar_cookies j)"
  have "?v \<Longrightarrow> list_all writable (jar_cookies j)" using assms(2) storable_writable by (auto simp: list_all_iff)
  then obtain txt0 cj' where t: "jar_write j [] = Inr txt0"
      "?v \<Longrightarrow> jar_read gparse txt0 jar_empty = (None, \<lparr>jar_cookies = map saved (jar_cookies j)\<rparr>)"
      "\<not> ?v \<Longrightarrow> jar_read gparse txt0 jar_empty = (Some (system_error ''parse_netscape_cookie''), cj')"
    using jar_file_roundtrip [OF assms(1)] jar_file_unreadable [OF assms(1,2)] by (cases ?v) fastforce+
  define w1 where "w1 = w\<lparr>w_files := (w_files w)(path := Some txt0)\<rparr>"
  have fin: "finish_run oc1 (Some j) ep w = (ep, w1)"
    using assms(3-5) t(1) by (simp add: finish_run_def write_jar_def any_ostream_new_def ostream_write_def w1_def)
  have load: "load_cookie_files gparse [path] (Some jar_empty) w1 =
      (if ?v then (Inr (Some \<lparr>jar_cookies = map saved (jar_cookies j)\<rparr>), w1)
       else (Inl (system_error ''parse_netscape_cookie''), w1))"
    using assms(4) t(2,3) by (simp add: fs_exists_def any_istream_new_def is_read_all_def w1_def)
  show ?thesis using assms(6-8) load fin
    by (intro exI [of _ w1]) (simp add: prepare_run_def open_header_file_def clear_session_cookies_def w1_def)
qed

theorem cookies_persist_witness:
  "\<exists>w1 w2. prepare_run ref_gparse (operation_config_default\<lparr>oc_enable_cookies := True, oc_cookiefiles := [''jar'']\<rparr>) w1 =
     (Inr \<lparr>rs_header_output = None,
       rs_cookie_jar = Some \<lparr>jar_cookies = [saved (ex_cookie\<lparr>ck_domain := Some ''a.io'', ck_path := Some ''/''\<rparr>)]\<rparr>,
       rs_exp_cookies = []\<rparr>, w1) \<and>
     prepare_run ref_gparse (operation_config_default\<lparr>oc_enable_cookies := True, oc_cookiefiles := [''jar'']\<rparr>) w2 =
       (Inl (system_error ''parse_netscape_cookie''), w2)"
proof -
  let ?c = "ex_cookie\<lparr>ck_domain := Some ''a.io'', ck_path := Some ''/''\<rparr>"
  let ?j = "\<lparr>jar_cookies = [?c]\<rparr>" and ?j2 = "\<lparr>jar_cookies = [?c\<lparr>ck_value := None\<rparr>]\<rparr>"
  let ?oc1 = "operation_config_default\<lparr>oc_cookiejar := ''jar''\<rparr>"
  let ?oc2 = "operation_config_default\<lparr>oc_enable_cookies := True, oc_cookiefiles := [''jar'']\<rparr>"
  note defs = storable_def has_value_def writable_def clean_field_def ex_cookie_def cookie_default_def starts_with_def
  have w: "list_all storable (jar_cookies ?j)" "list_all storable (jar_cookies ?j2)"
    and v: "list_all has_value (jar_cookies ?j)" "\<not> list_all has_value (jar_cookies ?j2)"
    by (simp_all add: defs)
  have d: "oc_cookiesession ?oc2 = False" "oc_cookies ?oc2 = []" by (simp_all add: operation_config_default_def)
  obtain w1 where "prepare_run ref_gparse ?oc2 w1 = (Inr \<lparr>rs_header_output = None,
       rs_cookie_jar = Some \<lparr>jar_cookies = filter (\<lambda>c. \<not> oc_cookiesession ?oc2 \<or> ck_expires c \<noteq> None)
         (map saved (jar_cookies ?j))\<rparr>, rs_exp_cookies = join_cookies (oc_cookies ?oc2) []\<rparr>, w1)"
    using cookies_persist [OF ref.url_grammar_axioms w(1), of ?oc1 "''jar''" ex_world ?oc2 None] v(1)
    by (auto simp: operation_config_default_def ex_world_def)
  moreover obtain w2 where "prepare_run ref_gparse ?oc2 w2 = (Inl (system_error ''parse_netscape_cookie''), w2)"
    using cookies_persist [OF ref.url_grammar_axioms w(2), of ?oc1 "''jar''" ex_world ?oc2 None] v(2)
    by (auto simp: operation_config_default_def ex_world_def)
  ultimately show ?thesis unfolding d by (intro exI [of _ w1] exI [of _ w2]) simp
qed

end
