(* ===== verification/Burl_Driver.thy ===== *)
theory Burl_Driver
  imports Burl_Main Request_List Task_Group
begin

text \<open>
  A whole run of the burl client (\<^verbatim>\<open>co_main\<close> and \<^verbatim>\<open>main\<close> of \<^verbatim>\<open>main.cpp\<close>): the loop that draws requests
  from the generator, asks the task group for a slot and starts a transfer in it, and the join at
  the end.  The loop, the transfers and a signal from the user interleave as Boost.Asio resumes
  them: a run is a sequence of completions.
\<close>

subsection \<open>The state\<close>

text \<open>What the coroutine is doing: waiting for a slot for a request, waiting for the last transfers,
  done, or in a call of the generator that does not return.\<close>

datatype run_phase = Adapting request_opt | Joining | Run_over | In_generator

text \<open>The started transfers by the number of their task, and the ended ones with whether an
  exception ended them, are kept as a history.  \<^verbatim>\<open>dr_cancelled\<close> is the cancellation state of the
  coroutine, \<^verbatim>\<open>dr_signalled\<close> tells that the one signal that is waited for has arrived.\<close>

record driver =
  dr_tg :: task_group
  dr_gen :: "request_info list"
  dr_phase :: run_phase
  dr_ep :: "exn option"
  dr_cancelled :: bool
  dr_signalled :: bool
  dr_started :: "(nat \<times> request_opt) list"
  dr_ended :: "(nat \<times> bool) list"

subsection \<open>The coroutine\<close>

text \<open>After the loop: a cancellation is passed on to the transfers and cleared, then they are joined.
  There is one operation at a time on the group, with number 0.\<close>

definition begin_join :: "driver \<Rightarrow> driver" where
  "begin_join s =
     (let tg = (if dr_cancelled s then tg_emit (dr_tg s) else dr_tg s) in
      s\<lparr>dr_tg := tg_start 0 Op_join tg, dr_cancelled := False, dr_phase := Joining\<rparr>)"

text \<open>The head of the loop: the next request and the wait for a slot.\<close>

definition pull :: "gparser \<Rightarrow> driver \<Rightarrow> driver" where
  "pull gparse s =
     (case request_opt_gen gparse (dr_gen s) of
        None \<Rightarrow> s\<lparr>dr_phase := In_generator\<rparr>
      | Some (Inl e) \<Rightarrow> begin_join (s\<lparr>dr_ep := Some e\<rparr>)
      | Some (Inr (None, g)) \<Rightarrow> begin_join (s\<lparr>dr_gen := g\<rparr>)
      | Some (Inr (Some r, g)) \<Rightarrow>
          s\<lparr>dr_gen := g, dr_tg := tg_start 0 Op_adapt (dr_tg s), dr_phase := Adapting r\<rparr>)"

text \<open>The coroutine goes on when its operation has completed: with a slot the transfer is started, and
  an error of the group ends the loop, which destroys the handler that was registered with it.\<close>

definition on_resume :: "gparser \<Rightarrow> driver \<Rightarrow> driver" where
  "on_resume gparse s0 =
     (let tg = tg_resume 0 (dr_tg s0); s = s0\<lparr>dr_tg := tg\<rparr>; t = task_id (last (tg_css tg)) in
      if tg_ops tg 0 \<noteq> None then s
      else
        (case dr_phase s of
           Adapting r \<Rightarrow>
             if snd (last (tg_done tg)) = Ec_none
             then pull gparse (s\<lparr>dr_started := dr_started s @ [(t, r)]\<rparr>)
             else begin_join (s\<lparr>dr_tg := tg_remove t tg\<rparr>)
         | Joining \<Rightarrow> s\<lparr>dr_phase := Run_over\<rparr>
         | _ \<Rightarrow> s))"

text \<open>The completion of a transfer: the handler may close the group, then it is destroyed.\<close>

definition on_transfer_end :: "operation_config \<Rightarrow> nat \<Rightarrow> bool \<Rightarrow> driver \<Rightarrow> driver" where
  "on_transfer_end oc t threw s =
     (let tg = (if threw \<and> oc_failearly oc then tg_emit (tg_close (dr_tg s)) else dr_tg s) in
      s\<lparr>dr_tg := tg_remove t tg, dr_ended := dr_ended s @ [(t, threw)]\<rparr>)"

text \<open>The signal cancels the coroutine and with it the operation it waits for.\<close>

definition on_signal :: "driver \<Rightarrow> driver" where
  "on_signal s = s\<lparr>dr_tg := tg_cancel 0 (dr_tg s), dr_cancelled := True, dr_signalled := True\<rparr>"

subsection \<open>Runs\<close>

datatype run_event = Resumed | Transfer_ended nat int "attempt list" | Signalled

definition dr_busy :: "driver \<Rightarrow> bool" where
  "dr_busy s \<longleftrightarrow> dr_phase s \<noteq> Run_over \<and> dr_phase s \<noteq> In_generator"

fun run_step :: "gparser \<Rightarrow> operation_config \<Rightarrow> driver \<Rightarrow> run_event \<Rightarrow> driver option" where
  "run_step gparse oc s Resumed =
     (case tg_ops (dr_tg s) 0 of
        Some p \<Rightarrow> if dr_busy s \<and> op_phase p \<noteq> On_timer then Some (on_resume gparse s) else None
      | None \<Rightarrow> None)"
| "run_step gparse oc s (Transfer_ended t now attempts) =
     (if dr_busy s \<and> t \<in> task_id ` set (tg_css (dr_tg s))
      then
        (case fst (retry oc now attempts) of
           Retry_waiting \<Rightarrow> None
         | Retry_returned \<Rightarrow> Some (on_transfer_end oc t False s)
         | Retry_threw \<Rightarrow> Some (on_transfer_end oc t True s))
      else None)"
| "run_step gparse oc s Signalled =
     (if dr_busy s \<and> \<not> dr_signalled s then Some (on_signal s) else None)"

fun run_steps :: "gparser \<Rightarrow> operation_config \<Rightarrow> driver \<Rightarrow> run_event list \<Rightarrow> driver option" where
  "run_steps gparse oc s [] = Some s"
| "run_steps gparse oc s (e # es) =
     (case run_step gparse oc s e of None \<Rightarrow> None | Some s' \<Rightarrow> run_steps gparse oc s' es)"

definition run_begin :: "gparser \<Rightarrow> operation_config \<Rightarrow> request_info list \<Rightarrow> driver" where
  "run_begin gparse oc rs =
     pull gparse \<lparr>dr_tg = tg_new (ucast (oc_parallel_max oc)), dr_gen = rs, dr_phase = In_generator, dr_ep = None,
       dr_cancelled = False, dr_signalled = False, dr_started = [], dr_ended = []\<rparr>"

text \<open>Everything up to the first wait for a slot: the command line, the files, the first request.\<close>

definition co_main_begin ::
    "option_env \<Rightarrow> variables_map \<Rightarrow> (string \<times> string list) list \<Rightarrow> world \<Rightarrow>
     exn + parsed_args \<times> run_state \<times> driver \<times> world" where
  "co_main_begin env vm options w =
     rbind (parse_args env vm options w) (\<lambda>(pa, w1).
       case prepare_run (oe_gparse env) (pa_oc pa) w1 of
         (Inl e, _) \<Rightarrow> Inl e
       | (Inr st, w2) \<Rightarrow> Inr (pa, st, run_begin (oe_gparse env) (pa_oc pa) (pa_requests pa), w2))"

text \<open>The status the program returns.\<close>

definition main_status :: "exn option \<Rightarrow> nat" where
  "main_status ep = (case ep of None \<Rightarrow> 0 | Some _ \<Rightarrow> 1)"

definition burl_exit :: "operation_config \<Rightarrow> driver \<Rightarrow> cookie_jar option \<Rightarrow> world \<Rightarrow> nat \<times> world" where
  "burl_exit oc s jar w = (case finish_run oc jar (dr_ep s) w of (ep, w') \<Rightarrow> (main_status ep, w'))"

end
