(* ===== verification/Burl_Driver_Proofs.thy ===== *)
theory Burl_Driver_Proofs
  imports Burl_Driver Completion_System
begin

text \<open>
  The correctness of a run of the burl client: what the loop, the transfers and a signal keep of the
  task group and of the list of requests, that every run ends, and what its status tells.
\<close>

subsection \<open>The operations on the group\<close>

lemma tg_start_adapt:
  "tg_start i Op_adapt tg = tg\<lparr>tg_ops := (tg_ops tg)(i \<mapsto> \<lparr>op_kind = Op_adapt, op_scheduled = True, op_cancelled = False,
     op_phase = (if tg_max tg \<noteq> 0 \<and> unat (tg_max tg) \<le> length (tg_css tg) then On_timer else Posted Ec_none)\<rparr>)\<rparr>"
  by (auto simp: tg_start_def run_handler_def adapt_handler_def adapt_ec_def Let_def)

lemma tg_start_join:
  "tg_start i Op_join tg = tg\<lparr>tg_ops := (tg_ops tg)(i \<mapsto> \<lparr>op_kind = Op_join, op_scheduled = True, op_cancelled = False,
     op_phase = (if tg_css tg \<noteq> [] then On_timer else Posted Ec_none)\<rparr>)\<rparr>"
  by (simp add: tg_start_def run_handler_def join_handler_def Let_def)

lemma tg_start_keeps [simp]:
  "tg_css (tg_start i k tg) = tg_css tg" "tg_max (tg_start i k tg) = tg_max tg" "tg_next (tg_start i k tg) = tg_next tg"
  by (cases k; simp add: tg_start_adapt tg_start_join)+

lemma tg_emit_keeps [simp]:
  "map task_id (tg_css (tg_emit tg)) = map task_id (tg_css tg)" "tg_max (tg_emit tg) = tg_max tg"
  "tg_next (tg_emit tg) = tg_next tg" "tg_ops (tg_emit tg) = tg_ops tg" "(tg_css (tg_emit tg) = []) = (tg_css tg = [])"
  "length (tg_css (tg_emit tg)) = length (tg_css tg)"
  "list_all task_admitted (tg_css (tg_emit tg)) = list_all task_admitted (tg_css tg)"
  by (simp_all add: tg_emit_def comp_def list_all_iff)

lemma tg_close_keeps [simp]:
  "tg_css (tg_close tg) = tg_css tg" "tg_max (tg_close tg) = 0" "tg_next (tg_close tg) = tg_next tg"
  by (simp_all add: tg_close_def cv_cancel_def)

lemma tg_remove_keeps [simp]:
  "tg_css (tg_remove t tg) = filter (\<lambda>x. task_id x \<noteq> t) (tg_css tg)" "tg_max (tg_remove t tg) = tg_max tg"
  "tg_next (tg_remove t tg) = tg_next tg"
  by (simp_all add: tg_remove_def cv_cancel_def)

lemma tg_cancel_keeps [simp]:
  "tg_css (tg_cancel i tg) = tg_css tg" "tg_max (tg_cancel i tg) = tg_max tg" "tg_next (tg_cancel i tg) = tg_next tg"
  by (simp_all add: tg_cancel_def split: option.split)

text \<open>The outstanding operation, and what the steps of others do to it.\<close>

definition waits_for :: "op_kind \<Rightarrow> bool \<Rightarrow> task_group \<Rightarrow> bool" where
  "waits_for k signalled tg \<longleftrightarrow> (\<exists>p. tg_ops tg 0 = Some p \<and> op_kind p = k \<and> op_scheduled p \<and>
     (op_cancelled p \<longrightarrow> signalled) \<and> op_phase p \<in> {On_timer, Posted Ec_none, Posted Ec_aborted})"

lemma wake_op_keeps [simp]:
  "op_kind (wake_op p) = op_kind p" "op_scheduled (wake_op p) = op_scheduled p" "op_cancelled (wake_op p) = op_cancelled p"
  by (simp_all add: wake_op_def split: op_phase.split)

lemma wake_op_phase:
  "op_phase p \<in> {On_timer, Posted Ec_none, Posted Ec_aborted} \<Longrightarrow> op_phase (wake_op p) \<in> {Posted Ec_none, Posted Ec_aborted}"
  by (auto simp: wake_op_def)

lemma waits_for_start: "waits_for k b (tg_start 0 k tg)"
  by (cases k) (simp_all add: waits_for_def tg_start_adapt tg_start_join)

lemma waits_for_woken: "waits_for k b tg \<Longrightarrow> tg_ops tg' = (\<lambda>i. map_option wake_op (tg_ops tg i)) \<Longrightarrow> waits_for k b tg'"
  using wake_op_phase by (fastforce simp: waits_for_def)

lemma waits_for_remove: "waits_for k b tg \<Longrightarrow> waits_for k b (tg_remove t tg)"
  by (erule waits_for_woken) (simp add: tg_remove_def cv_cancel_def)

lemma waits_for_close: "waits_for k b tg \<Longrightarrow> waits_for k b (tg_emit (tg_close tg))"
  by (erule waits_for_woken) (simp add: tg_close_def cv_cancel_def)

lemma waits_for_cancel: "waits_for k b tg \<Longrightarrow> waits_for k True (tg_cancel 0 tg)"
  using wake_op_phase by (fastforce simp: waits_for_def tg_cancel_def)

text \<open>Resuming the two operations.\<close>

definition adapt_result :: "task_group \<Rightarrow> tg_op \<Rightarrow> tg_ec" where
  "adapt_result tg p = (if tg_max tg = 0 then Ec_closed else if op_cancelled p then Ec_cancelled else Ec_none)"

definition registered :: "nat \<Rightarrow> tg_ec \<Rightarrow> task_group \<Rightarrow> task_group" where
  "registered i ec tg = tg\<lparr>tg_ops := (tg_ops tg)(i := None),
     tg_css := tg_css tg @ [\<lparr>task_id = tg_next tg, task_admitted = (ec = Ec_none), task_signalled = False\<rparr>],
     tg_next := tg_next tg + 1, tg_done := tg_done tg @ [(i, ec)]\<rparr>"

lemma tg_resume_adapt:
  assumes "tg_ops tg i = Some p" "op_kind p = Op_adapt" "op_scheduled p" "op_phase p \<in> {Posted Ec_none, Posted Ec_aborted}"
  shows "tg_resume i tg =
    (if adapt_result tg p = Ec_none \<and> unat (tg_max tg) \<le> length (tg_css tg)
     then tg\<lparr>tg_ops := (tg_ops tg)(i \<mapsto> p\<lparr>op_scheduled := True, op_phase := On_timer\<rparr>)\<rparr>
     else registered i (adapt_result tg p) tg)"
proof -
  obtain ec where ec: "op_phase p = Posted ec" "ec = Ec_none \<or> ec = Ec_aborted" using assms(4) by auto
  then have "adapt_ec tg (op_cancelled p) ec = adapt_result tg p" by (auto simp: adapt_ec_def adapt_result_def Let_def)
  then show ?thesis
    using assms(1-3) ec(1) by (auto simp: tg_resume_def run_handler_def adapt_handler_def registered_def Let_def)
qed

definition told :: "tg_op \<Rightarrow> task_group \<Rightarrow> task_group" where
  "told p tg = (if op_cancelled p then tg_emit tg else tg)"

lemma told_keeps [simp]:
  "map task_id (tg_css (told p tg)) = map task_id (tg_css tg)" "tg_max (told p tg) = tg_max tg"
  "tg_next (told p tg) = tg_next tg" "tg_ops (told p tg) = tg_ops tg" "(tg_css (told p tg) = []) = (tg_css tg = [])"
  "length (tg_css (told p tg)) = length (tg_css tg)"
  "list_all task_admitted (tg_css (told p tg)) = list_all task_admitted (tg_css tg)"
  by (simp_all add: told_def)

lemma tg_resume_join:
  assumes "tg_ops tg i = Some p" "op_kind p = Op_join" "op_scheduled p" "op_phase p \<noteq> On_timer"
  shows "tg_resume i tg =
    (if tg_css tg \<noteq> []
     then (told p tg)\<lparr>tg_ops := (tg_ops tg)(i \<mapsto> p\<lparr>op_cancelled := False, op_scheduled := True, op_phase := On_timer\<rparr>)\<rparr>
     else (told p tg)\<lparr>tg_ops := (tg_ops tg)(i := None), tg_done := tg_done (told p tg) @ [(i, Ec_none)]\<rparr>)"
  using assms by (cases "op_phase p") (simp_all add: tg_resume_def run_handler_def join_handler_def told_def Let_def)

subsection \<open>The invariant of a run\<close>

definition failed_early :: "operation_config \<Rightarrow> driver \<Rightarrow> bool" where
  "failed_early oc s \<longleftrightarrow> oc_failearly oc \<and> (\<exists>t. (t, True) \<in> set (dr_ended s))"

definition tasks_ok :: "driver \<Rightarrow> bool" where
  "tasks_ok s \<longleftrightarrow>
     map task_id (tg_css (dr_tg s)) = filter (\<lambda>t. t \<notin> fst ` set (dr_ended s)) (map fst (dr_started s)) \<and>
     distinct (map fst (dr_started s)) \<and> (\<forall>t \<in> fst ` set (dr_started s). t < tg_next (dr_tg s)) \<and>
     distinct (map fst (dr_ended s)) \<and> fst ` set (dr_ended s) \<subseteq> fst ` set (dr_started s)"

definition dr_base :: "operation_config \<Rightarrow> driver \<Rightarrow> bool" where
  "dr_base oc s \<longleftrightarrow> tg_inv (ucast (oc_parallel_max oc)) (dr_tg s) \<and> tasks_ok s \<and>
     list_all task_admitted (tg_css (dr_tg s)) \<and> dr_ep s = None \<and> (tg_max (dr_tg s) = 0 \<longrightarrow> failed_early oc s)"

definition stopped_ok :: "operation_config \<Rightarrow> request_opt list \<Rightarrow> driver \<Rightarrow> bool" where
  "stopped_ok oc rest s \<longleftrightarrow> rest = [] \<or> dr_signalled s \<or> failed_early oc s"

definition dr_inv :: "gparser \<Rightarrow> operation_config \<Rightarrow> request_opt list \<Rightarrow> driver \<Rightarrow> bool" where
  "dr_inv gparse oc reqs s \<longleftrightarrow> dr_base oc s \<and>
     (\<exists>rest. reqs = map snd (dr_started s) @ rest \<and>
        (case dr_phase s of
           Adapting r \<Rightarrow> waits_for Op_adapt (dr_signalled s) (dr_tg s) \<and>
             (\<exists>outss. list_all2 (info_texts gparse) (dr_gen s) outss \<and> rest = r # all_requests gparse (dr_gen s) outss)
         | Joining \<Rightarrow> waits_for Op_join (dr_signalled s) (dr_tg s) \<and> stopped_ok oc rest s
         | Run_over \<Rightarrow> tg_css (dr_tg s) = [] \<and> stopped_ok oc rest s
         | In_generator \<Rightarrow> False))"

lemma tg_inv_start: "tg_inv mx tg \<Longrightarrow> tg_inv mx (tg_start i k tg)"
  unfolding tg_start_def by (rule tg_inv_run)

lemma tg_inv_resume: "tg_inv mx tg \<Longrightarrow> tg_inv mx (tg_resume i tg)"
  by (auto simp: tg_resume_def tg_inv_run split: option.split op_phase.split)

text \<open>What the base of the invariant depends on.\<close>

lemma dr_base_cong:
  assumes "dr_base oc s" "tg_inv (ucast (oc_parallel_max oc)) (dr_tg s')"
    and "map task_id (tg_css (dr_tg s')) = map task_id (tg_css (dr_tg s))" "tg_max (dr_tg s') = tg_max (dr_tg s)"
    and "tg_next (dr_tg s') \<ge> tg_next (dr_tg s)" "list_all task_admitted (tg_css (dr_tg s'))"
    and "dr_ep s' = None" "dr_started s' = dr_started s" "dr_ended s' = dr_ended s"
  shows "dr_base oc s'"
  using assms unfolding dr_base_def tasks_ok_def failed_early_def by (auto intro: less_le_trans)

lemma begin_join_inv:
  assumes "dr_base oc s" "reqs = map snd (dr_started s) @ rest" "stopped_ok oc rest s"
  shows "dr_inv gparse oc reqs (begin_join s)"
proof -
  let ?s = "begin_join s"
  have "dr_base oc ?s"
    using assms(1) by (intro dr_base_cong [OF assms(1)])
      (auto simp: begin_join_def Let_def dr_base_def intro: tg_inv_start tg_inv_emit)
  moreover have "waits_for Op_join (dr_signalled ?s) (dr_tg ?s)" by (simp add: begin_join_def Let_def waits_for_start)
  ultimately show ?thesis
    using assms(2,3) by (auto simp: dr_inv_def begin_join_def stopped_ok_def failed_early_def Let_def)
qed

lemma pull_inv:
  assumes "dr_base oc s" "list_all2 (info_texts gparse) (dr_gen s) outss"
    and "reqs = map snd (dr_started s) @ all_requests gparse (dr_gen s) outss"
  shows "dr_inv gparse oc reqs (pull gparse s)"
proof -
  from request_opt_gen_step [OF assms(2)] obtain g outss' where g: "list_all2 (info_texts gparse) g outss'"
      "all_requests gparse g outss' = tl (all_requests gparse (dr_gen s) outss)"
      "request_opt_gen gparse (dr_gen s) =
        Some (Inr (case all_requests gparse (dr_gen s) outss of [] \<Rightarrow> None | x # _ \<Rightarrow> Some x, g))" by blast
  show ?thesis
  proof (cases "all_requests gparse (dr_gen s) outss")
    case Nil
    then have "dr_inv gparse oc reqs (begin_join (s\<lparr>dr_gen := g\<rparr>))"
      using assms(1,3) by (intro begin_join_inv [of _ _ _ "[]"])
        (simp_all add: stopped_ok_def dr_base_def tasks_ok_def failed_early_def)
    then show ?thesis using g(3) Nil by (simp add: pull_def)
  next
    case (Cons r rs)
    let ?s = "s\<lparr>dr_gen := g, dr_tg := tg_start 0 Op_adapt (dr_tg s), dr_phase := Adapting r\<rparr>"
    have "dr_base oc ?s"
      using assms(1) by (intro dr_base_cong [OF assms(1)]) (auto simp: dr_base_def intro: tg_inv_start)
    then have "dr_inv gparse oc reqs ?s"
      using g(1,2) Cons assms(3) by (auto simp: dr_inv_def waits_for_start)
    then show ?thesis using g(3) Cons by (simp add: pull_def)
  qed
qed

lemma registered_keeps [simp]:
  "tg_ops (registered i ec tg) i = None" "tg_max (registered i ec tg) = tg_max tg"
  "tg_next (registered i ec tg) = Suc (tg_next tg)" "last (tg_done (registered i ec tg)) = (i, ec)"
  "tg_css (registered i ec tg) =
     tg_css tg @ [\<lparr>task_id = tg_next tg, task_admitted = (ec = Ec_none), task_signalled = False\<rparr>]"
  by (simp_all add: registered_def)

lemma dr_base_ids:
  assumes "dr_base oc s" "x \<in> set (tg_css (dr_tg s))"
  shows "task_id x < tg_next (dr_tg s)"
proof -
  have "task_id x \<in> set (map task_id (tg_css (dr_tg s)))" using assms(2) by simp
  then show ?thesis using assms(1) unfolding dr_base_def tasks_ok_def by force
qed

text \<open>A slot: the transfer is started and the loop goes on.\<close>

lemma admitted_base:
  assumes "dr_base oc s" "tg_inv (ucast (oc_parallel_max oc)) (registered 0 Ec_none (dr_tg s))"
  shows "dr_base oc (s\<lparr>dr_tg := registered 0 Ec_none (dr_tg s), dr_started := dr_started s @ [(tg_next (dr_tg s), r)]\<rparr>)"
proof -
  have "tg_next (dr_tg s) \<notin> fst ` set (dr_started s)" "fst ` set (dr_ended s) \<subseteq> fst ` set (dr_started s)"
    using assms(1) unfolding dr_base_def tasks_ok_def by auto
  then have "tg_next (dr_tg s) \<notin> fst ` set (dr_started s)" "tg_next (dr_tg s) \<notin> fst ` set (dr_ended s)" by auto
  then show ?thesis
    using assms unfolding dr_base_def tasks_ok_def failed_early_def by (auto simp: less_Suc_eq)
qed

text \<open>An error: what was registered is removed again.\<close>

lemma refused_base:
  assumes "dr_base oc s" "tg_inv (ucast (oc_parallel_max oc)) (registered 0 ec (dr_tg s))"
  shows "dr_base oc (s\<lparr>dr_tg := tg_remove (tg_next (dr_tg s)) (registered 0 ec (dr_tg s))\<rparr>)"
proof -
  have css: "filter (\<lambda>x. task_id x \<noteq> tg_next (dr_tg s)) (tg_css (dr_tg s)) = tg_css (dr_tg s)"
    using dr_base_ids [OF assms(1)] by (fastforce simp: filter_id_conv)
  show ?thesis
    using assms(1) by (intro dr_base_cong [OF assms(1)])
      (auto simp: css dr_base_def intro: tg_inv_remove [OF assms(2)])
qed

lemma on_resume_adapting:
  assumes "dr_inv gparse oc reqs s" "dr_phase s = Adapting r" "tg_ops (dr_tg s) 0 = Some p" "op_phase p \<noteq> On_timer"
  shows "dr_inv gparse oc reqs (on_resume gparse s)"
proof -
  let ?tg = "dr_tg s" and ?ec = "adapt_result (dr_tg s) p"
  from assms obtain outss where base: "dr_base oc s"
    and p: "op_kind p = Op_adapt" "op_scheduled p" "op_cancelled p \<longrightarrow> dr_signalled s"
      "op_phase p \<in> {Posted Ec_none, Posted Ec_aborted}"
    and gen: "list_all2 (info_texts gparse) (dr_gen s) outss"
      "reqs = map snd (dr_started s) @ r # all_requests gparse (dr_gen s) outss"
    by (auto simp: dr_inv_def waits_for_def)
  note res = tg_resume_adapt [OF assms(3) p(1,2,4)]
  have inv: "tg_inv (ucast (oc_parallel_max oc)) (tg_resume 0 ?tg)" using base tg_inv_resume by (auto simp: dr_base_def)
  show ?thesis
  proof (cases "?ec = Ec_none \<and> unat (tg_max ?tg) \<le> length (tg_css ?tg)")
    case True
    let ?s = "s\<lparr>dr_tg := ?tg\<lparr>tg_ops := (tg_ops ?tg)(0 \<mapsto> p\<lparr>op_scheduled := True, op_phase := On_timer\<rparr>)\<rparr>\<rparr>"
    have "dr_base oc ?s"
      using base inv res True by (intro dr_base_cong [OF base]) (auto simp: dr_base_def)
    moreover have "waits_for Op_adapt (dr_signalled s) (dr_tg ?s)" using p(1,3) by (simp add: waits_for_def)
    ultimately have "dr_inv gparse oc reqs ?s" using gen assms(2) by (auto simp: dr_inv_def)
    then show ?thesis using res True by (simp add: on_resume_def Let_def)
  next
    case False
    then have reg: "tg_resume 0 ?tg = registered 0 ?ec ?tg" using res by presburger
    show ?thesis
    proof (cases "?ec = Ec_none")
      case True
      have "dr_base oc (s\<lparr>dr_tg := registered 0 Ec_none ?tg, dr_started := dr_started s @ [(tg_next ?tg, r)]\<rparr>)"
        using admitted_base [OF base] inv unfolding reg True .
      from pull_inv [OF this] show ?thesis
        using gen reg True assms(2) by (simp add: on_resume_def Let_def)
    next
      case not_ok: False
      then have "stopped_ok oc (r # all_requests gparse (dr_gen s) outss) s"
        using base p(3) by (auto simp: adapt_result_def stopped_ok_def dr_base_def split: if_splits)
      with begin_join_inv [OF refused_base [OF base inv [unfolded reg]], of reqs] show ?thesis
        using gen(2) reg not_ok assms(2) by (simp add: on_resume_def Let_def stopped_ok_def failed_early_def)
    qed
  qed
qed

lemma on_resume_joining:
  assumes "dr_inv gparse oc reqs s" "dr_phase s = Joining" "tg_ops (dr_tg s) 0 = Some p" "op_phase p \<noteq> On_timer"
  shows "dr_inv gparse oc reqs (on_resume gparse s)"
proof -
  let ?tg = "dr_tg s"
  from assms obtain rest where base: "dr_base oc s" and p: "op_kind p = Op_join" "op_scheduled p"
    and rest: "reqs = map snd (dr_started s) @ rest" "stopped_ok oc rest s"
    by (auto simp: dr_inv_def waits_for_def)
  note res = tg_resume_join [OF assms(3) p assms(4)]
  have "dr_base oc (s\<lparr>dr_tg := tg_resume 0 ?tg\<rparr>)"
  proof (rule dr_base_cong [OF base])
    show "tg_inv (ucast (oc_parallel_max oc)) (dr_tg (s\<lparr>dr_tg := tg_resume 0 ?tg\<rparr>))"
      using base by (simp add: dr_base_def tg_inv_resume)
  qed (use base in \<open>simp_all add: res dr_base_def\<close>)
  then have "dr_base oc (on_resume gparse s)"
    using assms(2) by (simp add: on_resume_def Let_def dr_base_def tasks_ok_def failed_early_def)
  then show ?thesis
    using rest assms(2) p by (cases "tg_css ?tg = []")
      (simp_all add: on_resume_def Let_def dr_inv_def res waits_for_def stopped_ok_def failed_early_def)
qed

lemma on_transfer_end_inv:
  assumes "dr_inv gparse oc reqs s" "t \<in> task_id ` set (tg_css (dr_tg s))"
  shows "dr_inv gparse oc reqs (on_transfer_end oc t threw s)"
proof -
  let ?closes = "threw \<and> oc_failearly oc"
  let ?tg = "if ?closes then tg_emit (tg_close (dr_tg s)) else dr_tg s"
  let ?s = "on_transfer_end oc t threw s"
  have base: "dr_base oc s" using assms(1) by (simp add: dr_inv_def)
  have ids: "map task_id (tg_css ?tg) = map task_id (tg_css (dr_tg s))" by simp
  have running: "t \<in> fst ` set (dr_started s)" "t \<notin> fst ` set (dr_ended s)"
  proof -
    have "t \<in> set (map task_id (tg_css (dr_tg s)))" using assms(2) by simp
    then show "t \<in> fst ` set (dr_started s)" "t \<notin> fst ` set (dr_ended s)"
      using base unfolding dr_base_def tasks_ok_def by auto
  qed
  have "map task_id (tg_css (tg_remove t ?tg)) = filter (\<lambda>x. x \<noteq> t) (map task_id (tg_css ?tg))"
    by (simp add: filter_map comp_def)
  then have "tasks_ok ?s"
    using base running unfolding dr_base_def tasks_ok_def ids on_transfer_end_def Let_def
    by (auto simp: conj_commute intro: filter_cong)
  moreover have "tg_inv (ucast (oc_parallel_max oc)) (tg_remove t ?tg)"
    using base by (intro tg_inv_remove) (auto simp: dr_base_def intro: tg_inv_emit tg_inv_close)
  moreover have "list_all task_admitted (tg_css (tg_remove t ?tg))"
  proof -
    have "list_all task_admitted (tg_css ?tg)" using base by (simp add: dr_base_def)
    then show ?thesis by (auto simp: list_all_iff)
  qed
  ultimately have "dr_base oc ?s"
    using base by (auto simp: dr_base_def on_transfer_end_def failed_early_def Let_def)
  moreover have "waits_for k b ?tg" if "waits_for k b (dr_tg s)" for k b using that by (simp add: waits_for_close)
  ultimately show ?thesis
    using assms unfolding dr_inv_def
    by (auto simp: on_transfer_end_def waits_for_remove stopped_ok_def failed_early_def Let_def split: run_phase.splits)
qed

lemma on_signal_inv:
  assumes "dr_inv gparse oc reqs s"
  shows "dr_inv gparse oc reqs (on_signal s)"
proof -
  have base: "dr_base oc s" using assms by (simp add: dr_inv_def)
  have "dr_base oc (on_signal s)"
    using base by (intro dr_base_cong [OF base]) (auto simp: on_signal_def dr_base_def intro: tg_inv_cancel)
  then show ?thesis
    using assms by (auto simp: dr_inv_def on_signal_def stopped_ok_def intro: waits_for_cancel split: run_phase.splits)
qed

lemma run_step_inv:
  assumes "dr_inv gparse oc reqs s" "run_step gparse oc s e = Some s'"
  shows "dr_inv gparse oc reqs s'"
proof (cases e)
  case Resumed
  then obtain p where p: "tg_ops (dr_tg s) 0 = Some p" "dr_busy s" "op_phase p \<noteq> On_timer" "s' = on_resume gparse s"
    using assms(2) by (auto split: option.splits if_splits)
  then show ?thesis
    using on_resume_adapting [OF assms(1) _ p(1,3)] on_resume_joining [OF assms(1) _ p(1,3)]
    by (cases "dr_phase s") (auto simp: dr_busy_def)
next
  case (Transfer_ended t now as)
  then show ?thesis
    using assms on_transfer_end_inv [OF assms(1)] by (auto split: if_splits retry_end.splits)
qed (use assms on_signal_inv in \<open>auto split: if_splits\<close>)

text \<open>The maximum is widened from 16 to 32 bits.\<close>

lemma unat_widened: "unat (ucast (n :: u16) :: u32) = unat n"
  by transfer (simp add: take_bit_take_bit)

lemma widened_zero: "(ucast (n :: u16) :: u32) = 0 \<longleftrightarrow> n = 0"
  using unat_widened [of n] by (metis unat_eq_zero)

lemma run_begin_inv:
  assumes "list_all2 (info_texts gparse) rs outss" "oc_parallel_max oc \<noteq> 0"
  shows "dr_inv gparse oc (all_requests gparse rs outss) (run_begin gparse oc rs)"
proof -
  have "tg_max (tg_new (ucast (oc_parallel_max oc))) \<noteq> 0" using assms(2) by (simp add: tg_new_def widened_zero)
  then show ?thesis
    unfolding run_begin_def using assms(1) tg_inv_new
    by (intro pull_inv) (auto simp: dr_base_def tasks_ok_def tg_new_def)
qed

subsection \<open>A run comes to an end\<close>

definition op_weight :: "task_group \<Rightarrow> nat" where
  "op_weight tg = (case tg_ops tg 0 of Some p \<Rightarrow> if op_phase p = On_timer then 0 else 1 | None \<Rightarrow> 0)"

definition run_left :: "request_opt list \<Rightarrow> driver \<Rightarrow> nat" where
  "run_left reqs s =
     (if dr_busy s
      then 1 + (if dr_phase s = Joining then 0 else 4 * (length reqs - length (dr_started s))) +
        2 * length (tg_css (dr_tg s)) + (if dr_signalled s then 0 else 2) + op_weight (dr_tg s)
      else 0)"

lemma op_weight_le: "op_weight tg \<le> Suc 0"
  by (simp add: op_weight_def split: option.split)

lemma begin_join_left:
  "run_left reqs (begin_join s) \<le> 2 + 2 * length (tg_css (dr_tg s)) + (if dr_signalled s then 0 else 2)"
  by (simp add: run_left_def begin_join_def dr_busy_def op_weight_le Let_def)

lemma pull_left:
  "run_left reqs (pull gparse s) \<le> 2 + 4 * (length reqs - length (dr_started s)) + 2 * length (tg_css (dr_tg s)) +
     (if dr_signalled s then 0 else 2)"
proof -
  have "run_left reqs (begin_join s') \<le> 2 + 4 * (length reqs - length (dr_started s)) + 2 * length (tg_css (dr_tg s)) +
      (if dr_signalled s then 0 else 2)" if "dr_tg s' = dr_tg s" "dr_signalled s' = dr_signalled s" for s'
    using begin_join_left [of reqs s'] that by simp
  then show ?thesis by (auto simp: pull_def run_left_def [of _ "_\<lparr>dr_phase := _\<rparr>"] dr_busy_def op_weight_le split: option.split sum.split)
qed

text \<open>Waking the operation costs less than the completion that does it brings.\<close>

lemma tg_remove_shorter:
  "t \<in> task_id ` set (tg_css tg) \<Longrightarrow> length (tg_css (tg_remove t tg)) < length (tg_css tg)"
  by (auto intro: length_filter_less)

lemma on_transfer_end_left:
  assumes "dr_busy s" "t \<in> task_id ` set (tg_css (dr_tg s))"
  shows "run_left reqs (on_transfer_end oc t threw s) < run_left reqs s"
proof -
  define tg where "tg = (if threw \<and> oc_failearly oc then tg_emit (tg_close (dr_tg s)) else dr_tg s)"
  have "map task_id (tg_css tg) = map task_id (tg_css (dr_tg s))" by (simp add: tg_def)
  then have "length (tg_css tg) = length (tg_css (dr_tg s))" "task_id ` set (tg_css tg) = task_id ` set (tg_css (dr_tg s))"
    by (metis length_map, metis image_set)
  then have "length (tg_css (tg_remove t tg)) < length (tg_css (dr_tg s))" using tg_remove_shorter [of t tg] assms(2) by simp
  moreover have "op_weight (tg_remove t tg) \<le> 1" by (simp add: op_weight_le)
  ultimately show ?thesis
    using assms(1) by (simp add: run_left_def on_transfer_end_def dr_busy_def tg_def [symmetric] Let_def del: tg_remove_keeps)
qed

lemma on_signal_left: "dr_busy s \<Longrightarrow> \<not> dr_signalled s \<Longrightarrow> run_left reqs (on_signal s) < run_left reqs s"
  using op_weight_le [of "tg_cancel 0 (dr_tg s)"] by (simp add: run_left_def on_signal_def dr_busy_def)

lemma on_resume_left:
  assumes "dr_inv gparse oc reqs s" "dr_busy s" "tg_ops (dr_tg s) 0 = Some p" "op_phase p \<noteq> On_timer"
  shows "run_left reqs (on_resume gparse s) < run_left reqs s"
proof -
  have w: "op_weight (dr_tg s) = 1" using assms(3,4) by (simp add: op_weight_def)
  show ?thesis
  proof (cases "dr_phase s")
    case (Adapting r)
    from assms Adapting have p: "op_kind p = Op_adapt" "op_scheduled p" "op_phase p \<in> {Posted Ec_none, Posted Ec_aborted}"
      and l: "length reqs > length (dr_started s)"
      by (auto simp: dr_inv_def waits_for_def)
    note res = tg_resume_adapt [OF assms(3) p]
    show ?thesis
    proof (cases "tg_ops (tg_resume 0 (dr_tg s)) 0")
      case None
      then have reg: "tg_resume 0 (dr_tg s) = registered 0 (adapt_result (dr_tg s) p) (dr_tg s)"
        using res by (auto split: if_splits)
      have left: "run_left reqs s = 2 + 4 * (length reqs - length (dr_started s)) + 2 * length (tg_css (dr_tg s)) +
          (if dr_signalled s then 0 else 2)"
        using Adapting assms(2) w by (simp add: run_left_def)
      show ?thesis
      proof (cases "adapt_result (dr_tg s) p = Ec_none")
        case True
        let ?s = "s\<lparr>dr_tg := registered 0 Ec_none (dr_tg s), dr_started := dr_started s @ [(tg_next (dr_tg s), r)]\<rparr>"
        have "on_resume gparse s = pull gparse ?s" using reg True Adapting by (simp add: on_resume_def Let_def)
        then show ?thesis using pull_left [of reqs gparse ?s] l left by simp
      next
        case False
        define s1 where "s1 = s\<lparr>dr_tg := tg_remove (tg_next (dr_tg s)) (registered 0 (adapt_result (dr_tg s) p) (dr_tg s))\<rparr>"
        have "length (tg_css (dr_tg s1)) \<le> length (tg_css (dr_tg s))" "dr_signalled s1 = dr_signalled s"
          by (simp_all add: s1_def)
        moreover have "on_resume gparse s = begin_join s1" using reg False Adapting by (simp add: on_resume_def s1_def Let_def)
        ultimately show ?thesis using begin_join_left [of reqs s1] l left by simp
      qed
    next
      case (Some q)
      then show ?thesis using res w Adapting by (auto simp: on_resume_def run_left_def dr_busy_def op_weight_def Let_def split: if_splits)
    qed
  next
    case Joining
    from assms Joining have p: "op_kind p = Op_join" "op_scheduled p" by (auto simp: dr_inv_def waits_for_def)
    show ?thesis
      using tg_resume_join [OF assms(3) p assms(4)] w Joining
      by (auto simp: on_resume_def run_left_def dr_busy_def op_weight_def Let_def)
  qed (use assms(2) in \<open>simp_all add: dr_busy_def\<close>)
qed

lemma run_step_left:
  "dr_inv gparse oc reqs s \<Longrightarrow> run_step gparse oc s e = Some s' \<Longrightarrow> run_left reqs s' < run_left reqs s"
  by (cases e) (auto simp: on_resume_left on_transfer_end_left on_signal_left split: option.splits if_splits retry_end.splits)

text \<open>Whoever waits, waits for a running transfer.\<close>

lemma run_enabled:
  assumes "dr_inv gparse oc reqs s" "dr_phase s \<noteq> Run_over"
  shows "\<exists>e. run_step gparse oc s e \<noteq> None"
proof -
  from assms have busy: "dr_busy s" and inv: "tg_inv (ucast (oc_parallel_max oc)) (dr_tg s)"
    by (auto simp: dr_inv_def dr_busy_def dr_base_def split: run_phase.splits)
  from assms obtain p where p: "tg_ops (dr_tg s) 0 = Some p"
    by (cases "dr_phase s") (auto simp: dr_inv_def waits_for_def)
  show ?thesis
  proof (cases "op_phase p = On_timer")
    case True
    then have "op_blocked (dr_tg s) p" using inv p by (auto simp: tg_inv_def)
    then have "tg_css (dr_tg s) \<noteq> []" by (cases "op_kind p") (auto simp: op_blocked_def unat_eq_zero)
    then obtain x where x: "x \<in> set (tg_css (dr_tg s))" by (cases "tg_css (dr_tg s)") auto
    have "fst (retry oc 0 [\<lparr>at_result = Att_status 200, at_now = 0, at_cancelled = False\<rparr>]) = Retry_returned"
      by (simp add: retry_def retry_stop_def is_transient_error_def)
    then have "run_step gparse oc s
        (Transfer_ended (task_id x) 0 [\<lparr>at_result = Att_status 200, at_now = 0, at_cancelled = False\<rparr>]) \<noteq> None"
      using busy x by simp
    then show ?thesis by blast
  next
    case False
    then have "run_step gparse oc s Resumed \<noteq> None" using busy p by simp
    then show ?thesis by blast
  qed
qed

interpretation runs: completion_system "run_step gparse oc" "run_steps gparse oc" "dr_inv gparse oc reqs" "run_left reqs"
    "\<lambda>s. dr_phase s = Run_over" for gparse oc reqs
proof unfold_locales
  show "\<exists>e. run_step gparse oc s e \<noteq> None" if "dr_inv gparse oc reqs s" "dr_phase s \<noteq> Run_over" for s
    using that by (rule run_enabled)
qed (auto split: option.split intro: run_step_inv run_step_left)

subsection \<open>What a run does\<close>

lemma running_count:
  assumes "dr_base oc s"
  shows "length (dr_started s) = length (dr_ended s) + length (tg_css (dr_tg s))"
proof -
  let ?e = "fst ` set (dr_ended s)" and ?st = "map fst (dr_started s)"
  have t: "map task_id (tg_css (dr_tg s)) = filter (\<lambda>t. t \<notin> ?e) ?st" "distinct ?st" "distinct (map fst (dr_ended s))"
      "?e \<subseteq> fst ` set (dr_started s)"
    using assms by (simp_all add: dr_base_def tasks_ok_def)
  have "set (filter (\<lambda>t. t \<in> ?e) ?st) = ?e" using t(4) by auto
  then have "length (filter (\<lambda>t. t \<in> ?e) ?st) = card ?e" using t(2) by (metis distinct_card distinct_filter)
  also have "\<dots> = length (dr_ended s)" using distinct_card [OF t(3)] by simp
  finally have "length (filter (\<lambda>t. t \<in> ?e) ?st) = length (dr_ended s)" .
  moreover have "length (tg_css (dr_tg s)) = length (filter (\<lambda>t. t \<notin> ?e) ?st)" using t(1) by (metis length_map)
  ultimately show ?thesis using sum_length_filter_compl [of "\<lambda>t. t \<in> ?e" ?st] by simp
qed

lemma run_limit:
  assumes "dr_base oc s"
  shows "length (tg_css (dr_tg s)) \<le> unat (oc_parallel_max oc)"
proof -
  have "filter task_admitted (tg_css (dr_tg s)) = tg_css (dr_tg s)"
    using assms by (simp add: dr_base_def list_all_iff filter_id_conv)
  then show ?thesis using assms by (simp add: dr_base_def tg_inv_def tg_running_def unat_widened)
qed

text \<open>
  The transfers of a run: in every interleaving of the loop, the transfers and a signal, the
  requests are started in the order of the generator and none twice, at most \<^verbatim>\<open>parallel_max\<close>
  transfers run at once, and the run is over only when all that were started have ended.  Unless
  the user interrupts it or a transfer fails under \<^verbatim>\<open>--fail-early\<close>, every request was started then.
\<close>

lemma run_transfers:
  assumes "list_all2 (info_texts gparse) rs outss" "oc_parallel_max oc \<noteq> 0"
    and "run_steps gparse oc (run_begin gparse oc rs) es = Some s"
  shows "distinct (map fst (dr_started s)) \<and>
    length (dr_started s) \<le> length (dr_ended s) + unat (oc_parallel_max oc) \<and>
    (\<exists>rest. all_requests gparse rs outss = map snd (dr_started s) @ rest \<and>
      (dr_phase s = Run_over \<longrightarrow>
         distinct (map fst (dr_ended s)) \<and> fst ` set (dr_ended s) = fst ` set (dr_started s) \<and>
         (rest = [] \<or> dr_signalled s \<or> oc_failearly oc \<and> (\<exists>t. (t, True) \<in> set (dr_ended s)))))"
proof -
  have inv: "dr_inv gparse oc (all_requests gparse rs outss) s"
    by (rule runs.run_inv [OF assms(3) run_begin_inv [OF assms(1,2)]])
  then have base: "dr_base oc s" by (simp add: dr_inv_def)
  have t: "tasks_ok s" using base by (simp add: dr_base_def)
  have "fst ` set (dr_ended s) = fst ` set (dr_started s)" if "tg_css (dr_tg s) = []"
  proof -
    have "filter (\<lambda>t. t \<notin> fst ` set (dr_ended s)) (map fst (dr_started s)) = []" using t that by (simp add: tasks_ok_def)
    then have "fst ` set (dr_started s) \<subseteq> fst ` set (dr_ended s)" by (auto simp: filter_empty_conv)
    then show ?thesis using t by (auto simp: tasks_ok_def)
  qed
  moreover obtain rest where "all_requests gparse rs outss = map snd (dr_started s) @ rest"
      "dr_phase s = Run_over \<Longrightarrow> tg_css (dr_tg s) = [] \<and> stopped_ok oc rest s"
    using inv by (cases "dr_phase s") (auto simp: dr_inv_def)
  moreover have "distinct (map fst (dr_started s))" "distinct (map fst (dr_ended s))" using t by (simp_all add: tasks_ok_def)
  moreover have "length (dr_started s) \<le> length (dr_ended s) + unat (oc_parallel_max oc)"
    using running_count [OF base] run_limit [OF base] by simp
  ultimately show ?thesis unfolding stopped_ok_def failed_early_def by blast
qed

text \<open>
  A run comes to an end: no execution has more than four completions for each request and four
  more; as long as it is not over a completion is outstanding, so no slot and no join is waited
  for in vain; and it can be brought to its end from wherever it is.
\<close>

lemma run_comes_to_end:
  assumes "list_all2 (info_texts gparse) rs outss" "oc_parallel_max oc \<noteq> 0"
    and "run_steps gparse oc (run_begin gparse oc rs) es = Some s"
  shows "length es \<le> 4 * length (all_requests gparse rs outss) + 4 \<and>
    (dr_phase s = Run_over \<or> (\<exists>e. run_step gparse oc s e \<noteq> None)) \<and>
    (\<exists>es' s'. run_steps gparse oc s es' = Some s' \<and> dr_phase s' = Run_over)"
proof -
  let ?reqs = "all_requests gparse rs outss"
  note start = run_begin_inv [OF assms(1,2)]
  have "run_left ?reqs (run_begin gparse oc rs) \<le> 4 * length ?reqs + 4"
    unfolding run_begin_def by (rule order_trans [OF pull_left]) (simp add: tg_new_def)
  then have "length es \<le> 4 * length ?reqs + 4" using runs.bounded [OF assms(3) start] by simp
  moreover have "dr_phase s = Run_over \<or> (\<exists>e. run_step gparse oc s e \<noteq> None)"
    by (rule runs.not_stuck [OF assms(3) start])
  moreover have "\<exists>es' s'. run_steps gparse oc s es' = Some s' \<and> dr_phase s' = Run_over"
    by (rule runs.can_finish [OF runs.run_inv [OF assms(3) start]])
  ultimately show ?thesis by blast
qed

text \<open>
  C32. The status of the program does not tell of failed transfers: whichever transfers threw, and
  also under \<^verbatim>\<open>--fail-early\<close>, a run whose requests could be generated returns success unless the
  cookie jar cannot be written.
\<close>

theorem run_status:
  assumes "list_all2 (info_texts gparse) rs outss" "oc_parallel_max oc \<noteq> 0"
    and "run_steps gparse oc (run_begin gparse oc rs) es = Some s"
  shows "burl_exit oc s jar w = (case write_jar oc jar w of (e, w') \<Rightarrow> (if e = None then 0 else 1, w'))"
proof -
  have "dr_inv gparse oc (all_requests gparse rs outss) s"
    by (rule runs.run_inv [OF assms(3) run_begin_inv [OF assms(1,2)]])
  then have "dr_ep s = None" by (simp add: dr_inv_def dr_base_def)
  then show ?thesis by (auto simp: burl_exit_def finish_run_def main_status_def split: prod.split option.split)
qed

subsection \<open>An example\<close>

text \<open>One request under \<^verbatim>\<open>--fail-early\<close>, whose transfer throws.\<close>

definition ex_infos :: "request_info list" where
  "ex_infos = [\<lparr>ri_url_gen = Oneshot (Some ''a''), ri_output = [], ri_input = [], ri_remotename = False\<rparr>]"

definition ex_early :: operation_config where
  "ex_early = operation_config_default\<lparr>oc_failearly := True\<rparr>"

definition ex_run :: "run_event list" where
  "ex_run = [Resumed,
     Transfer_ended 0 0 [\<lparr>at_result = Att_exception (runtime_error ''x''), at_now = 0, at_cancelled = False\<rparr>], Resumed]"

lemma ex_infos_texts: "list_all2 (info_texts ref_gparse) ex_infos [[\<lparr>gr_result = ''a'', gr_tokens = []\<rparr>]]"
  and ex_early_max: "oc_parallel_max ex_early \<noteq> 0"
  and ex_infos_gen: "request_opt_gen ref_gparse ex_infos =
    Some (Inr (Some \<lparr>ro_url = ''a'', ro_output = [], ro_input = [], ro_remotename = False\<rparr>,
      [(hd ex_infos)\<lparr>ri_url_gen := Oneshot None\<rparr>]))"
proof -
  have i: "interpolate ref_gparse [] [] = Inr []"
    by (simp add: interpolate_def ref_gparse_def interpolate_rule_def ref_range.simps Let_def mk_tuple_def)
  show "list_all2 (info_texts ref_gparse) ex_infos [[\<lparr>gr_result = ''a'', gr_tokens = []\<rparr>]]"
    "oc_parallel_max ex_early \<noteq> 0"
    by (simp_all add: ex_infos_def info_texts_def url_texts_def i ex_early_def operation_config_default_def)
  show "request_opt_gen ref_gparse ex_infos =
    Some (Inr (Some \<lparr>ro_url = ''a'', ro_output = [], ro_input = [], ro_remotename = False\<rparr>,
      [(hd ex_infos)\<lparr>ri_url_gen := Oneshot None\<rparr>]))"
    using i by (simp add: ex_infos_def url_gen_call_def)
qed

lemma ex_runs:
  "\<exists>s. run_steps ref_gparse ex_early (run_begin ref_gparse ex_early ex_infos) ex_run = Some s \<and>
     dr_phase s = Run_over \<and> dr_ended s = [(0, True)] \<and> \<not> dr_signalled s"
proof -
  have m: "oc_parallel_max ex_early = 1" "oc_failearly ex_early" by (simp_all add: ex_early_def operation_config_default_def)
  show ?thesis
    unfolding run_begin_def ex_run_def
    by (simp add: pull_def ex_infos_gen url_gen_call_def m tg_new_def tg_start_adapt dr_busy_def on_resume_def tg_resume_adapt adapt_result_def
        registered_def begin_join_def tg_start_join retry_def retry_stop_def on_transfer_end_def tg_emit_def tg_close_def cv_cancel_def
        tg_remove_def wake_op_def tg_resume_join told_def Let_def)
qed

theorem run_status_witness:
  "\<exists>s. run_steps ref_gparse ex_early (run_begin ref_gparse ex_early ex_infos) ex_run = Some s \<and>
     (0, True) \<in> set (dr_ended s) \<and> burl_exit ex_early s None ex_world = (0, ex_world)"
proof -
  obtain s where s: "run_steps ref_gparse ex_early (run_begin ref_gparse ex_early ex_infos) ex_run = Some s"
      "dr_ended s = [(0, True)]"
    using ex_runs by blast
  then show ?thesis using run_status [OF ex_infos_texts ex_early_max s(1)] by (auto simp: write_jar_def)
qed

end
