(* ===== verification/Jsonrpc.thy ===== *)
theory Jsonrpc
  imports Connect
begin

text \<open>
  The JSON-RPC client of the examples (\<^verbatim>\<open>jsonrpc/client.hpp\<close>, \<^verbatim>\<open>jsonrpc/client.cpp\<close> and the error
  headers beside them): the HTTP request it keeps, the numbering of calls, the connection with or
  without TLS, the request object that is sent and what is made of the answer.  Boost.JSON's
  parser and serializer and the conversion of a value to the type of a result are parameters.
\<close>

subsection \<open>JSON values\<close>

datatype json =
    JNull
  | JBool bool
  | JInt64 int
  | JUint64 nat
  | JDouble int int
  | JString string
  | JArray "json list"
  | JObject "(string \<times> json) list"

type_synonym json_object = "(string \<times> json) list"

definition if_contains :: "string \<Rightarrow> json_object \<Rightarrow> json option" where
  "if_contains k obj = map_of obj k"

text \<open>Comparing a value with a string and with an unsigned number: numbers are compared by value
  when both are integers.\<close>

definition json_eq_string :: "json \<Rightarrow> string \<Rightarrow> bool" where
  "json_eq_string v s = (case v of JString t \<Rightarrow> t = s | _ \<Rightarrow> False)"

definition json_eq_uint64 :: "json \<Rightarrow> u64 \<Rightarrow> bool" where
  "json_eq_uint64 v n =
     (case v of
        JInt64 i \<Rightarrow> i \<ge> 0 \<and> nat i = unat n
      | JUint64 m \<Rightarrow> m = unat n
      | _ \<Rightarrow> False)"

subsection \<open>Errors\<close>

datatype errc =
    version_error | id_mismatch | invalid_response | parse_error | invalid_request
  | method_not_found | invalid_params | internal_error | server_error

text \<open>The numbers of the enumeration; the first enumerator is zero.\<close>

primrec errc_value :: "errc \<Rightarrow> int" where
  "errc_value version_error = 0"
| "errc_value id_mismatch = 1"
| "errc_value invalid_response = 2"
| "errc_value parse_error = 3"
| "errc_value invalid_request = 4"
| "errc_value method_not_found = 5"
| "errc_value invalid_params = 6"
| "errc_value internal_error = 7"
| "errc_value server_error = 8"

definition make_error_code :: "errc \<Rightarrow> error_code" where
  "make_error_code ev = \<lparr>ec_value = errc_value ev, ec_category = ''jsonrpc''\<rparr>"

definition errc_message :: "int \<Rightarrow> string" where
  "errc_message code =
     (if code = errc_value version_error then ''The response object is not JSON-RPC version 2.0''
      else if code = errc_value id_mismatch then ''The response object has a different ID than the request''
      else if code = errc_value invalid_response then ''The received body does not contain a valid response object''
      else if code = errc_value parse_error then ''Invalid JSON was received by the server''
      else if code = errc_value invalid_request then ''The JSON sent is not a valid Request object''
      else if code = errc_value method_not_found then ''The method does not exist''
      else if code = errc_value invalid_params then ''Invalid method parameter(s)''
      else if code = errc_value internal_error then ''Internal JSON-RPC error''
      else if code = errc_value server_error then ''Server error''
      else ''unknown'')"

record rpc_error =
  re_code :: error_code
  re_info :: json_object

definition rpc_error_of :: "errc \<Rightarrow> rpc_error" where
  "rpc_error_of ev = \<lparr>re_code = make_error_code ev, re_info = []\<rparr>"

text \<open>What the coroutine adapters make of an error: nothing, or an exception whose text is the
  serialized error object when the server sent one.\<close>

definition to_exception_ptr :: "(json \<Rightarrow> string) \<Rightarrow> rpc_error \<Rightarrow> (error_code \<times> string option) option" where
  "to_exception_ptr serialize e =
     (if \<not> ec_failed (re_code e) then None
      else if re_info e = [] then Some (re_code e, None)
      else Some (re_code e, Some (serialize (JObject (re_info e)))))"

subsection \<open>The connection\<close>

text \<open>Resolving, connecting and, for https, the handshake with the server's name.\<close>

definition rpc_connect :: "url_view \<Rightarrow> ('rq, unit) awaitable" where
  "rpc_connect endpoint =
     (let host = u_host endpoint;
          port = (if u_has_port endpoint then u_port endpoint else u_scheme endpoint);
          needs_handshake = (u_scheme_id endpoint = scheme_https) in
      co_bind (async_resolve host port) (\<lambda>results.
      co_bind (async_connect (\<lambda>_. True) results) (\<lambda>_.
      if \<not> needs_handshake then co_return () else perform_tls_handshake host)))"

text \<open>The stream remembers whether it is secure; every read and write goes to the layer that
  belongs to it.  Connecting sets the flag first.\<close>

record rpc_stream =
  rp_secure :: bool

definition stream_connect :: "url_view \<Rightarrow> rpc_stream \<Rightarrow> ('rq, rpc_stream) awaitable" where
  "stream_connect endpoint st =
     (let st1 = st\<lparr>rp_secure := (u_scheme_id endpoint = scheme_https)\<rparr> in
      co_bind (rpc_connect endpoint) (\<lambda>_. co_return st1))"

definition stream_write_layer :: "rpc_stream \<Rightarrow> stream_layer" where
  "stream_write_layer st = (if rp_secure st then Tls_layer else Tcp_layer)"

definition stream_read_layer :: "rpc_stream \<Rightarrow> stream_layer" where
  "stream_read_layer st = (if rp_secure st then Tls_layer else Tcp_layer)"

text \<open>Shutting down: TLS closes its session; a plain socket is shut down and, if that worked,
  closed.  The arguments are what the library reports.\<close>

definition tcp_shutdown :: "error_code \<Rightarrow> error_code \<Rightarrow> error_code \<times> bool" where
  "tcp_shutdown shutdown_ec close_ec =
     (if \<not> ec_failed shutdown_ec then (close_ec, True) else (shutdown_ec, False))"

definition stream_shutdown ::
    "error_code \<Rightarrow> error_code \<Rightarrow> error_code \<Rightarrow> rpc_stream \<Rightarrow> error_code" where
  "stream_shutdown tls_ec shutdown_ec close_ec st =
     (if rp_secure st then tls_ec else fst (tcp_shutdown shutdown_ec close_ec))"

subsection \<open>The client\<close>

record 'rq rpc_client =
  cl_endpoint :: url_view
  cl_req :: 'rq
  cl_id :: u64

definition client_new :: "'rq request_ops \<Rightarrow> bool \<Rightarrow> bool \<Rightarrow> url_view \<Rightarrow> 'rq rpc_client" where
  "client_new ops brotli zlib endpoint =
     (let r0 = q_set_target ops ''/'' (q_set_method ops ''POST'' (q_new ops));
          r1 = (if u_target endpoint \<noteq> [] then q_set_target ops (u_target endpoint) r0 else r0);
          r2 = q_append ops ''Host'' (u_host_and_port endpoint) r1;
          r3 = q_append ops ''Content-Type'' ''application/json'' r2;
          r4 = q_append ops ''Accept'' ''application/json'' r3;
          r5 = q_append ops ''User-Agent'' ''Boost.Http.Io'' r4;
          r6 = (if brotli then q_append ops ''Accept-Encoding'' ''br'' r5 else r5);
          r7 = (if zlib then q_append ops ''Accept-Encoding'' ''deflate, gzip'' r6 else r6) in
      \<lparr>cl_endpoint = endpoint, cl_req = r7, cl_id = 0\<rparr>)"

definition next_id :: "'rq rpc_client \<Rightarrow> u64 \<times> 'rq rpc_client" where
  "next_id c = (let n = cl_id c + 1 in (n, c\<lparr>cl_id := n\<rparr>))"

definition request_object :: "string \<Rightarrow> json \<Rightarrow> u64 \<Rightarrow> json" where
  "request_object meth params n =
     JObject [(''jsonrpc'', JString ''2.0''), (''method'', JString meth), (''params'', params),
       (''id'', JUint64 (unat n))]"

text \<open>The first step of a call: the id, the body and the request with its length.\<close>

definition start_call ::
    "'rq request_ops \<Rightarrow> (json \<Rightarrow> string) \<Rightarrow> string \<Rightarrow> json \<Rightarrow> 'rq rpc_client \<Rightarrow> u64 \<times> ('rq \<times> string) \<times> 'rq rpc_client" where
  "start_call ops serialize meth params c =
     (case next_id c of
        (n, c1) \<Rightarrow>
          let body = serialize (request_object meth params n);
              req = q_set_content_length ops (length body) (cl_req c1) in
          (n, (req, body), c1\<lparr>cl_req := req\<rparr>))"

text \<open>What is made of the body of an answer.\<close>

definition server_errc :: "int \<Rightarrow> errc" where
  "server_errc code =
     (if code = - 32700 then parse_error
      else if code = - 32600 then invalid_request
      else if code = - 32601 then method_not_found
      else if code = - 32602 then invalid_params
      else if code = - 32603 then internal_error
      else server_error)"

definition read_response :: "u64 \<Rightarrow> json \<Rightarrow> rpc_error \<times> json" where
  "read_response n body =
     (case body of
        JObject obj \<Rightarrow>
          (let ver = if_contains ''jsonrpc'' obj;
               err = if_contains ''error'' obj;
               res = if_contains ''result'' obj;
               ident = if_contains ''id'' obj in
           if (case ver of None \<Rightarrow> True | Some v \<Rightarrow> \<not> json_eq_string v ''2.0'')
           then (rpc_error_of version_error, JNull)
           else
             (case err of
                Some (JObject eo) \<Rightarrow>
                  (case if_contains ''code'' eo of
                     Some (JInt64 code) \<Rightarrow>
                       (\<lparr>re_code = make_error_code (server_errc code), re_info = eo\<rparr>, JNull)
                   | _ \<Rightarrow> (rpc_error_of invalid_response, JNull))
              | _ \<Rightarrow>
                  (case res of
                     Some r \<Rightarrow>
                       if (case ident of None \<Rightarrow> True | Some i \<Rightarrow> \<not> json_eq_uint64 i n)
                       then (rpc_error_of id_mismatch, JNull)
                       else (\<lparr>re_code = no_error, re_info = []\<rparr>, r)
                   | None \<Rightarrow> (rpc_error_of invalid_response, JNull))))
      | _ \<Rightarrow> (rpc_error_of invalid_response, JNull))"

subsection \<open>The body as it arrives\<close>

text \<open>Boost.JSON's stream parser: writing returns the bytes taken and an error code, finishing an
  error code; releasing it gives the value or throws.\<close>

record 'jp json_parser_ops =
  jp_write :: "string \<Rightarrow> 'jp \<Rightarrow> (error_code \<times> nat) \<times> 'jp"
  jp_finish :: "'jp \<Rightarrow> error_code \<times> 'jp"
  jp_release :: "'jp \<Rightarrow> (exn + json) \<times> 'jp"

definition json_sink_on_write ::
    "'jp json_parser_ops \<Rightarrow> string \<Rightarrow> bool \<Rightarrow> 'jp \<Rightarrow> (error_code \<times> nat) \<times> 'jp" where
  "json_sink_on_write jo b has_more jp =
     (case jp_write jo b jp of
        ((ec, n), jp1) \<Rightarrow>
          if \<not> ec_failed ec \<and> \<not> has_more
          then (case jp_finish jo jp1 of (ec2, jp2) \<Rightarrow> ((ec2, n), jp2))
          else ((ec, n), jp1))"

text \<open>The HTTP parser hands over the pieces in order and stops at the sink's first error.\<close>

fun sink_body :: "'jp json_parser_ops \<Rightarrow> (string \<times> bool) list \<Rightarrow> 'jp \<Rightarrow> error_code \<times> 'jp" where
  "sink_body jo [] jp = (no_error, jp)"
| "sink_body jo ((b, has_more) # bs) jp =
     (case json_sink_on_write jo b has_more jp of
        ((ec, n), jp1) \<Rightarrow> if ec_failed ec then (ec, jp1) else sink_body jo bs jp1)"

text \<open>What the awaited operations of a call report.\<close>

record call_events =
  ce_write :: error_code
  ce_header :: error_code
  ce_pieces :: "(string \<times> bool) list"
  ce_read :: error_code

datatype call_outcome = Call_complete rpc_error json | Call_threw exn

definition request_op_run ::
    "'jp json_parser_ops \<Rightarrow> u64 \<Rightarrow> call_events \<Rightarrow> 'jp \<Rightarrow> call_outcome \<times> 'jp" where
  "request_op_run jo n ev jp =
     (if ec_failed (ce_write ev) then (Call_complete \<lparr>re_code = ce_write ev, re_info = []\<rparr> JNull, jp)
      else if ec_failed (ce_header ev) then (Call_complete \<lparr>re_code = ce_header ev, re_info = []\<rparr> JNull, jp)
      else
        (case sink_body jo (ce_pieces ev) jp of
           (ec, jp1) \<Rightarrow>
             let ec1 = (if ec_failed ec then ec else ce_read ev) in
             if ec_failed ec1 then (Call_complete \<lparr>re_code = ec1, re_info = []\<rparr> JNull, jp1)
             else
               (case jp_release jo jp1 of
                  (Inl e, jp2) \<Rightarrow> (Call_threw e, jp2)
                | (Inr body, jp2) \<Rightarrow>
                    (case read_response n body of (e, v) \<Rightarrow> (Call_complete e v, jp2)))))"

subsection \<open>Typed results\<close>

text \<open>The results that need no copy.\<close>

definition converts_to_string :: "json \<Rightarrow> string option" where
  "converts_to_string v = (case v of JString s \<Rightarrow> Some s | _ \<Rightarrow> None)"

definition converts_to_array :: "json \<Rightarrow> json list option" where
  "converts_to_array v = (case v of JArray a \<Rightarrow> Some a | _ \<Rightarrow> None)"

definition converts_to_object :: "json \<Rightarrow> json_object option" where
  "converts_to_object v = (case v of JObject kv \<Rightarrow> Some kv | _ \<Rightarrow> None)"

text \<open>\<open>quick\<close> is one of them or always absent, \<open>try_value_to\<close> the library's conversion, \<open>dflt\<close> a
  default-constructed result.\<close>

definition transform_result ::
    "(json \<Rightarrow> 'r option) \<Rightarrow> (json \<Rightarrow> error_code + 'r) \<Rightarrow> 'r \<Rightarrow> rpc_error \<Rightarrow> json \<Rightarrow> rpc_error \<times> 'r" where
  "transform_result quick try_value_to dflt e v =
     (if ec_failed (re_code e) then (e, dflt)
      else
        (case quick v of
           Some r \<Rightarrow> (e, r)
         | None \<Rightarrow>
             (case try_value_to v of
                Inl ec \<Rightarrow> (\<lparr>re_code = ec, re_info = []\<rparr>, dflt)
              | Inr r \<Rightarrow> (e, r))))"

text \<open>The forms of a call: without parameters, with positional and with named ones.\<close>

datatype call_params = No_params | Positional "json list" | Named json_object

definition params_value :: "call_params \<Rightarrow> json" where
  "params_value ps = (case ps of No_params \<Rightarrow> JNull | Positional a \<Rightarrow> JArray a | Named kv \<Rightarrow> JObject kv)"

datatype 'r typed_outcome = Typed_complete rpc_error 'r | Typed_threw exn

definition async_call ::
    "'rq request_ops \<Rightarrow> (json \<Rightarrow> string) \<Rightarrow> 'jp json_parser_ops \<Rightarrow> (json \<Rightarrow> 'r option) \<Rightarrow> (json \<Rightarrow> error_code + 'r) \<Rightarrow> 'r \<Rightarrow>
     string \<Rightarrow> call_params \<Rightarrow> call_events \<Rightarrow> 'rq rpc_client \<Rightarrow> 'jp \<Rightarrow> 'r typed_outcome \<times> 'rq rpc_client \<times> 'jp" where
  "async_call ops serialize jo quick try_value_to dflt meth ps ev c jp =
     (case start_call ops serialize meth (params_value ps) c of
        (n, _, c1) \<Rightarrow>
          (case request_op_run jo n ev jp of
             (Call_threw x, jp1) \<Rightarrow> (Typed_threw x, c1, jp1)
           | (Call_complete e v, jp1) \<Rightarrow>
               (case transform_result quick try_value_to dflt e v of (e', r) \<Rightarrow> (Typed_complete e' r, c1, jp1))))"

subsection \<open>A sequence of calls\<close>

fun run_calls ::
    "'rq request_ops \<Rightarrow> (json \<Rightarrow> string) \<Rightarrow> (string \<times> json) list \<Rightarrow> 'rq rpc_client \<Rightarrow> (u64 \<times> 'rq \<times> string) list" where
  "run_calls ops serialize [] c = []"
| "run_calls ops serialize ((meth, params) # calls) c =
     (case start_call ops serialize meth params c of (n, rb, c1) \<Rightarrow> (n, rb) # run_calls ops serialize calls c1)"

definition json_request :: "'rq request_ops \<Rightarrow> url_view \<Rightarrow> 'rq \<Rightarrow> bool" where
  "json_request ops endpoint r \<longleftrightarrow>
     q_method ops r = ''POST'' \<and> q_target ops r = (if u_target endpoint = [] then ''/'' else u_target endpoint) \<and>
     q_find ops ''Host'' r = Some (u_host_and_port endpoint) \<and>
     q_find ops ''Content-Type'' r = Some ''application/json'' \<and> q_find ops ''Accept'' r = Some ''application/json''"

lemma call_number: "k < 2 ^ 64 \<Longrightarrow> unat (of_nat k :: u64) = k"
  by (simp add: unat_of_nat)

lemma ci_json_fields:
  "\<not> ci_equal ''Host'' ''Content-Length''" "\<not> ci_equal ''Content-Type'' ''Content-Length''"
  "\<not> ci_equal ''Accept'' ''Content-Length''" "\<not> ci_equal ''Content-Type'' ''Host''"
  "\<not> ci_equal ''Accept'' ''Host''" "\<not> ci_equal ''Accept'' ''Content-Type''"
  by code_simp+

context http_message
begin

lemma client_request: "json_request ops endpoint (cl_req (client_new ops brotli zlib endpoint))"
  by (simp add: json_request_def client_new_def Let_def find_laws method_laws target_laws ci_json_fields)

lemma start_call_request:
  assumes "json_request ops endpoint (cl_req c)" "start_call ops serialize meth params c = (n, (req, body), c1)"
  shows "json_request ops endpoint req \<and> cl_req c1 = req \<and> n = cl_id c + 1 \<and> cl_id c1 = n \<and>
    body = serialize (request_object meth params n) \<and>
    q_find ops ''Content-Length'' req = Some (show_nat (length body))"
  using assms by (auto simp: start_call_def next_id_def Let_def json_request_def find_laws method_laws target_laws
      ci_json_fields)

lemma run_calls_nth:
  "json_request ops endpoint (cl_req c) \<Longrightarrow> k < length calls \<Longrightarrow>
   \<exists>req. run_calls ops serialize calls c ! k =
       (cl_id c + of_nat (Suc k), req,
        serialize (request_object (fst (calls ! k)) (snd (calls ! k)) (cl_id c + of_nat (Suc k)))) \<and>
     json_request ops endpoint req \<and>
     q_find ops ''Content-Length'' req =
       Some (show_nat (length (serialize (request_object (fst (calls ! k)) (snd (calls ! k)) (cl_id c + of_nat (Suc k))))))"
proof (induction calls arbitrary: c k)
  case (Cons x calls)
  obtain meth params where x: "x = (meth, params)" by (cases x)
  obtain n req body c1 where s: "start_call ops serialize meth params c = (n, (req, body), c1)"
    by (metis prod_cases3 surj_pair)
  note r = start_call_request [OF Cons.prems(1) s]
  show ?case
  proof (cases k)
    case 0 then show ?thesis using r s x by simp
  next
    case (Suc i)
    have "json_request ops endpoint (cl_req c1)" "i < length calls" using r Cons.prems(2) Suc by simp_all
    from Cons.IH [OF this] r show ?thesis using s x Suc by (simp add: algebra_simps)
  qed
qed simp

end

text \<open>
  Every call of a JSON-RPC client is sent as the protocol asks: a POST to the endpoint's
  target and host whose body is the serialized request object with the method, the parameters
  and the number of the call, counted from one, and whose length field is the length of that
  body, also after earlier calls on the same client.
\<close>

theorem rpc_requests:
  assumes "http_message ops" "k < length calls" "length calls < 2 ^ 64"
  shows "\<exists>n req body. run_calls ops serialize calls (client_new ops brotli zlib endpoint) ! k = (n, req, body) \<and>
    unat n = Suc k \<and> body = serialize (request_object (fst (calls ! k)) (snd (calls ! k)) n) \<and>
    q_method ops req = ''POST'' \<and> q_target ops req = (if u_target endpoint = [] then ''/'' else u_target endpoint) \<and>
    q_find ops ''Host'' req = Some (u_host_and_port endpoint) \<and>
    q_find ops ''Content-Type'' req = Some ''application/json'' \<and>
    q_find ops ''Content-Length'' req = Some (show_nat (length body))"
proof -
  have "unat (of_nat (Suc k) :: u64) = Suc k"
    using assms(2,3) by (intro call_number) simp
  moreover have "cl_id (client_new ops brotli zlib endpoint) = 0" by (simp add: client_new_def Let_def)
  ultimately show ?thesis
    using http_message.run_calls_nth [OF assms(1) http_message.client_request [OF assms(1)] assms(2),
        of serialize brotli zlib endpoint]
    by (auto simp: json_request_def simp del: of_nat_Suc)
qed

theorem rpc_requests_witness:
  "\<exists>n req body. run_calls ref_ops (\<lambda>_. ''{}'') [(''a'', JNull), (''b'', JNull)]
      (client_new ref_ops False False url_blank) ! 1 = (n, req, body) \<and> unat n = 2 \<and>
     q_find ref_ops ''Content-Length'' req = Some (show_nat 2)"
  using rpc_requests [OF refmsg.http_message_axioms, of 1 "[(''a'', JNull), (''b'', JNull)]" "\<lambda>_. ''{}''" False False url_blank]
  by auto

lemma read_response_accepts:
  "read_response n body = (\<lparr>re_code = no_error, re_info = []\<rparr>, v) \<longleftrightarrow>
     (\<exists>obj ver i. body = JObject obj \<and> if_contains ''jsonrpc'' obj = Some ver \<and> json_eq_string ver ''2.0'' \<and>
        (\<nexists>eo. if_contains ''error'' obj = Some (JObject eo)) \<and> if_contains ''result'' obj = Some v \<and>
        if_contains ''id'' obj = Some i \<and> json_eq_uint64 i n)"
  by (auto simp: read_response_def Let_def rpc_error_of_def make_error_code_def no_error_def
      split: json.splits option.splits if_splits)

text \<open>
  C19. Answers are not taken for one another: over any sequence of calls on a client, an answer
  that one call accepts as its result is refused by every other call of the sequence with the
  error for a wrong number.
\<close>

theorem rpc_answers_not_confused:
  assumes "http_message ops" "i < length calls" "j < length calls" "i \<noteq> j" "length calls < 2 ^ 64"
    and "read_response (fst (run_calls ops serialize calls (client_new ops brotli zlib endpoint) ! i)) body =
      (\<lparr>re_code = no_error, re_info = []\<rparr>, v)"
  shows "read_response (fst (run_calls ops serialize calls (client_new ops brotli zlib endpoint) ! j)) body =
    (rpc_error_of id_mismatch, JNull)"
proof -
  have ids: "unat (fst (run_calls ops serialize calls (client_new ops brotli zlib endpoint) ! k)) = Suc k"
    if "k < length calls" for k
  proof -
    have "unat (of_nat (Suc k) :: u64) = Suc k" using that assms(5) by (intro call_number) simp
    then show ?thesis
      using http_message.run_calls_nth [OF assms(1) http_message.client_request [OF assms(1)] that,
          of serialize brotli zlib endpoint]
      by (auto simp: client_new_def Let_def simp del: of_nat_Suc)
  qed
  obtain obj ver k where r: "body = JObject obj" "if_contains ''jsonrpc'' obj = Some ver" "json_eq_string ver ''2.0''"
      "\<nexists>eo. if_contains ''error'' obj = Some (JObject eo)" "if_contains ''result'' obj = Some v"
      "if_contains ''id'' obj = Some k"
      "json_eq_uint64 k (fst (run_calls ops serialize calls (client_new ops brotli zlib endpoint) ! i))"
    using assms(6) unfolding read_response_accepts by blast
  have "\<not> json_eq_uint64 k (fst (run_calls ops serialize calls (client_new ops brotli zlib endpoint) ! j))"
    using r(7) assms(4) ids [OF assms(2)] ids [OF assms(3)] by (auto simp: json_eq_uint64_def split: json.splits)
  then show ?thesis
    using r by (auto simp: read_response_def Let_def split: option.splits json.splits)
qed

theorem rpc_answers_not_confused_witness:
  "read_response (fst (run_calls ref_ops (\<lambda>_. []) [(''a'', JNull), (''b'', JNull)] (client_new ref_ops False False url_blank) ! 1))
     (JObject [(''jsonrpc'', JString ''2.0''), (''result'', JBool True), (''id'', JInt64 1)]) =
   (rpc_error_of id_mismatch, JNull)"
proof -
  have "read_response (fst (run_calls ref_ops (\<lambda>_. []) [(''a'', JNull), (''b'', JNull)]
      (client_new ref_ops False False url_blank) ! 0))
      (JObject [(''jsonrpc'', JString ''2.0''), (''result'', JBool True), (''id'', JInt64 1)]) =
      (\<lparr>re_code = no_error, re_info = []\<rparr>, JBool True)"
    by (simp add: start_call_def next_id_def client_new_def Let_def read_response_def if_contains_def
        json_eq_string_def json_eq_uint64_def)
  from rpc_answers_not_confused [OF refmsg.http_message_axioms _ _ _ _ this, of 1] show ?thesis by simp
qed

lemma read_response_success:
  assumes "read_response n body = (e, v)" "\<not> ec_failed (re_code e)"
  shows "e = rpc_error_of version_error \<and> v = JNull \<or> e = \<lparr>re_code = no_error, re_info = []\<rparr>"
  using assms
  by (auto simp: read_response_def Let_def rpc_error_of_def make_error_code_def ec_failed_def server_errc_def
      split: json.splits option.splits if_splits)

lemma transform_result_success:
  assumes "transform_result quick try_value_to dflt e v = (e', r)" "\<not> ec_failed (re_code e')"
    and "\<And>v ec. try_value_to v = Inl ec \<Longrightarrow> ec_failed ec"
  shows "e' = e \<and> (quick v = Some r \<or> quick v = None \<and> try_value_to v = Inr r)"
  using assms(1,2) assms(3) [of v] by (auto simp: transform_result_def split: if_splits option.splits sum.splits)

text \<open>
  C18. What a successful call means: when a typed call completes without a failure, the request was
  written, the answer's header and body were read without an error, and the value the JSON parser
  released is either an answer of protocol version 2.0 with no error object, the number of this
  call and a result that converts to the value returned, or an answer to which the client objects
  for its version and whose place a null value takes.
\<close>

theorem rpc_call_success:
  assumes "async_call ops serialize jo quick try_value_to dflt meth ps ev c jp = (Typed_complete e r, c', jp')"
    and "\<not> ec_failed (re_code e)" "\<forall>v ec. try_value_to v = Inl ec \<longrightarrow> ec_failed ec"
  shows "\<not> ec_failed (ce_write ev) \<and> \<not> ec_failed (ce_header ev) \<and> \<not> ec_failed (ce_read ev) \<and>
    (\<exists>jp1 body v. sink_body jo (ce_pieces ev) jp = (fst (sink_body jo (ce_pieces ev) jp), jp1) \<and>
      jp_release jo jp1 = (Inr body, jp') \<and> (quick v = Some r \<or> quick v = None \<and> try_value_to v = Inr r) \<and>
      (re_code e = make_error_code version_error \<and> v = JNull \<or>
       (\<exists>obj ver i. body = JObject obj \<and> if_contains ''jsonrpc'' obj = Some ver \<and> json_eq_string ver ''2.0'' \<and>
          (\<nexists>eo. if_contains ''error'' obj = Some (JObject eo)) \<and> if_contains ''result'' obj = Some v \<and>
          if_contains ''id'' obj = Some i \<and> json_eq_uint64 i (cl_id c + 1))))"
proof -
  have n: "start_call ops serialize meth (params_value ps) c =
      (cl_id c + 1, snd (start_call ops serialize meth (params_value ps) c))"
    by (simp add: start_call_def next_id_def Let_def)
  obtain e0 v where run: "request_op_run jo (cl_id c + 1) ev jp = (Call_complete e0 v, jp')"
    and tr: "transform_result quick try_value_to dflt e0 v = (e, r)"
    using assms(1) unfolding async_call_def
    by (subst (asm) n) (auto split: prod.splits call_outcome.splits)
  have ok: "e = e0 \<and> (quick v = Some r \<or> quick v = None \<and> try_value_to v = Inr r)"
    using transform_result_success [OF tr assms(2)] assms(3) by blast
  obtain ec jp1 where sb: "sink_body jo (ce_pieces ev) jp = (ec, jp1)" by (cases "sink_body jo (ce_pieces ev) jp")
  have parts: "\<not> ec_failed (ce_write ev) \<and> \<not> ec_failed (ce_header ev) \<and> \<not> ec_failed (ce_read ev)"
    and "\<exists>body. jp_release jo jp1 = (Inr body, jp') \<and> read_response (cl_id c + 1) body = (e0, v)"
    using run ok assms(2)
    by (auto simp: request_op_run_def sb Let_def split: if_splits prod.splits sum.splits)
  then obtain body where body: "jp_release jo jp1 = (Inr body, jp')" "read_response (cl_id c + 1) body = (e0, v)"
    by blast
  from read_response_success [OF body(2)] ok assms(2)
  consider "e0 = rpc_error_of version_error" "v = JNull" | "e0 = \<lparr>re_code = no_error, re_info = []\<rparr>" by blast
  then have "re_code e = make_error_code version_error \<and> v = JNull \<or>
       (\<exists>obj ver i. body = JObject obj \<and> if_contains ''jsonrpc'' obj = Some ver \<and> json_eq_string ver ''2.0'' \<and>
          (\<nexists>eo. if_contains ''error'' obj = Some (JObject eo)) \<and> if_contains ''result'' obj = Some v \<and>
          if_contains ''id'' obj = Some i \<and> json_eq_uint64 i (cl_id c + 1))"
  proof cases
    case 1 then show ?thesis using ok by (simp add: rpc_error_of_def)
  next
    case 2
    from body(2) [unfolded 2] show ?thesis unfolding read_response_accepts by blast
  qed
  then show ?thesis using parts sb body(1) ok by (intro conjI exI [of _ jp1] exI [of _ body] exI [of _ v]) auto
qed

text \<open>
  A lost error: an answer with no or another protocol version is meant to be refused, but the
  code for that error is the number zero, which does not count as a failure.  The call completes
  without error, no exception is raised, and the caller gets what a null value converts to, or
  the error of that conversion.
\<close>

theorem rpc_version_error_lost:
  assumes "case if_contains ''jsonrpc'' obj of None \<Rightarrow> True | Some v \<Rightarrow> \<not> json_eq_string v ''2.0''"
    and "read_response n (JObject obj) = (e, v)"
  shows "re_code e = make_error_code version_error \<and> v = JNull \<and> \<not> ec_failed (re_code e) \<and>
    to_exception_ptr serialize e = None \<and>
    (quick JNull = None \<longrightarrow> transform_result quick try_value_to dflt e v =
      (case try_value_to JNull of Inl ec \<Rightarrow> (\<lparr>re_code = ec, re_info = []\<rparr>, dflt) | Inr r \<Rightarrow> (e, r)))"
proof -
  have "e = rpc_error_of version_error \<and> v = JNull"
    using assms by (auto simp: read_response_def Let_def split: option.splits)
  then show ?thesis
    by (simp add: rpc_error_of_def make_error_code_def ec_failed_def to_exception_ptr_def transform_result_def
        split: sum.split)
qed

theorem rpc_version_error_lost_witness:
  "to_exception_ptr (\<lambda>_. []) (fst (read_response 1 (JObject [(''result'', JBool True), (''id'', JInt64 1)]))) = None"
proof -
  let ?o = "[(''result'', JBool True), (''id'', JInt64 1)]"
  obtain e v where r: "read_response 1 (JObject ?o) = (e, v)" by (cases "read_response 1 (JObject ?o)")
  have "case if_contains ''jsonrpc'' ?o of None \<Rightarrow> True | Some v \<Rightarrow> \<not> json_eq_string v ''2.0''"
    by (simp add: if_contains_def)
  from rpc_version_error_lost [OF this r, of "\<lambda>_. []" "\<lambda>_. None" Inr JNull] r show ?thesis by simp
qed

subsection \<open>The connection of a client\<close>

lemma async_connect_loop_log:
  "async_connect_loop cond err es s = (Inr u, s') \<Longrightarrow>
   \<exists>e \<in> set es. cond e \<and> nt_accepts s e \<and> s' = s\<lparr>nt_log := nt_log s @ [Connected e]\<rparr>"
  by (induction cond err es arbitrary: s rule: async_connect_loop.induct)
     (auto simp: co_throw_def log_act_def split: if_splits)

lemma rpc_handshake_log:
  "perform_tls_handshake host s = (Inr u, s') \<Longrightarrow>
   s' = s\<lparr>nt_log := nt_log s @ [Sni host, Verify_host host, Handshaken]\<rparr>"
  by (auto simp: perform_tls_handshake_def co_bind_def log_act_def split: if_splits option.splits)

text \<open>
  C20. The connection of a JSON-RPC client: when connecting to an endpoint succeeds, exactly its
  host was resolved, with its port or else its scheme as service, one of the addresses found was
  connected to, and for an https endpoint the certificate was checked against that host and
  every read, write and shutdown goes through TLS, while any other endpoint gets neither.
\<close>

theorem rpc_connection:
  assumes "stream_connect endpoint st s = (Inr st', s')"
  shows "\<exists>results e. nt_resolve s (u_host endpoint) (if u_has_port endpoint then u_port endpoint else u_scheme endpoint)
        = Inr results \<and> e \<in> set results \<and>
    nt_log s' = nt_log s @
      [Resolved (u_host endpoint) (if u_has_port endpoint then u_port endpoint else u_scheme endpoint), Connected e] @
      (if u_scheme_id endpoint = scheme_https
       then [Sni (u_host endpoint), Verify_host (u_host endpoint), Handshaken] else []) \<and>
    (if u_scheme_id endpoint = scheme_https
     then stream_write_layer st' = Tls_layer \<and> stream_read_layer st' = Tls_layer \<and>
       stream_shutdown tls_ec shutdown_ec close_ec st' = tls_ec
     else stream_write_layer st' = Tcp_layer \<and> stream_read_layer st' = Tcp_layer \<and>
       stream_shutdown tls_ec shutdown_ec close_ec st' = (if ec_failed shutdown_ec then shutdown_ec else close_ec))"
proof -
  let ?port = "if u_has_port endpoint then u_port endpoint else u_scheme endpoint"
  define s1 where "s1 = s\<lparr>nt_log := nt_log s @ [Resolved (u_host endpoint) ?port]\<rparr>"
  obtain results s2 where r: "nt_resolve s (u_host endpoint) ?port = Inr results"
      "async_connect (\<lambda>_. True) results s1 = (Inr (), s2)"
    and t: "(if u_scheme_id endpoint = scheme_https then perform_tls_handshake (u_host endpoint) else co_return ()) s2
        = (Inr (), s')"
    and st: "st' = st\<lparr>rp_secure := (u_scheme_id endpoint = scheme_https)\<rparr>"
    using assms
    by (auto simp: stream_connect_def rpc_connect_def Let_def co_bind_def co_return_def async_resolve_def log_act_def
        s1_def split: prod.splits sum.splits if_splits)
  obtain e where e: "e \<in> set results" "s2 = s1\<lparr>nt_log := nt_log s1 @ [Connected e]\<rparr>"
    using async_connect_loop_log [OF r(2) [unfolded async_connect_def]] by blast
  have log: "nt_log s' = nt_log s2 @ (if u_scheme_id endpoint = scheme_https
       then [Sni (u_host endpoint), Verify_host (u_host endpoint), Handshaken] else [])"
    using t by (auto simp: co_return_def dest: rpc_handshake_log split: if_splits)
  show ?thesis
    using r(1) e log st
    by (intro exI [of _ results] exI [of _ e])
      (simp add: s1_def stream_write_layer_def stream_read_layer_def stream_shutdown_def tcp_shutdown_def)
qed

definition ex_rpc_net :: "ref_request net" where
  "ex_rpc_net = \<lparr>nt_resolve = (\<lambda>h p. Inr [Ep_v4 1 443]), nt_accepts = (\<lambda>_. True), nt_unix = (\<lambda>_. None), nt_in = [],
     nt_writes = 0, nt_proxy_status = Inr 200, nt_sni_ok = (\<lambda>_. True), nt_handshake = (\<lambda>_. None), nt_log = []\<rparr>"

theorem rpc_connection_witness:
  "\<exists>st' s'. stream_connect (url_blank\<lparr>u_scheme_id := scheme_https, u_scheme := ''https'', u_host := ''a.io''\<rparr>)
      \<lparr>rp_secure = False\<rparr> ex_rpc_net = (Inr st', s') \<and>
     last (nt_log s') = Handshaken \<and> stream_write_layer st' = Tls_layer"
proof -
  let ?url = "url_blank\<lparr>u_scheme_id := scheme_https, u_scheme := ''https'', u_host := ''a.io''\<rparr>"
  obtain st' s' where c: "stream_connect ?url \<lparr>rp_secure = False\<rparr> ex_rpc_net = (Inr st', s')"
    by (simp add: stream_connect_def rpc_connect_def perform_tls_handshake_def Let_def co_bind_def co_return_def
        async_resolve_def async_connect_def log_act_def ex_rpc_net_def)
  from rpc_connection [OF c, of no_error no_error no_error] c show ?thesis by auto
qed

text \<open>An answer that arrives in one piece, and a parser that delivers it.\<close>

definition ex_json_parser :: "json \<Rightarrow> unit json_parser_ops" where
  "ex_json_parser v = \<lparr>jp_write = (\<lambda>s p. ((no_error, length s), p)), jp_finish = (\<lambda>p. (no_error, p)),
     jp_release = (\<lambda>p. (Inr v, p))\<rparr>"

theorem rpc_call_success_witness:
  "\<exists>e c' i. async_call ref_ops (\<lambda>_. []) (ex_json_parser (JObject [(''jsonrpc'', JString ''2.0''), (''result'', JString ''x''), (''id'', JInt64 1)]))
      converts_to_string (\<lambda>v. Inl \<lparr>ec_value = 1, ec_category = ''json''\<rparr>) [] ''m'' No_params
      \<lparr>ce_write = no_error, ce_header = no_error, ce_pieces = [(''{'', False)], ce_read = no_error\<rparr>
      (client_new ref_ops False False url_blank) () = (Typed_complete e ''x'', c', ()) \<and>
     json_eq_uint64 i 1"
proof -
  let ?b = "JObject [(''jsonrpc'', JString ''2.0''), (''result'', JString ''x''), (''id'', JInt64 1)]"
  let ?c = "client_new ref_ops False False url_blank" and ?t = "\<lambda>v :: json. Inl \<lparr>ec_value = 1, ec_category = ''json''\<rparr>"
  let ?ev = "\<lparr>ce_write = no_error, ce_header = no_error, ce_pieces = [(''{'', False)], ce_read = no_error\<rparr>"
  have id: "cl_id ?c = 0" by (simp add: client_new_def Let_def)
  obtain e c' where a: "async_call ref_ops (\<lambda>_. []) (ex_json_parser ?b) converts_to_string ?t [] ''m'' No_params ?ev ?c () =
      (Typed_complete e ''x'', c', ())" "\<not> ec_failed (re_code e)" "re_code e \<noteq> make_error_code version_error"
    by (simp add: async_call_def start_call_def next_id_def Let_def request_op_run_def ex_json_parser_def
        json_sink_on_write_def no_error_def ec_failed_def read_response_def if_contains_def json_eq_string_def
        json_eq_uint64_def id transform_result_def converts_to_string_def make_error_code_def)
  have "\<forall>v ec. ?t v = Inl ec \<longrightarrow> ec_failed ec" by (auto simp: ec_failed_def)
  from rpc_call_success [OF a(1,2) this] a(3) id obtain i where "json_eq_uint64 i 1" by auto
  then show ?thesis using a(1) by blast
qed

end
