(* ===== verification/Get_Session.thy ===== *)
theory Get_Session
  imports Http_Message
begin

text \<open>
  The \<^verbatim>\<open>get\<close> example client (\<^verbatim>\<open>example/client/get/main.cpp\<close>): a session that fetches one URL and
  follows redirects, written as callbacks.  Each callback is a function on the session; the
  operation it starts is kept in \<open>gs_pending\<close>, and the completion of that operation is an event.
  The connection in use and every request written are recorded beside the program's own
  variables.
\<close>

record connection =
  cn_host :: string
  cn_port :: string
  cn_verified :: "string option"

text \<open>A request as it was handed to the stream: its URL, the layer, and the connection.\<close>

record 'rq written =
  wr_request :: 'rq
  wr_url :: url_view
  wr_layer :: stream_layer
  wr_conn :: "connection option"

datatype pending =
    Idle
  | Wait_resolve string string
  | Wait_connect
  | Wait_handshake
  | Wait_write stream_layer
  | Wait_header stream_layer
  | Wait_body stream_layer
  | Wait_discard stream_layer
  | Wait_reopen
  | Wait_shutdown

text \<open>What is printed on the standard error: an operation and its error code, or a text.\<close>

datatype fail_report = Fail_code string error_code | Fail_what string

record 'rq get_session =
  gs_req :: 'rq
  gs_url :: url_view
  gs_host :: string
  gs_port :: string
  gs_max_redirects :: u32
  gs_secure :: bool
  gs_conn :: "connection option"
  gs_pending :: pending
  gs_stdout :: string
  gs_fails :: "fail_report list"
  gs_written :: "'rq written list"

record 'rq get_env =
  ge_ops :: "'rq request_ops"
  ge_brotli :: bool
  ge_zlib :: bool
  ge_resolve :: "url_view \<Rightarrow> string \<Rightarrow> error_code + url_view"

definition get_session_new :: "'rq request_ops \<Rightarrow> 'rq get_session" where
  "get_session_new ops =
     \<lparr>gs_req = q_new ops, gs_url = url_blank, gs_host = [], gs_port = [], gs_max_redirects = 50, gs_secure = False,
      gs_conn = None, gs_pending = Idle, gs_stdout = [], gs_fails = [], gs_written = []\<rparr>"

subsection \<open>Small operations\<close>

definition get_fail :: "fail_report \<Rightarrow> 'rq get_session \<Rightarrow> 'rq get_session" where
  "get_fail f s = s\<lparr>gs_fails := gs_fails s @ [f], gs_pending := Idle\<rparr>"

definition get_is_redirect :: "nat \<Rightarrow> bool" where
  "get_is_redirect status \<longleftrightarrow> status \<in> {301, 302, 303, 307, 308}"

definition get_can_reuse_connection :: "response \<Rightarrow> url_view \<Rightarrow> url_view \<Rightarrow> bool" where
  "get_can_reuse_connection rsp a b =
     (if u_origin a \<noteq> u_origin b then False
      else if \<not> rsp_http11 rsp then False
      else if rsp_close rsp then False
      else True)"

text \<open>The layer the session reads and writes on.\<close>

definition data_layer :: "'rq get_session \<Rightarrow> stream_layer" where
  "data_layer s = (if gs_secure s then Tls_layer else Tcp_layer)"

text \<open>\<^verbatim>\<open>ENOTCONN\<close>, and the truncation TLS reports when the peer just closes.\<close>

definition is_not_connected :: "error_code \<Rightarrow> bool" where
  "is_not_connected ec \<longleftrightarrow> ec = \<lparr>ec_value = 107, ec_category = ''system''\<rparr>"

definition is_stream_truncated :: "error_code \<Rightarrow> bool" where
  "is_stream_truncated ec \<longleftrightarrow> ec = \<lparr>ec_value = 1, ec_category = ''asio.ssl.stream''\<rparr>"

subsection \<open>The callbacks\<close>

text \<open>The stream is made anew, so an open connection is gone.\<close>

definition do_resolve :: "'rq get_session \<Rightarrow> 'rq get_session" where
  "do_resolve s =
     (let s1 = s\<lparr>gs_conn := None, gs_secure := (u_scheme_id (gs_url s) = scheme_https)\<rparr>;
          port = (if u_has_port (gs_url s) then Some (u_port (gs_url s))
                  else if u_scheme_id (gs_url s) = scheme_https then Some ''443''
                  else if u_scheme_id (gs_url s) = scheme_http then Some ''80''
                  else None) in
      case port of
        None \<Rightarrow> get_fail (Fail_what ''Unsupported URL scheme'') s1
      | Some p \<Rightarrow>
          s1\<lparr>gs_port := p, gs_host := u_host (gs_url s), gs_pending := Wait_resolve (u_host (gs_url s)) p\<rparr>)"

definition get_run :: "'rq get_env \<Rightarrow> url_view \<Rightarrow> 'rq get_session \<Rightarrow> 'rq get_session" where
  "get_run ge url s =
     (let ops = ge_ops ge;
          r1 = (if u_target url \<noteq> [] then q_set_target ops (u_target url) (gs_req s) else gs_req s);
          r2 = q_set ops ''User-Agent'' ''Boost.Http.Io'' r1;
          r3 = q_set ops ''Host'' (u_host_and_port url) r2;
          r4 = (if ge_brotli ge then q_append ops ''Accept-Encoding'' ''br'' r3 else r3);
          r5 = (if ge_zlib ge then q_append ops ''Accept-Encoding'' ''deflate, gzip'' r4 else r4) in
      do_resolve (s\<lparr>gs_req := r5, gs_url := url\<rparr>))"

definition get_on_resolve :: "error_code \<Rightarrow> 'rq get_session \<Rightarrow> 'rq get_session" where
  "get_on_resolve ec s =
     (if ec_failed ec then get_fail (Fail_code ''resolve'' ec) s else s\<lparr>gs_pending := Wait_connect\<rparr>)"

definition get_do_write :: "'rq get_session \<Rightarrow> 'rq get_session" where
  "get_do_write s =
     s\<lparr>gs_pending := Wait_write (data_layer s),
       gs_written := gs_written s @
         [\<lparr>wr_request = gs_req s, wr_url = gs_url s, wr_layer = data_layer s, wr_conn = gs_conn s\<rparr>]\<rparr>"

text \<open>\<open>sni\<close> is what setting the server's name reports.  The callback that checks the certificate
  gets the same name; the check is over when the handshake succeeds.\<close>

definition get_on_connect :: "error_code \<Rightarrow> error_code \<Rightarrow> 'rq get_session \<Rightarrow> 'rq get_session" where
  "get_on_connect ec sni s =
     (if ec_failed ec then get_fail (Fail_code ''connect'' ec) s
      else
        let s1 = s\<lparr>gs_conn := Some \<lparr>cn_host = gs_host s, cn_port = gs_port s, cn_verified = None\<rparr>\<rparr> in
        if gs_secure s
        then
          if ec_failed sni then get_fail (Fail_code ''SSL_set_tlsext_host_name'' sni) s1
          else s1\<lparr>gs_pending := Wait_handshake\<rparr>
        else get_do_write s1)"

definition get_on_ssl_handshake :: "error_code \<Rightarrow> 'rq get_session \<Rightarrow> 'rq get_session" where
  "get_on_ssl_handshake ec s =
     (if ec_failed ec then get_fail (Fail_code ''handshake'' ec) s
      else get_do_write (s\<lparr>gs_conn := map_option (\<lambda>c. c\<lparr>cn_verified := Some (gs_host s)\<rparr>) (gs_conn s)\<rparr>))"

definition get_on_write :: "error_code \<Rightarrow> 'rq get_session \<Rightarrow> 'rq get_session" where
  "get_on_write ec s =
     (if ec_failed ec then get_fail (Fail_code ''write'' ec) s else s\<lparr>gs_pending := Wait_header (data_layer s)\<rparr>)"

text \<open>After a redirect: the body that is discarded before the connection is used again is always
  read from the TLS stream.\<close>

definition get_on_redirect_response :: "'rq get_env \<Rightarrow> response \<Rightarrow> 'rq get_session \<Rightarrow> 'rq get_session" where
  "get_on_redirect_response ge rsp s =
     (if gs_max_redirects s = 0 then get_fail (Fail_what ''Maximum redirects followed'') s
      else
        let s1 = s\<lparr>gs_max_redirects := gs_max_redirects s - 1\<rparr> in
        case rsp_location rsp of
          None \<Rightarrow> get_fail (Fail_what ''Bad redirect response'') s1
        | Some loc \<Rightarrow>
            (case ge_resolve ge (gs_url s) loc of
               Inl ec \<Rightarrow> get_fail (Fail_code ''Bad redirect URL'' ec) s1
             | Inr redirect \<Rightarrow>
                 let ops = ge_ops ge;
                     r1 = q_set_target ops (u_target redirect) (gs_req s);
                     r2 = q_set ops ''Referer'' (u_text (gs_url s)) r1;
                     r3 = q_set ops ''Host'' (u_host_and_port redirect) r2;
                     reuse_conn = get_can_reuse_connection rsp (gs_url s) redirect;
                     s2 = s1\<lparr>gs_req := r3, gs_url := redirect\<rparr> in
                 if reuse_conn then s2\<lparr>gs_pending := Wait_discard Tls_layer\<rparr>
                 else if gs_secure s2 then s2\<lparr>gs_pending := Wait_reopen\<rparr>
                 else do_resolve s2))"

definition get_on_discard :: "error_code \<Rightarrow> 'rq get_session \<Rightarrow> 'rq get_session" where
  "get_on_discard ec s = (if ec_failed ec then do_resolve s else get_do_write s)"

definition get_on_read_header :: "'rq get_env \<Rightarrow> error_code \<Rightarrow> response \<Rightarrow> 'rq get_session \<Rightarrow> 'rq get_session" where
  "get_on_read_header ge ec rsp s =
     (if ec_failed ec then get_fail (Fail_code ''read_header'' ec) s
      else if get_is_redirect (rsp_status rsp) then get_on_redirect_response ge rsp s
      else s\<lparr>gs_pending := Wait_body (data_layer s)\<rparr>)"

text \<open>The sink writes each piece of the body to the standard output; \<open>shut\<close> is what shutting down
  a plain socket reports.\<close>

definition stdout_sink_on_write :: "string \<Rightarrow> 'rq get_session \<Rightarrow> 'rq get_session" where
  "stdout_sink_on_write chunk s = s\<lparr>gs_stdout := gs_stdout s @ chunk\<rparr>"

definition get_on_read :: "error_code \<Rightarrow> error_code \<Rightarrow> 'rq get_session \<Rightarrow> 'rq get_session" where
  "get_on_read ec shut s =
     (if ec_failed ec then get_fail (Fail_code ''read'' ec) s
      else if gs_secure s then s\<lparr>gs_pending := Wait_shutdown\<rparr>
      else if ec_failed shut \<and> \<not> is_not_connected shut then get_fail (Fail_code ''shutdown'' shut) s
      else s\<lparr>gs_pending := Idle\<rparr>)"

definition get_on_shutdown :: "error_code \<Rightarrow> 'rq get_session \<Rightarrow> 'rq get_session" where
  "get_on_shutdown ec s =
     (if ec_failed ec \<and> \<not> is_stream_truncated ec then get_fail (Fail_code ''shutdown'' ec) s
      else s\<lparr>gs_pending := Idle\<rparr>)"

subsection \<open>Events\<close>

datatype get_event =
    Ev_resolved error_code
  | Ev_connected error_code error_code
  | Ev_handshaken error_code
  | Ev_written error_code
  | Ev_header error_code response
  | Ev_discarded error_code
  | Ev_reopen error_code
  | Ev_body "string list" error_code error_code
  | Ev_shut error_code

text \<open>An event is possible when its operation is outstanding.\<close>

fun get_step :: "'rq get_env \<Rightarrow> get_event \<Rightarrow> 'rq get_session \<Rightarrow> 'rq get_session option" where
  "get_step ge (Ev_resolved ec) s =
     (case gs_pending s of Wait_resolve _ _ \<Rightarrow> Some (get_on_resolve ec s) | _ \<Rightarrow> None)"
| "get_step ge (Ev_connected ec sni) s = (if gs_pending s = Wait_connect then Some (get_on_connect ec sni s) else None)"
| "get_step ge (Ev_handshaken ec) s = (if gs_pending s = Wait_handshake then Some (get_on_ssl_handshake ec s) else None)"
| "get_step ge (Ev_written ec) s =
     (case gs_pending s of Wait_write _ \<Rightarrow> Some (get_on_write ec s) | _ \<Rightarrow> None)"
| "get_step ge (Ev_header ec rsp) s =
     (case gs_pending s of Wait_header _ \<Rightarrow> Some (get_on_read_header ge ec rsp s) | _ \<Rightarrow> None)"
| "get_step ge (Ev_discarded ec) s =
     (case gs_pending s of Wait_discard _ \<Rightarrow> Some (get_on_discard ec s) | _ \<Rightarrow> None)"
| "get_step ge (Ev_reopen ec) s = (if gs_pending s = Wait_reopen then Some (do_resolve s) else None)"
| "get_step ge (Ev_body chunks ec shut) s =
     (case gs_pending s of
        Wait_body _ \<Rightarrow> Some (get_on_read ec shut (foldl (\<lambda>s c. stdout_sink_on_write c s) s chunks))
      | _ \<Rightarrow> None)"
| "get_step ge (Ev_shut ec) s = (if gs_pending s = Wait_shutdown then Some (get_on_shutdown ec s) else None)"

fun get_steps :: "'rq get_env \<Rightarrow> get_event list \<Rightarrow> 'rq get_session \<Rightarrow> 'rq get_session option" where
  "get_steps ge [] s = Some s"
| "get_steps ge (e # es) s = (case get_step ge e s of Some s1 \<Rightarrow> get_steps ge es s1 | None \<Rightarrow> None)"

subsection \<open>The program\<close>

datatype 'rq get_main = Get_usage | Get_uncaught | Get_started "'rq get_session"

text \<open>Exactly one argument that is a URL with an authority; a text that is no URL makes the
  constructor throw outside any handler.\<close>

definition get_main :: "'rq get_env \<Rightarrow> (string \<Rightarrow> (url_view \<times> bool) option) \<Rightarrow> string list \<Rightarrow> 'rq get_main" where
  "get_main ge parse argv =
     (case argv of
        [prog, arg] \<Rightarrow>
          (case parse arg of
             None \<Rightarrow> Get_uncaught
           | Some (url, has_authority) \<Rightarrow>
               if has_authority then Get_started (get_run ge url (get_session_new (ge_ops ge))) else Get_usage)
      | _ \<Rightarrow> Get_usage)"

end
