(* ===== verification/Get_Session_Proofs.thy ===== *)
theory Get_Session_Proofs
  imports Get_Session Completion_System
begin

text \<open>
  What the \<^verbatim>\<open>get\<close> example guarantees for every sequence of completions: where its requests go and
  over which layer, that it comes to an end, and that it reports at most one failure.
\<close>

subsection \<open>The invariant\<close>

definition get_port :: "url_view \<Rightarrow> string option" where
  "get_port url =
     (if u_has_port url then Some (u_port url)
      else if u_scheme_id url = scheme_https then Some ''443''
      else if u_scheme_id url = scheme_http then Some ''80''
      else None)"

text \<open>A connection that leads to the host and port of a URL, checked against its host for https.\<close>

definition leads_to :: "url_view \<Rightarrow> connection \<Rightarrow> bool" where
  "leads_to url c \<longleftrightarrow> cn_host c = u_host url \<and> get_port url = Some (cn_port c) \<and>
     (u_scheme_id url = scheme_https \<longrightarrow> cn_verified c = Some (u_host url))"

definition layer_of :: "url_view \<Rightarrow> stream_layer" where
  "layer_of url = (if u_scheme_id url = scheme_https then Tls_layer else Tcp_layer)"

text \<open>The origin of a URL without an authority is empty, and two such URLs are taken for the same
  place whatever their schemes; nothing is said of where their requests go.\<close>

definition written_ok :: "'rq request_ops \<Rightarrow> 'rq written \<Rightarrow> bool" where
  "written_ok ops w \<longleftrightarrow> q_find ops ''Host'' (wr_request w) = Some (u_host_and_port (wr_url w)) \<and>
     (u_origin (wr_url w) \<noteq> [] \<longrightarrow>
        wr_layer w = layer_of (wr_url w) \<and> (\<exists>c. wr_conn w = Some c \<and> leads_to (wr_url w) c))"

text \<open>The variables belong to the current URL.\<close>

definition aimed :: "'rq get_session \<Rightarrow> bool" where
  "aimed s \<longleftrightarrow> gs_secure s = (u_scheme_id (gs_url s) = scheme_https) \<and> gs_host s = u_host (gs_url s) \<and>
     get_port (gs_url s) = Some (gs_port s)"

definition connected :: "'rq get_session \<Rightarrow> bool" where
  "connected s \<longleftrightarrow> (\<exists>c. gs_conn s = Some c \<and> leads_to (gs_url s) c)"

definition placed :: "'rq get_session \<Rightarrow> bool" where
  "placed s \<longleftrightarrow> (u_origin (gs_url s) \<noteq> [] \<longrightarrow> aimed s \<and> connected s)"

fun pending_ok :: "'rq get_session \<Rightarrow> pending \<Rightarrow> bool" where
  "pending_ok s (Wait_resolve h p) \<longleftrightarrow> aimed s \<and> h = gs_host s \<and> p = gs_port s"
| "pending_ok s Wait_connect \<longleftrightarrow> aimed s"
| "pending_ok s Wait_handshake \<longleftrightarrow> aimed s \<and> gs_secure s \<and>
     gs_conn s = Some \<lparr>cn_host = gs_host s, cn_port = gs_port s, cn_verified = None\<rparr>"
| "pending_ok s (Wait_write _) \<longleftrightarrow> placed s"
| "pending_ok s (Wait_header _) \<longleftrightarrow> placed s"
| "pending_ok s (Wait_body _) \<longleftrightarrow> placed s"
| "pending_ok s (Wait_discard _) \<longleftrightarrow> placed s"
| "pending_ok s _ \<longleftrightarrow> True"

definition get_inv :: "'rq request_ops \<Rightarrow> 'rq get_session \<Rightarrow> bool" where
  "get_inv ops s \<longleftrightarrow>
     list_all (written_ok ops) (gs_written s) \<and>
     q_find ops ''Host'' (gs_req s) = Some (u_host_and_port (gs_url s)) \<and>
     pending_ok s (gs_pending s)"

lemmas get_inv_simps = get_inv_def placed_def aimed_def connected_def leads_to_def layer_of_def data_layer_def

text \<open>What Boost.URL's origin, the scheme and the authority when there is one, promises about a
  resolved reference: equal origins that are not empty mean the same scheme, host and port.\<close>

definition origin_faithful :: "'rq get_env \<Rightarrow> bool" where
  "origin_faithful ge \<longleftrightarrow>
     (\<forall>base loc u. ge_resolve ge base loc = Inr u \<and> u_origin base = u_origin u \<and> u_origin u \<noteq> [] \<longrightarrow>
        u_scheme_id u = u_scheme_id base \<and> u_host u = u_host base \<and> u_has_port u = u_has_port base \<and>
        u_port u = u_port base)"

text \<open>Requests still to be written before the next redirect, and the budget.\<close>

fun owed :: "pending \<Rightarrow> nat" where
  "owed (Wait_resolve _ _) = 1" | "owed Wait_connect = 1" | "owed Wait_handshake = 1"
| "owed (Wait_discard _) = 1" | "owed Wait_reopen = 1" | "owed _ = 0"

definition get_budget :: "'rq get_session \<Rightarrow> bool" where
  "get_budget s \<longleftrightarrow>
     length (gs_written s) + owed (gs_pending s) + unat (gs_max_redirects s) \<le> 51 \<and>
     length (gs_fails s) \<le> 1 \<and> (gs_pending s \<noteq> Idle \<longrightarrow> gs_fails s = [])"

subsection \<open>Preservation\<close>

lemma get_fail_inv: "get_inv ops s \<Longrightarrow> get_inv ops (get_fail f s)"
  by (simp add: get_inv_def get_fail_def)

lemma do_resolve_inv:
  assumes "list_all (written_ok ops) (gs_written s)" "q_find ops ''Host'' (gs_req s) = Some (u_host_and_port (gs_url s))"
  shows "get_inv ops (do_resolve s)"
  using assms by (auto simp: do_resolve_def Let_def get_inv_def get_fail_def aimed_def get_port_def)

lemma get_do_write_inv:
  assumes "list_all (written_ok ops) (gs_written s)" "q_find ops ''Host'' (gs_req s) = Some (u_host_and_port (gs_url s))"
    "placed s"
  shows "get_inv ops (get_do_write s)"
  using assms by (auto simp: get_do_write_def written_ok_def get_inv_simps)

lemma get_on_connect_inv:
  assumes "get_inv ops s" "gs_pending s = Wait_connect"
  shows "get_inv ops (get_on_connect ec sni s)"
proof -
  let ?s1 = "s\<lparr>gs_conn := Some \<lparr>cn_host = gs_host s, cn_port = gs_port s, cn_verified = None\<rparr>\<rparr>"
  have "get_inv ops (get_do_write ?s1)" if "\<not> gs_secure s"
    using assms that by (intro get_do_write_inv) (auto simp: get_inv_simps)
  moreover have "get_inv ops ?s1" using assms by (auto simp: get_inv_def aimed_def)
  ultimately show ?thesis
    using assms get_fail_inv [OF assms(1)] get_fail_inv [of ops ?s1]
    by (auto simp: get_on_connect_def Let_def) (auto simp: get_inv_def aimed_def)
qed

text \<open>The session after a redirect that can be followed.\<close>

definition redirected :: "'rq get_env \<Rightarrow> url_view \<Rightarrow> 'rq get_session \<Rightarrow> 'rq get_session" where
  "redirected ge redirect s =
     s\<lparr>gs_max_redirects := gs_max_redirects s - 1,
       gs_req := q_set (ge_ops ge) ''Host'' (u_host_and_port redirect)
         (q_set (ge_ops ge) ''Referer'' (u_text (gs_url s)) (q_set_target (ge_ops ge) (u_target redirect) (gs_req s))),
       gs_url := redirect\<rparr>"

lemma get_redirect_cases:
  assumes "gs_max_redirects s \<noteq> 0"
  obtains (fails) f where "get_on_redirect_response ge rsp s = get_fail f (s\<lparr>gs_max_redirects := gs_max_redirects s - 1\<rparr>)"
  | (follows) loc redirect where "rsp_location rsp = Some loc" "ge_resolve ge (gs_url s) loc = Inr redirect"
      "get_on_redirect_response ge rsp s =
        (if get_can_reuse_connection rsp (gs_url s) redirect
         then (redirected ge redirect s)\<lparr>gs_pending := Wait_discard Tls_layer\<rparr>
         else if gs_secure s then (redirected ge redirect s)\<lparr>gs_pending := Wait_reopen\<rparr>
         else do_resolve (redirected ge redirect s))"
proof (cases "rsp_location rsp")
  case None
  then show thesis using assms fails by (simp add: get_on_redirect_response_def Let_def)
next
  case (Some loc)
  show thesis
  proof (cases "ge_resolve ge (gs_url s) loc")
    case (Inl ec)
    then show thesis using assms Some fails by (simp add: get_on_redirect_response_def Let_def)
  next
    case (Inr redirect)
    then show thesis using assms Some
      by (intro follows [OF Some Inr]) (simp add: get_on_redirect_response_def redirected_def Let_def)
  qed
qed

lemma get_on_redirect_inv:
  assumes "http_message (ge_ops ge)" "origin_faithful ge"
    and inv: "get_inv (ge_ops ge) s" "gs_pending s = Wait_header l"
  shows "get_inv (ge_ops ge) (get_on_redirect_response ge rsp s)"
proof (cases "gs_max_redirects s = 0")
  case True
  then show ?thesis using get_fail_inv [OF inv(1)] by (simp add: get_on_redirect_response_def)
next
  case False
  then show ?thesis
  proof (cases rule: get_redirect_cases [where ge = ge and rsp = rsp])
    case (fails f)
    then show ?thesis using inv(1) inv(2) by (simp add: get_inv_def get_fail_def)
  next
    case (follows loc redirect)
    let ?s2 = "redirected ge redirect s"
    have host: "q_find (ge_ops ge) ''Host'' (gs_req ?s2) = Some (u_host_and_port redirect)"
      by (simp add: redirected_def http_message.find_set [OF assms(1)])
    have s2: "gs_written ?s2 = gs_written s" "gs_url ?s2 = redirect" by (simp_all add: redirected_def)
    have same: "placed ?s2" if "get_can_reuse_connection rsp (gs_url s) redirect"
      unfolding placed_def
    proof
      assume ne: "u_origin (gs_url ?s2) \<noteq> []"
      have o: "u_origin (gs_url s) = u_origin redirect"
        using that by (auto simp: get_can_reuse_connection_def split: if_splits)
      then have "u_scheme_id redirect = u_scheme_id (gs_url s) \<and> u_host redirect = u_host (gs_url s) \<and>
          u_has_port redirect = u_has_port (gs_url s) \<and> u_port redirect = u_port (gs_url s)"
        using assms(2) follows(2) ne unfolding origin_faithful_def s2 by blast
      moreover from this have "get_port redirect = get_port (gs_url s)" by (simp add: get_port_def)
      ultimately show "aimed ?s2 \<and> connected ?s2" using inv o ne by (auto simp: get_inv_simps redirected_def)
    qed
    have "get_inv (ge_ops ge) (do_resolve ?s2)" using inv host s2 by (intro do_resolve_inv) (auto simp: get_inv_def)
    moreover have "get_inv (ge_ops ge) (?s2\<lparr>gs_pending := Wait_discard Tls_layer\<rparr>)"
      if "get_can_reuse_connection rsp (gs_url s) redirect"
      using same [OF that] inv host s2 by (auto simp: get_inv_def placed_def aimed_def connected_def)
    moreover have "get_inv (ge_ops ge) (?s2\<lparr>gs_pending := Wait_reopen\<rparr>)" using inv host s2 by (auto simp: get_inv_def)
    ultimately show ?thesis unfolding follows(3) by auto
  qed
qed

lemma sink_fold:
  "foldl (\<lambda>s c. stdout_sink_on_write c s) s chunks = s\<lparr>gs_stdout := gs_stdout s @ concat chunks\<rparr>"
  by (induction chunks arbitrary: s) (simp_all add: stdout_sink_on_write_def)

lemma get_step_inv:
  assumes ge: "http_message (ge_ops ge)" "origin_faithful ge" and inv: "get_inv (ge_ops ge) s"
    and step: "get_step ge e s = Some s'"
  shows "get_inv (ge_ops ge) s'"
proof (cases e)
  case (Ev_resolved ec)
  then show ?thesis using step inv get_fail_inv [OF inv]
    by (auto simp: get_on_resolve_def get_inv_def aimed_def split: pending.splits if_splits)
next
  case (Ev_connected ec sni)
  then show ?thesis using step get_on_connect_inv [OF inv] by (auto split: if_splits)
next
  case (Ev_handshaken ec)
  then have p: "gs_pending s = Wait_handshake" "s' = get_on_ssl_handshake ec s" using step by (auto split: if_splits)
  let ?s1 = "s\<lparr>gs_conn := map_option (\<lambda>c. c\<lparr>cn_verified := Some (gs_host s)\<rparr>) (gs_conn s)\<rparr>"
  have "get_inv (ge_ops ge) (get_do_write ?s1)"
    using inv p(1) by (intro get_do_write_inv) (auto simp: get_inv_simps)
  then show ?thesis using p get_fail_inv [OF inv] by (auto simp: get_on_ssl_handshake_def)
next
  case (Ev_written ec)
  then show ?thesis using step inv get_fail_inv [OF inv]
    by (auto simp: get_on_write_def get_inv_simps split: pending.splits if_splits)
next
  case (Ev_header ec rsp)
  then obtain l where p: "gs_pending s = Wait_header l" "s' = get_on_read_header ge ec rsp s"
    using step by (auto split: pending.splits)
  then show ?thesis using get_fail_inv [OF inv] get_on_redirect_inv [OF ge inv p(1)] inv
    by (auto simp: get_on_read_header_def) (auto simp: get_inv_simps)
next
  case (Ev_discarded ec)
  then obtain l where p: "gs_pending s = Wait_discard l" "s' = get_on_discard ec s"
    using step by (auto split: pending.splits)
  have "get_inv (ge_ops ge) (do_resolve s)" using inv p(1) by (intro do_resolve_inv) (auto simp: get_inv_def)
  moreover have "get_inv (ge_ops ge) (get_do_write s)" using inv p(1) by (intro get_do_write_inv) (auto simp: get_inv_def)
  ultimately show ?thesis using p(2) by (simp add: get_on_discard_def)
next
  case (Ev_reopen ec)
  then have p: "gs_pending s = Wait_reopen" "s' = do_resolve s" using step by (auto split: if_splits)
  then show ?thesis using inv unfolding p(2) by (intro do_resolve_inv) (auto simp: get_inv_def)
next
  case (Ev_body chunks ec shut)
  then show ?thesis using step inv
    by (auto simp: sink_fold get_on_read_def get_fail_def get_inv_def split: pending.splits if_splits)
next
  case (Ev_shut ec)
  then show ?thesis using step inv get_fail_inv [OF inv]
    by (auto simp: get_on_shutdown_def split: if_splits) (auto simp: get_inv_def)
qed

subsection \<open>Coming to an end\<close>

fun stage :: "pending \<Rightarrow> nat" where
  "stage Idle = 0" | "stage Wait_shutdown = 1" | "stage (Wait_body _) = 2" | "stage (Wait_header _) = 3"
| "stage (Wait_write _) = 4" | "stage Wait_handshake = 5" | "stage Wait_connect = 6" | "stage (Wait_resolve _ _) = 7"
| "stage (Wait_discard _) = 8" | "stage Wait_reopen = 8"

definition get_rank :: "'rq get_session \<Rightarrow> nat" where
  "get_rank s = 6 * unat (gs_max_redirects s) + stage (gs_pending s)"

lemma get_fail_rank [simp]: "get_rank (get_fail f s) = 6 * unat (gs_max_redirects s)"
  by (simp add: get_rank_def get_fail_def)

lemma do_resolve_rank: "get_rank (do_resolve s) \<le> 6 * unat (gs_max_redirects s) + 7"
  by (auto simp: do_resolve_def Let_def get_rank_def get_fail_def)

lemma get_do_write_rank [simp]: "get_rank (get_do_write s) = 6 * unat (gs_max_redirects s) + 4"
  by (simp add: get_rank_def get_do_write_def)

lemma get_on_redirect_rank:
  assumes "gs_pending s = Wait_header l"
  shows "get_rank (get_on_redirect_response ge rsp s) < get_rank s"
proof (cases "gs_max_redirects s = 0")
  case True
  then show ?thesis using assms by (simp add: get_on_redirect_response_def) (simp add: get_rank_def)
next
  case False
  then have m: "unat (gs_max_redirects s) = Suc (unat (gs_max_redirects s - 1))" by (simp add: unat_minus_one unat_gt_0)
  have "gs_max_redirects (redirected ge u s) = gs_max_redirects s - 1" for u by (simp add: redirected_def)
  note r = this do_resolve_rank [of "redirected ge u s" for u]
  from False show ?thesis
  proof (cases rule: get_redirect_cases [where ge = ge and rsp = rsp])
    case (fails f) then show ?thesis using assms m by (simp add: get_rank_def get_fail_def)
  next
    case (follows loc redirect)
    then show ?thesis using assms m r [of redirect] by (auto simp: get_rank_def)
  qed
qed

lemma get_step_rank:
  assumes "get_step ge e s = Some s'"
  shows "get_rank s' < get_rank s"
proof (cases e)
  case (Ev_header ec rsp)
  then obtain l where p: "gs_pending s = Wait_header l" "s' = get_on_read_header ge ec rsp s"
    using assms by (auto split: pending.splits)
  then show ?thesis using get_on_redirect_rank [OF p(1), of ge rsp]
    by (auto simp: get_on_read_header_def) (auto simp: get_rank_def)
next
  case (Ev_discarded ec)
  then obtain l where "gs_pending s = Wait_discard l" "s' = get_on_discard ec s"
    using assms by (auto split: pending.splits)
  then show ?thesis using do_resolve_rank [of s] by (auto simp: get_on_discard_def) (auto simp: get_rank_def)
next
  case (Ev_reopen ec)
  then show ?thesis using assms do_resolve_rank [of s] by (auto simp: get_rank_def split: if_splits)
next
  case (Ev_body chunks ec shut)
  then show ?thesis using assms
    by (auto simp: sink_fold get_on_read_def get_rank_def get_fail_def split: pending.splits if_splits)
qed (use assms in \<open>auto simp: get_on_resolve_def get_on_connect_def get_on_ssl_handshake_def get_on_write_def
      get_on_shutdown_def get_rank_def get_fail_def get_do_write_def Let_def split: pending.splits if_splits\<close>)

lemma get_run_inv:
  assumes "http_message (ge_ops ge)"
  shows "get_inv (ge_ops ge) (get_run ge url (get_session_new (ge_ops ge)))"
proof -
  have ci: "\<not> ci_equal ''Host'' ''Accept-Encoding''" by code_simp
  show ?thesis
    unfolding get_run_def Let_def
    by (intro do_resolve_inv) (simp_all add: get_session_new_def http_message.find_laws [OF assms] ci)
qed

lemma get_run_rank: "get_rank (get_run ge url (get_session_new ops)) \<le> 307"
  unfolding get_run_def Let_def by (rule order_trans [OF do_resolve_rank]) (simp add: get_session_new_def)

text \<open>The budget.\<close>

lemma do_resolve_budget:
  "length (gs_written s) + 1 + unat (gs_max_redirects s) \<le> 51 \<Longrightarrow> gs_fails s = [] \<Longrightarrow> get_budget (do_resolve s)"
  by (auto simp: do_resolve_def Let_def get_budget_def get_fail_def)

lemma get_run_budget: "get_budget (get_run ge url (get_session_new ops))"
  unfolding get_run_def Let_def by (intro do_resolve_budget) (simp_all add: get_session_new_def)

lemma get_on_redirect_budget:
  assumes "get_budget s" "gs_pending s = Wait_header l"
  shows "get_budget (get_on_redirect_response ge rsp s)"
proof (cases "gs_max_redirects s = 0")
  case True
  then show ?thesis using assms by (simp add: get_on_redirect_response_def get_budget_def get_fail_def)
next
  case False
  have m: "unat (gs_max_redirects s) = Suc (unat (gs_max_redirects s - 1))"
    using False by (simp add: unat_minus_one unat_gt_0)
  have n: "length (gs_written s) + 1 + unat (gs_max_redirects s - 1) \<le> 51" "gs_fails s = []"
    using assms m by (auto simp: get_budget_def)
  have s2: "gs_written (redirected ge u s) = gs_written s" "gs_max_redirects (redirected ge u s) = gs_max_redirects s - 1"
      "gs_fails (redirected ge u s) = gs_fails s" for u
    by (simp_all add: redirected_def)
  from False show ?thesis
  proof (cases rule: get_redirect_cases [where ge = ge and rsp = rsp])
    case (fails f)
    then show ?thesis using n by (simp add: get_budget_def get_fail_def)
  next
    case (follows loc redirect)
    have "get_budget (do_resolve (redirected ge redirect s))" using n s2 by (intro do_resolve_budget) auto
    then show ?thesis using n s2 unfolding follows(3) by (auto simp: get_budget_def)
  qed
qed

lemma get_step_budget:
  assumes inv: "get_budget s" and step: "get_step ge e s = Some s'"
  shows "get_budget s'"
proof (cases e)
  case (Ev_header ec rsp)
  then obtain l where p: "gs_pending s = Wait_header l" "s' = get_on_read_header ge ec rsp s"
    using step by (auto split: pending.splits)
  then show ?thesis using get_on_redirect_budget [OF inv p(1)] inv
    by (auto simp: get_on_read_header_def) (auto simp: get_budget_def get_fail_def)
next
  case (Ev_discarded ec)
  then obtain l where p: "gs_pending s = Wait_discard l" "s' = get_on_discard ec s"
    using step by (auto split: pending.splits)
  have "get_budget (do_resolve s)" using inv p(1) by (intro do_resolve_budget) (auto simp: get_budget_def)
  then show ?thesis using p inv by (auto simp: get_on_discard_def get_do_write_def) (auto simp: get_budget_def)
next
  case (Ev_reopen ec)
  then have p: "gs_pending s = Wait_reopen" "s' = do_resolve s" using step by (auto split: if_splits)
  then show ?thesis using inv unfolding p(2) by (intro do_resolve_budget) (auto simp: get_budget_def)
next
  case (Ev_body chunks ec shut)
  then show ?thesis using step inv
    by (auto simp: sink_fold get_on_read_def get_fail_def get_budget_def split: pending.splits if_splits)
qed (use assms in \<open>auto simp: get_on_resolve_def get_on_connect_def get_on_ssl_handshake_def get_on_write_def
      get_on_shutdown_def get_budget_def get_fail_def get_do_write_def Let_def split: pending.splits if_splits\<close>)

lemma get_progress: "gs_pending s \<noteq> Idle \<Longrightarrow> \<exists>e. get_step ge e s \<noteq> None"
proof (cases "gs_pending s")
  case (Wait_resolve h p) then have "get_step ge (Ev_resolved ec) s \<noteq> None" for ec by simp then show ?thesis ..
next
  case Wait_connect then have "get_step ge (Ev_connected ec ec) s \<noteq> None" for ec by simp then show ?thesis ..
next
  case Wait_handshake then have "get_step ge (Ev_handshaken ec) s \<noteq> None" for ec by simp then show ?thesis ..
next
  case (Wait_write l) then have "get_step ge (Ev_written ec) s \<noteq> None" for ec by simp then show ?thesis ..
next
  case (Wait_header l) then have "get_step ge (Ev_header ec r) s \<noteq> None" for ec r by simp then show ?thesis ..
next
  case (Wait_body l) then have "get_step ge (Ev_body [] ec ec) s \<noteq> None" for ec by simp then show ?thesis ..
next
  case (Wait_discard l) then have "get_step ge (Ev_discarded ec) s \<noteq> None" for ec by simp then show ?thesis ..
next
  case Wait_reopen then have "get_step ge (Ev_reopen ec) s \<noteq> None" for ec by simp then show ?thesis ..
next
  case Wait_shutdown then have "get_step ge (Ev_shut ec) s \<noteq> None" for ec by simp then show ?thesis ..
qed simp

text \<open>The session with its completions: once with the budget, for any environment, and once with
  what is promised of the placement.\<close>

interpretation get_end: completion_system "\<lambda>s e. get_step ge e s" "\<lambda>s es. get_steps ge es s" get_budget get_rank
    "\<lambda>s. gs_pending s = Idle" for ge :: "'rq get_env"
proof unfold_locales
  show "\<exists>e. get_step ge e s \<noteq> None" if "get_budget s" "\<not> gs_pending s = Idle" for s
    by (rule get_progress [OF that(2)])
qed (auto split: option.split intro: get_step_budget get_step_rank)

lemma get_completion_system:
  assumes "http_message (ge_ops ge)" "origin_faithful ge"
  shows "completion_system (\<lambda>s e. get_step ge e s) (\<lambda>s es. get_steps ge es s) (get_inv (ge_ops ge)) get_rank
    (\<lambda>s. gs_pending s = Idle)"
proof unfold_locales
  show "\<exists>e. get_step ge e s \<noteq> None" if "get_inv (ge_ops ge) s" "\<not> gs_pending s = Idle" for s
    by (rule get_progress [OF that(2)])
qed (auto split: option.split intro: get_step_inv [OF assms] get_step_rank)

text \<open>
  C23. Where the \<^verbatim>\<open>get\<close> client's requests go: whatever the servers and the network answer, every
  request it writes names the host of its URL; and when that URL has an authority, so that its
  origin is not empty, the request travels on a connection to the URL's host and port, which for an
  https URL is the TLS layer of a connection whose certificate was checked against that very
  host, and for any other the plain one.
\<close>

theorem get_requests_placed:
  assumes "http_message (ge_ops ge)" "origin_faithful ge"
    and "get_steps ge es (get_run ge url (get_session_new (ge_ops ge))) = Some s"
  shows "\<forall>w \<in> set (gs_written s).
    q_find (ge_ops ge) ''Host'' (wr_request w) = Some (u_host_and_port (wr_url w)) \<and>
    (u_origin (wr_url w) \<noteq> [] \<longrightarrow>
      (\<exists>c. wr_conn w = Some c \<and> cn_host c = u_host (wr_url w) \<and> get_port (wr_url w) = Some (cn_port c) \<and>
        (if u_scheme_id (wr_url w) = scheme_https
         then wr_layer w = Tls_layer \<and> cn_verified c = Some (u_host (wr_url w)) else wr_layer w = Tcp_layer)))"
  using completion_system.run_inv [OF get_completion_system [OF assms(1,2)] assms(3) get_run_inv [OF assms(1)]]
  by (auto simp: get_inv_def list_all_iff written_ok_def leads_to_def layer_of_def)

text \<open>
  C24. The \<^verbatim>\<open>get\<close> client comes to an end: no execution has more than 307 completions or writes more
  than 51 requests; as long as it is not over an operation is outstanding and nothing has been
  reported as failed; and at most one failure is ever reported.
\<close>

theorem get_session_ends:
  assumes "get_steps ge es (get_run ge url (get_session_new (ge_ops ge))) = Some s"
  shows "length es \<le> 307 \<and> length (gs_written s) \<le> 51 \<and> length (gs_fails s) \<le> 1 \<and>
    (gs_pending s \<noteq> Idle \<longrightarrow> gs_fails s = [] \<and> (\<exists>e. get_step ge e s \<noteq> None))"
proof -
  have "length es \<le> 307"
    using get_end.bounded [OF assms get_run_budget] get_run_rank [of ge url "ge_ops ge"] by simp
  moreover have "gs_pending s = Idle \<or> (\<exists>e. get_step ge e s \<noteq> None)"
    by (rule get_end.not_stuck [OF assms get_run_budget])
  ultimately show ?thesis using get_end.run_inv [OF assms get_run_budget] by (auto simp: get_budget_def)
qed

subsection \<open>An example\<close>

definition ex_get :: "ref_request get_env" where
  "ex_get = \<lparr>ge_ops = ref_ops, ge_brotli = False, ge_zlib = False,
     ge_resolve = (\<lambda>base loc. Inr (base\<lparr>u_text := loc\<rparr>))\<rparr>"

definition ex_get_url :: url_view where
  "ex_get_url = url_blank\<lparr>u_scheme_id := scheme_https, u_host := ''a.io'', u_host_and_port := ''a.io'',
     u_origin := ''https://a.io''\<rparr>"

definition ex_get_events :: "get_event list" where
  "ex_get_events = [Ev_resolved no_error, Ev_connected no_error no_error, Ev_handshaken no_error]"

lemma ex_get_faithful: "origin_faithful ex_get" "http_message (ge_ops ex_get)"
  by (auto simp: origin_faithful_def ex_get_def intro: refmsg.http_message_axioms)

lemma ex_get_runs:
  "\<exists>s w. get_steps ex_get ex_get_events (get_run ex_get ex_get_url (get_session_new (ge_ops ex_get))) = Some s \<and>
     gs_written s = [w] \<and> wr_url w = ex_get_url \<and> gs_pending s = Wait_write Tls_layer"
  by (simp add: ex_get_events_def get_run_def do_resolve_def get_session_new_def get_on_resolve_def get_on_connect_def
      get_on_ssl_handshake_def get_do_write_def data_layer_def no_error_def ec_failed_def Let_def ex_get_url_def url_blank_def)

theorem get_requests_placed_witness:
  "\<exists>s w. get_steps ex_get ex_get_events (get_run ex_get ex_get_url (get_session_new (ge_ops ex_get))) = Some s \<and>
     w \<in> set (gs_written s) \<and> wr_layer w = Tls_layer"
proof -
  obtain s w where s: "get_steps ex_get ex_get_events (get_run ex_get ex_get_url (get_session_new (ge_ops ex_get))) = Some s"
      "gs_written s = [w]" "wr_url w = ex_get_url"
    using ex_get_runs by blast
  have "wr_layer w = Tls_layer"
    using get_requests_placed [OF ex_get_faithful(2,1) s(1)] s(2,3) by (auto simp: ex_get_url_def)
  then show ?thesis using s(1,2) by auto
qed

theorem get_session_ends_witness:
  "\<exists>s. get_steps ex_get ex_get_events (get_run ex_get ex_get_url (get_session_new (ge_ops ex_get))) = Some s \<and>
     gs_pending s \<noteq> Idle \<and> (\<exists>e. get_step ex_get e s \<noteq> None)"
proof -
  obtain s where s: "get_steps ex_get ex_get_events (get_run ex_get ex_get_url (get_session_new (ge_ops ex_get))) = Some s"
      "gs_pending s = Wait_write Tls_layer"
    using ex_get_runs by blast
  then show ?thesis using get_session_ends [OF s(1)] by auto
qed

text \<open>
  Two URLs without an authority: their empty origins are equal, so the request for the https one
  is written to the plain connection of the other.
\<close>

definition ex_bare :: "scheme \<Rightarrow> url_view" where
  "ex_bare sch = url_blank\<lparr>u_scheme_id := sch\<rparr>"

lemma get_bare_origin_plain:
  "\<exists>s. get_steps (ex_get\<lparr>ge_resolve := \<lambda>base loc. Inr (ex_bare scheme_https)\<rparr>)
      [Ev_resolved no_error, Ev_connected no_error no_error, Ev_written no_error,
       Ev_header no_error \<lparr>rsp_status = 302, rsp_http11 = True, rsp_close = False, rsp_location = Some ''https:/b'',
         rsp_set_cookies = [], rsp_content_range = False, rsp_payload_size = None, rsp_buffer = [], rsp_dispositions = []\<rparr>,
       Ev_discarded no_error]
      (get_run ex_get (ex_bare scheme_http) (get_session_new (ge_ops ex_get))) = Some s \<and>
     list_ex (\<lambda>w. wr_url w = ex_bare scheme_https \<and> wr_layer w = Tcp_layer) (gs_written s)"
  by (simp add: get_run_def do_resolve_def get_session_new_def get_on_resolve_def get_on_connect_def get_on_write_def
      get_on_read_header_def get_on_redirect_response_def get_on_discard_def get_can_reuse_connection_def get_is_redirect_def
      get_do_write_def data_layer_def no_error_def ec_failed_def Let_def ex_bare_def url_blank_def)

end
