(* ===== verification/Visit.thy ===== *)
theory Visit
  imports Connect
begin

text \<open>
  The \<^verbatim>\<open>visit\<close> example (\<^verbatim>\<open>example/client/visit/main.cpp\<close>): connecting a socket to the host of a URL,
  and the worker that does so again and again.  What Boost.URL knows of a host (its kind, its
  address, a port as a number) and the default ports are parameters.
\<close>

datatype host_type = host_none | host_name | host_ipv4 | host_ipv6 | host_ipvfuture

record url_host =
  uh_type :: "url_view \<Rightarrow> host_type"
  uh_address :: "url_view \<Rightarrow> nat"
  uh_port_number :: "url_view \<Rightarrow> u16"
  uh_default_port :: "scheme \<Rightarrow> u16"

record visit_op =
  vo_host :: string
  vo_scheme :: string
  vo_ep :: tcp_endpoint

text \<open>A default-constructed endpoint.\<close>

definition endpoint_blank :: tcp_endpoint where
  "endpoint_blank = Ep_v4 0 0"

definition visit_port :: "url_host \<Rightarrow> url_view \<Rightarrow> u16" where
  "visit_port uh url = (if u_has_port url then uh_port_number uh url else uh_default_port uh (u_scheme_id url))"

definition visit_connect_op :: "url_host \<Rightarrow> url_view \<Rightarrow> exn + visit_op" where
  "visit_connect_op uh url =
     (case uh_type uh url of
        host_none \<Rightarrow> Inl (invalid_argument ''missing authority'')
      | host_name \<Rightarrow> Inr \<lparr>vo_host = u_encoded_host url, vo_scheme = u_scheme url, vo_ep = endpoint_blank\<rparr>
      | host_ipv4 \<Rightarrow>
          if visit_port uh url = 0 then Inl (invalid_argument ''invalid port'')
          else Inr \<lparr>vo_host = [], vo_scheme = [], vo_ep = Ep_v4 (uh_address uh url) (unat (visit_port uh url))\<rparr>
      | host_ipv6 \<Rightarrow>
          if visit_port uh url = 0 then Inl (invalid_argument ''invalid port'')
          else Inr \<lparr>vo_host = [], vo_scheme = [], vo_ep = Ep_v6 (uh_address uh url) (unat (visit_port uh url))\<rparr>
      | host_ipvfuture \<Rightarrow> Inl (invalid_argument ''unsupported IPvFuture''))"

text \<open>Running the operation: what is passed to the handler, an error or the endpoint.  After a
  failed connect to a range the iterator passed on is the end of the range, which is
  dereferenced.\<close>

definition visit_connect :: "visit_op \<Rightarrow> ('rq, exn option \<times> tcp_endpoint) awaitable" where
  "visit_connect op s =
     (if vo_host op \<noteq> [] then
        (case async_resolve (vo_host op) (vo_scheme op) s of
           (Inl ec, s1) \<Rightarrow> (Inr (Some ec, endpoint_blank), s1)
         | (Inr results, s1) \<Rightarrow>
             (case find (nt_accepts s1) results of
                None \<Rightarrow> (Inl (undefined_behaviour ''end iterator dereferenced''), s1)
              | Some e \<Rightarrow> (Inr (None, e), snd (log_act (Connected e) s1))))
      else
        if nt_accepts s (vo_ep op) then (Inr (None, vo_ep op), snd (log_act (Connected (vo_ep op)) s))
        else (Inr (Some (system_error ''connect''), vo_ep op), s))"

subsection \<open>The worker\<close>

definition visit_url :: string where
  "visit_url = ''http://www.boost.org''"

text \<open>What one visit brings: whether the connect failed, and whether the shutdown that follows a
  successful one failed.  The request that is built is not sent.\<close>

record visit_outcome =
  vi_connect_failed :: bool
  vi_shutdown_failed :: bool

text \<open>The visits of a worker: it tries again after every failure and stops after a success.\<close>

fun visit_run :: "visit_outcome list \<Rightarrow> string list \<times> bool" where
  "visit_run [] = ([], False)"
| "visit_run (v # vs) =
     (if vi_connect_failed v \<or> vi_shutdown_failed v
      then (case visit_run vs of (urls, stopped) \<Rightarrow> (visit_url # urls, stopped))
      else ([visit_url], True))"

definition visit_request_path :: "url_view \<Rightarrow> string" where
  "visit_request_path url = (if u_path url = [] then ''/'' else u_path url)"

subsection \<open>Where it connects to\<close>

text \<open>
  A visit connects to the address and port of a numeric host, or its scheme's default port; a
  named host is resolved with the scheme as service, so a port in the URL is not used; and an
  address is only reported for an endpoint that was connected to.
\<close>

theorem visit_connects_to:
  assumes "visit_connect_op uh url = Inr op" "u_encoded_host url \<noteq> []"
    and "visit_connect op s = (Inr (None, e), s')"
  shows "if uh_type uh url = host_name
    then (\<exists>results. nt_resolve s (u_encoded_host url) (u_scheme url) = Inr results \<and> e \<in> set results \<and>
      nt_log s' = nt_log s @ [Resolved (u_encoded_host url) (u_scheme url), Connected e])
    else visit_port uh url \<noteq> 0 \<and> nt_log s' = nt_log s @ [Connected e] \<and>
      e \<in> {Ep_v4 (uh_address uh url) (unat (visit_port uh url)), Ep_v6 (uh_address uh url) (unat (visit_port uh url))}"
proof (cases "uh_type uh url = host_name")
  case True
  then have op: "vo_host op = u_encoded_host url" "vo_scheme op = u_scheme url"
    using assms(1) by (auto simp: visit_connect_op_def)
  have "e \<in> set results" if "find P results = Some e" for P results
    using that by (auto simp: find_Some_iff)
  then show ?thesis
    using True assms(2,3)
    by (auto simp: visit_connect_def async_resolve_def co_bind_def log_act_def op split: sum.splits option.splits)
next
  case False
  then have op: "vo_host op = []" "visit_port uh url \<noteq> 0"
      "vo_ep op \<in> {Ep_v4 (uh_address uh url) (unat (visit_port uh url)), Ep_v6 (uh_address uh url) (unat (visit_port uh url))}"
    using assms(1) by (auto simp: visit_connect_op_def split: host_type.splits if_splits)
  then show ?thesis using False assms(3) by (auto simp: visit_connect_def log_act_def split: if_splits)
qed

text \<open>
  The worker stops exactly after its first visit without a failure and goes on as long as there
  are only failures.
\<close>

theorem visit_run_stops:
  "snd (visit_run vs) \<longleftrightarrow> (\<exists>v \<in> set vs. \<not> vi_connect_failed v \<and> \<not> vi_shutdown_failed v)"
  "length (fst (visit_run vs)) =
     length (takeWhile (\<lambda>v. vi_connect_failed v \<or> vi_shutdown_failed v) vs) + (if snd (visit_run vs) then 1 else 0)"
  by (induction vs) (auto split: prod.splits)

end
