(* ===== verification/Server_Main.thy ===== *)
theory Server_Main
  imports Http_Message
begin

text \<open>
  The example server (\<^verbatim>\<open>example/server/main.cpp\<close>): the two redirecting route handlers and the order
  in which the program starts and stops its servers.  An answer is its status, its header, whose
  operations are those of the library's field container, and the body that was sent.
\<close>

record 'rq answer =
  an_status :: nat
  an_head :: 'rq
  an_body :: "string option"

datatype route_result = Route_done | Route_error error_code

definition send_body :: "error_code \<Rightarrow> string \<Rightarrow> 'rq answer \<Rightarrow> route_result \<times> 'rq answer" where
  "send_body ec body a =
     (if ec_failed ec then (Route_error ec, a) else (Route_done, a\<lparr>an_body := Some body\<rparr>))"

definition redirect_page :: "string \<Rightarrow> string" where
  "redirect_page url =
     ''<!DOCTYPE html><html><head><meta charset='' @ [CHR 0x22] @ ''utf-8'' @ [CHR 0x22] @ ''>'' @
     ''<title>Redirecting</title></head><body>'' @
     ''<p>Redirecting to <a href='' @ [CHR 0x22] @ url @ [CHR 0x22] @ ''>'' @ url @ ''</a></p></body></html>''"

definition redirect_handler ::
    "'rq request_ops \<Rightarrow> string \<Rightarrow> nat \<Rightarrow> error_code \<Rightarrow> 'rq answer \<Rightarrow> route_result \<times> 'rq answer" where
  "redirect_handler ops url code send_ec a =
     send_body send_ec (redirect_page url)
       (a\<lparr>an_status := code,
          an_head := q_set ops ''Content-Type'' ''text/html; charset=utf-8'' (q_set ops ''Location'' url (an_head a))\<rparr>)"

text \<open>What the handler reads of a request: its host field, path and query.  A missing field makes
  \<^verbatim>\<open>at\<close> throw.\<close>

record plain_request =
  pq_host :: "string option"
  pq_path :: string
  pq_query :: "string option"

definition https_location :: "string \<Rightarrow> plain_request \<Rightarrow> string" where
  "https_location host rq =
     (let url = ''https://'' @ host @ pq_path rq in
      case pq_query rq of Some q \<Rightarrow> url @ ''?'' @ q | None \<Rightarrow> url)"

definition https_redirect ::
    "'rq request_ops \<Rightarrow> plain_request \<Rightarrow> error_code \<Rightarrow> 'rq answer \<Rightarrow> exn + route_result \<times> 'rq answer" where
  "https_redirect ops rq send_ec a =
     (case pq_host rq of
        None \<Rightarrow> Inl (out_of_range ''Host'')
      | Some host \<Rightarrow>
          Inr (send_body send_ec ''pupu''
            (a\<lparr>an_status := 302, an_head := q_set ops ''Location'' (https_location host rq) (an_head a)\<rparr>)))"

subsection \<open>The program\<close>

datatype server_act =
    Act_usage | Act_services | Act_bind nat | Act_bind_failed | Act_start nat | Act_stop nat | Act_join nat

datatype server_exit = Exit_success | Exit_failure | Exit_threw exn

text \<open>What the two binds and the wait for the signal report.\<close>

definition server_main ::
    "string list \<Rightarrow> error_code \<Rightarrow> error_code \<Rightarrow> error_code \<Rightarrow> server_exit \<times> server_act list" where
  "server_main argv bind80 bind443 sig =
     (if length argv \<noteq> 3 then (Exit_failure, [Act_usage])
      else if ec_failed bind80 then (Exit_failure, [Act_services, Act_bind 80, Act_bind_failed])
      else if ec_failed bind443
      then (Exit_failure, [Act_services, Act_bind 80, Act_start 80, Act_bind 443, Act_bind_failed])
      else if ec_failed sig
      then (Exit_threw (system_error ''signal''),
            [Act_services, Act_bind 80, Act_start 80, Act_bind 443, Act_start 443])
      else (Exit_success,
            [Act_services, Act_bind 80, Act_start 80, Act_bind 443, Act_start 443,
             Act_stop 80, Act_stop 443, Act_join 80, Act_join 443]))"

subsection \<open>What a client gets\<close>

text \<open>
  A request on the plain port is answered with a redirect to the same host, path and query over
  https, whatever fields the answer had before; without a host the handler throws.
\<close>

theorem https_redirect_answer:
  assumes "http_message ops"
  shows "case https_redirect ops rq send_ec a of
      Inl e \<Rightarrow> pq_host rq = None \<and> e = out_of_range ''Host''
    | Inr (r, a') \<Rightarrow> \<exists>host. pq_host rq = Some host \<and> an_status a' = 302 \<and>
        q_find ops ''Location'' (an_head a') =
          Some (''https://'' @ host @ pq_path rq @ (case pq_query rq of Some q \<Rightarrow> CHR ''?'' # q | None \<Rightarrow> [])) \<and>
        (r = Route_done \<longleftrightarrow> \<not> ec_failed send_ec)"
  by (auto simp: https_redirect_def send_body_def https_location_def Let_def http_message.find_set [OF assms]
      split: option.split)

end
