(* ===== verification/Option_Table.thy ===== *)
theory Option_Table
  imports Parse_Args
begin

text \<open>
  The table of options of the burl client (\<^verbatim>\<open>parse_args\<close> of \<^verbatim>\<open>options.cpp\<close>), from which
  Boost.Program_options parses the arguments: every option with its short form and the type of its
  value.  What the rest of the function reads is compared with what the table declares.
\<close>

subsection \<open>The table\<close>

datatype option_type = Switch | Text | Texts | Seconds | Int64 | UInt16 | UInt64 | Bools

type_synonym option_entry = "string \<times> char option \<times> option_type"

definition odesc_first :: "option_entry list" where
  "odesc_first =
     [(''abstract-unix-socket'', None, Text), (''cacert'', None, Text), (''capath'', None, Text),
      (''cert'', Some (CHR ''E''), Text), (''ciphers'', None, Text), (''compressed'', None, Switch),
      (''connect-timeout'', None, Seconds), (''connect-to'', None, Texts),
      (''continue-at'', Some (CHR ''C''), Text), (''cookie'', Some (CHR ''b''), Texts),
      (''cookie-jar'', Some (CHR ''c''), Text), (''create-dirs'', None, Switch), (''curves'', None, Text),
      (''data'', Some (CHR ''d''), Texts), (''data-ascii'', None, Texts), (''data-binary'', None, Texts),
      (''data-raw'', None, Texts), (''data-urlencode'', None, Texts),
      (''disallow-username-in-url'', None, Switch), (''dump-header'', Some (CHR ''D''), Text),
      (''expect100-timeout'', None, Seconds), (''fail'', Some (CHR ''f''), Switch),
      (''fail-early'', None, Switch), (''fail-with-body'', None, Switch), (''form'', Some (CHR ''F''), Texts),
      (''form-string'', None, Texts), (''key'', None, Text), (''get'', Some (CHR ''G''), Switch),
      (''globoff'', Some (CHR ''g''), Switch), (''head'', Some (CHR ''I''), Switch),
      (''header'', Some (CHR ''H''), Texts), (''help'', Some (CHR ''h''), Switch),
      (''http1.0'', Some (CHR ''0''), Switch), (''http1.1'', None, Switch),
      (''insecure'', Some (CHR ''k''), Switch), (''ipv4'', Some (CHR ''4''), Switch),
      (''ipv6'', Some (CHR ''6''), Switch), (''json'', None, Texts),
      (''junk-session-cookies'', Some (CHR ''j''), Switch), (''limit-rate'', None, Text),
      (''location'', Some (CHR ''L''), Switch), (''location-trusted'', None, Switch),
      (''max-filesize'', None, Text), (''max-redirs'', None, Int64), (''max-time'', None, Seconds)]"

definition odesc_second :: "option_entry list" where
  "odesc_second =
     [(''no-buffer'', None, Switch), (''no-keepalive'', None, Switch), (''no-progress-meter'', None, Switch),
      (''output'', Some (CHR ''o''), Texts), (''output-dir'', None, Text),
      (''parallel'', Some (CHR ''Z''), Switch), (''parallel-immediate'', None, Switch),
      (''parallel-max'', None, UInt16), (''pass'', None, Text), (''post301'', None, Switch),
      (''post302'', None, Switch), (''post303'', None, Switch), (''proto-redir'', None, Texts),
      (''proxy'', Some (CHR ''x''), Text), (''range'', Some (CHR ''r''), Text),
      (''referer'', Some (CHR ''e''), Text), (''remote-header-name'', Some (CHR ''J''), Switch),
      (''remote-name'', Some (CHR ''O''), Bools), (''remote-name-all'', None, Switch),
      (''remove-on-error'', None, Switch), (''request'', Some (CHR ''X''), Text),
      (''request-target'', None, Text), (''resolve'', None, Texts), (''retry'', None, UInt64),
      (''retry-all-errors'', None, Switch), (''retry-connrefused'', None, Switch),
      (''retry-delay'', None, Seconds), (''retry-max-time'', None, Seconds), (''show-headers'', None, Switch),
      (''skip-existing'', None, Switch), (''tcp-nodelay'', None, Switch), (''tls-max'', None, Text),
      (''tls13-ciphers'', None, Text), (''tlsv1.0'', None, Switch), (''tlsv1.1'', None, Switch),
      (''tlsv1.2'', None, Switch), (''tlsv1.3'', None, Switch), (''include'', Some (CHR ''i''), Switch),
      (''unix-socket'', None, Text), (''upload-file'', Some (CHR ''T''), Texts), (''url'', None, Texts),
      (''url-query'', None, Texts), (''user'', Some (CHR ''u''), Text),
      (''user-agent'', Some (CHR ''A''), Text)]"

definition odesc :: "option_entry list" where
  "odesc = odesc_first @ odesc_second"

text \<open>The option that takes the arguments without a name.\<close>

definition podesc :: string where
  "podesc = ''url''"

definition names :: "option_type list \<Rightarrow> string list" where
  "names ts = map fst (filter (\<lambda>(n, s, t). t \<in> set ts) odesc)"

definition declared :: "option_type list \<Rightarrow> string \<Rightarrow> bool" where
  "declared ts k \<longleftrightarrow> k \<in> set (names ts)"

subsection \<open>What is read is declared\<close>

text \<open>Two results of Boost.Program_options that agree on the declared options, each read as the
  type it is declared with, except those in \<^verbatim>\<open>ks\<close>.\<close>

definition agree_but :: "string set \<Rightarrow> variables_map \<Rightarrow> variables_map \<Rightarrow> bool" where
  "agree_but ks vm vm' \<longleftrightarrow>
     (\<forall>k. k \<notin> ks \<and> declared [Switch] k \<longrightarrow> vm_flag vm k = vm_flag vm' k) \<and>
     (\<forall>k. k \<notin> ks \<and> declared [Text] k \<longrightarrow> vm_string vm k = vm_string vm' k) \<and>
     (\<forall>k. k \<notin> ks \<and> declared [Texts] k \<longrightarrow> vm_strings vm k = vm_strings vm' k) \<and>
     (\<forall>k. k \<notin> ks \<and> declared [Int64] k \<longrightarrow> vm_int64 vm k = vm_int64 vm' k) \<and>
     (\<forall>k. k \<notin> ks \<and> declared [UInt16] k \<longrightarrow> vm_uint16 vm k = vm_uint16 vm' k) \<and>
     (\<forall>k. k \<notin> ks \<and> declared [UInt64] k \<longrightarrow> vm_uint64 vm k = vm_uint64 vm' k) \<and>
     (\<forall>k. k \<notin> ks \<and> declared [Seconds] k \<longrightarrow> vm_duration vm k = vm_duration vm' k)"

definition read_flags :: "string list" where
  "read_flags =
     [''compressed'', ''create-dirs'', ''disallow-username-in-url'', ''fail'', ''fail-early'',
      ''fail-with-body'', ''get'', ''globoff'', ''head'', ''help'', ''http1.0'', ''http1.1'',
      ''insecure'', ''ipv4'', ''ipv6'', ''junk-session-cookies'', ''location'', ''location-trusted'',
      ''no-buffer'', ''no-keepalive'', ''no-progress-meter'', ''parallel'', ''post301'', ''post302'',
      ''post303'', ''remote-header-name'', ''remote-name-all'', ''remove-on-error'',
      ''retry-all-errors'', ''retry-connrefused'', ''show-headers'', ''skip-existing'',
      ''tcp-nodelay'', ''tlsv1.0'', ''tlsv1.1'', ''tlsv1.2'', ''tlsv1.3'', ''include'']"

definition read_strings :: "string list" where
  "read_strings =
     [''abstract-unix-socket'', ''cacert'', ''capath'', ''cert'', ''ciphers'', ''continue-at'',
      ''cookie-jar'', ''curves'', ''dump-header'', ''key'', ''limit-rate'', ''max-filesize'',
      ''output-dir'', ''pass'', ''proxy'', ''range'', ''referer'', ''request'', ''request-target'',
      ''tls-max'', ''tls13-ciphers'', ''unix-socket'', ''user'', ''user-agent'']"

definition read_text_lists :: "string list" where
  "read_text_lists =
     [''connect-to'', ''cookie'', ''data'', ''data-ascii'', ''data-binary'', ''data-raw'',
      ''data-urlencode'', ''form'', ''form-string'', ''header'', ''json'', ''proto-redir'',
      ''resolve'', ''upload-file'', ''url'', ''url-query'']"

definition read_durations :: "string list" where
  "read_durations =
     [''connect-timeout'', ''expect100-timeout'', ''max-time'', ''retry-delay'', ''retry-max-time'']"

definition unread :: "string list" where
  "unread = [''parallel-immediate'', ''output'', ''remote-name'']"

lemma names_read:
  "filter (\<lambda>k. k \<notin> set unread) (names [Switch]) = read_flags"
  "filter (\<lambda>k. k \<notin> set unread) (names [Text]) = read_strings"
  "filter (\<lambda>k. k \<notin> set unread) (names [Texts]) = read_text_lists"
  "filter (\<lambda>k. k \<notin> set unread) (names [Int64]) = [''max-redirs'']"
  "filter (\<lambda>k. k \<notin> set unread) (names [UInt16]) = [''parallel-max'']"
  "filter (\<lambda>k. k \<notin> set unread) (names [UInt64]) = [''retry'']"
  "filter (\<lambda>k. k \<notin> set unread) (names [Seconds]) = read_durations"
  by code_simp+

lemma agree_reads:
  assumes "agree_but (set unread) vm vm'"
  shows "list_all (\<lambda>k. vm_flag vm k = vm_flag vm' k) read_flags"
    and "list_all (\<lambda>k. vm_string vm k = vm_string vm' k) read_strings"
    and "list_all (\<lambda>k. vm_strings vm k = vm_strings vm' k) read_text_lists"
    and "list_all (\<lambda>k. vm_int64 vm k = vm_int64 vm' k) [''max-redirs'']"
    and "list_all (\<lambda>k. vm_uint16 vm k = vm_uint16 vm' k) [''parallel-max'']"
    and "list_all (\<lambda>k. vm_uint64 vm k = vm_uint64 vm' k) [''retry'']"
    and "list_all (\<lambda>k. vm_duration vm k = vm_duration vm' k) read_durations"
  using assms unfolding names_read [symmetric] agree_but_def declared_def list_all_iff by auto

lemmas agree_values = agree_reads [unfolded read_flags_def read_strings_def read_text_lists_def
    read_durations_def list.pred_inject]

text \<open>Section by section.\<close>

lemma agree_setters:
  assumes "agree_but (set unread) vm vm'"
  shows "set_durations vm = set_durations vm'" "set_bools vm = set_bools vm'" "set_strings vm = set_strings vm'"
    "set_proxy env vm = set_proxy env vm'" "set_retry vm = set_retry vm'" "set_abstract_socket vm = set_abstract_socket vm'"
    "set_referer env vm = set_referer env vm'" "set_limit_rate env vm = set_limit_rate env vm'"
    "set_max_redirs vm = set_max_redirs vm'" "set_max_filesize env vm = set_max_filesize env vm'"
    "set_parallel vm = set_parallel vm'" "set_proto_redir vm = set_proto_redir vm'" "set_continue_at vm = set_continue_at vm'"
    "set_cookie_options vm = set_cookie_options vm'"
  by (simp_all add: agree_values [OF assms] fun_eq_iff set_durations_def set_bools_def set_strings_def set_bool_def set_string_def
      set_string_opt_def set_frac_sec_def set_frac_sec_opt_def set_proxy_def set_retry_def set_abstract_socket_def
      set_referer_def set_limit_rate_def set_max_redirs_def set_max_filesize_def set_parallel_def set_proto_redir_def
      set_continue_at_def set_cookie_options_def cong: option.case_cong)

lemma agree_settings: "agree_but (set unread) vm vm' \<Longrightarrow> parse_settings env vm = parse_settings env vm'"
  by (simp add: parse_settings_def agree_setters)

lemma agree_ssl_parts:
  assumes "agree_but (set unread) vm vm'"
  shows "tls_max_of vm = tls_max_of vm'" "tls_min_of vm = tls_min_of vm'" "ssl_verify env vm = ssl_verify env vm'"
    "ssl_optional vm ''cert'' = ssl_optional vm' ''cert''" "ssl_optional vm ''ciphers'' = ssl_optional vm' ''ciphers''"
    "ssl_optional vm ''tls13-ciphers'' = ssl_optional vm' ''tls13-ciphers''"
    "ssl_optional vm ''curves'' = ssl_optional vm' ''curves''" "ssl_optional vm ''pass'' = ssl_optional vm' ''pass''"
    "ssl_optional vm ''key'' = ssl_optional vm' ''key''"
  by (simp_all add: agree_values [OF assms] fun_eq_iff tls_max_of_def tls_min_of_def ssl_verify_def ssl_optional_def cong: option.case_cong)

lemma agree_ssl: "agree_but (set unread) vm vm' \<Longrightarrow> make_ssl_ctx env vm = make_ssl_ctx env vm'"
  by (simp only: make_ssl_ctx_def agree_ssl_parts)

lemma agree_requests:
  "agree_but (set unread) vm vm' \<Longrightarrow> parse_requests gparse vm options globoff urls = parse_requests gparse vm' options globoff urls"
  by (simp add: agree_values parse_requests_def)

lemma agree_method:
  assumes "agree_but (set unread) vm vm'"
  shows "check_method vm = check_method vm'"
proof -
  have e: "vm_strings vm ''form'' = vm_strings vm' ''form''" "vm_strings vm ''form-string'' = vm_strings vm' ''form-string''"
      "vm_strings vm ''json'' = vm_strings vm' ''json''" "vm_strings vm ''upload-file'' = vm_strings vm' ''upload-file''"
    using agree_values(3) [OF assms] by simp_all
  show ?thesis by (rule ext) (simp only: check_method_def e)
qed

lemma agree_content_parts:
  assumes "agree_but (set unread) vm vm'"
  shows "data_option vm ''data'' = data_option vm' ''data''" "data_option vm ''data-ascii'' = data_option vm' ''data-ascii''"
    "data_option vm ''data-binary'' = data_option vm' ''data-binary''" "data_option vm ''data-raw'' = data_option vm' ''data-raw''"
    "data_option vm ''data-urlencode'' = data_option vm' ''data-urlencode''" "use_data env vm = use_data env vm'"
    "set_json vm = set_json vm'" "set_url_query env vm = set_url_query env vm'"
    "set_rewrites env vm = set_rewrites env vm'" "set_header_options env vm = set_header_options env vm'"
  by (simp_all add: agree_values [OF assms] fun_eq_iff data_option_def use_data_def set_json_def set_url_query_def
      set_rewrites_def set_header_options_def cong: option.case_cong)

lemma agree_content: "agree_but (set unread) vm vm' \<Longrightarrow> parse_content env vm oc w = parse_content env vm' oc w"
  by (simp only: parse_content_def collect_data_def agree_content_parts agree_method)

text \<open>
  C30. The options that \<^verbatim>\<open>parse_args\<close> reads are declared, each with the type it is read as, the numbers with their width: no option and
  no short form is declared twice, the option for arguments without a name is declared, and the
  result depends on nothing but the values the declared options have at their types.  The
  declared option \<^verbatim>\<open>--parallel-immediate\<close> is read nowhere, and \<^verbatim>\<open>--output\<close> and \<^verbatim>\<open>--remote-name\<close> only in
  the order of the command line.
\<close>

theorem options_declared:
  assumes "agree_but {''parallel-immediate'', ''output'', ''remote-name''} vm vm'"
  shows "parse_args env vm options w = parse_args env vm' options w \<and>
    distinct (map fst odesc) \<and> distinct (List.map_filter (\<lambda>(n, s, t). s) odesc) \<and> declared [Texts] podesc"
proof -
  have a: "agree_but (set unread) vm vm'" using assms by (simp add: unread_def)
  have "parse_args env vm options w = parse_args env vm' options w"
  proof -
    have e: "vm_strings vm ''url'' = vm_strings vm' ''url''" "vm_flag vm ''help'' = vm_flag vm' ''help''"
      using agree_values(1,3) [OF a] by simp_all
    show ?thesis
      by (simp only: parse_args_def e agree_settings [OF a] agree_ssl [OF a] agree_requests [OF a] agree_content [OF a])
  qed
  moreover have "distinct (map fst odesc)" "distinct (List.map_filter (\<lambda>(n, s, t). s) odesc)" "declared [Texts] podesc"
    by code_simp+
  ultimately show ?thesis by blast
qed

text \<open>Values of other types under a declared name, and an option that is not read.\<close>

definition ex_noise :: variables_map where
  "ex_noise = \<lparr>vm_flag = (\<lambda>k. k = ''parallel-immediate''), vm_string = (\<lambda>k. if k = ''retry'' then Some ''x'' else None),
     vm_strings = Map.empty, vm_int64 = Map.empty, vm_uint16 = [''retry'' \<mapsto> 1], vm_uint64 = Map.empty, vm_duration = Map.empty\<rparr>"

definition ex_quiet :: variables_map where
  "ex_quiet = \<lparr>vm_flag = (\<lambda>_. False), vm_string = Map.empty, vm_strings = Map.empty, vm_int64 = Map.empty,
     vm_uint16 = Map.empty, vm_uint64 = Map.empty, vm_duration = Map.empty\<rparr>"

theorem options_declared_witness:
  "\<forall>env options w. parse_args env ex_noise options w = parse_args env ex_quiet options w"
proof -
  have "\<not> declared [Text] ''retry''" "\<not> declared [UInt16] ''retry''" by code_simp+
  then have "agree_but {''parallel-immediate'', ''output'', ''remote-name''} ex_noise ex_quiet"
    by (auto simp: agree_but_def ex_noise_def ex_quiet_def)
  from options_declared [OF this] show ?thesis by blast
qed

end
