(* ===== verification/Burl_Stream.thy ===== *)
theory Burl_Stream
  imports Any_Stream Connect_Proofs
begin

text \<open>
  The stream of a transfer of the burl client: what it wraps and how it is shut down
  (\<^verbatim>\<open>any_stream.hpp\<close>), and the lambda \<^verbatim>\<open>connect_to\<close> of \<^verbatim>\<open>perform_request\<close> (\<^verbatim>\<open>main.cpp\<close>), which gives it a new
  connection with the rate limits of the options.
\<close>

subsection \<open>The wrapped stream\<close>

text \<open>The implementation behind \<^verbatim>\<open>async_shutdown\<close>: a stream with a handshake is asked to shut down, any
  other is closed.  The history of these calls is kept with the error each one reported.\<close>

datatype shutdown_call = Tls_shutdown | Socket_close

definition impl_shutdown :: "transport \<Rightarrow> shutdown_call" where
  "impl_shutdown t = (case t of Tls_unix \<Rightarrow> Tls_shutdown | Tls_tcp \<Rightarrow> Tls_shutdown | _ \<Rightarrow> Socket_close)"

record transfer_stream =
  ts_impl :: transport
  ts_limits :: any_stream
  ts_shutdowns :: "(shutdown_call \<times> error_code) list"

text \<open>\<^verbatim>\<open>any_stream{ stream }\<close>: a wrapper is made with timers and allowances of its own.\<close>

definition stream_new :: "transport \<Rightarrow> transfer_stream" where
  "stream_new t = \<lparr>ts_impl = t, ts_limits = any_stream_new, ts_shutdowns = []\<rparr>"

text \<open>The composed operation starts the shutdown of what it wraps and completes with its error.\<close>

definition async_shutdown :: "error_code \<Rightarrow> transfer_stream \<Rightarrow> error_code \<times> transfer_stream" where
  "async_shutdown ec s = (ec, s\<lparr>ts_shutdowns := ts_shutdowns s @ [(impl_shutdown (ts_impl s), ec)]\<rparr>)"

text \<open>Assigning a new stream replaces what is wrapped, the timers and the allowances.\<close>

definition stream_assign :: "transport \<Rightarrow> transfer_stream \<Rightarrow> transfer_stream" where
  "stream_assign t s = s\<lparr>ts_impl := t, ts_limits := any_stream_new\<rparr>"

subsection \<open>A new connection\<close>

definition set_limits :: "operation_config \<Rightarrow> transfer_stream \<Rightarrow> transfer_stream" where
  "set_limits oc s =
     (let s1 = (case oc_recvpersecond oc of Some n \<Rightarrow> s\<lparr>ts_limits := read_limit n (ts_limits s)\<rparr> | None \<Rightarrow> s) in
      case oc_sendpersecond oc of Some n \<Rightarrow> s1\<lparr>ts_limits := write_limit n (ts_limits s1)\<rparr> | None \<Rightarrow> s1)"

text \<open>The error of the shutdown is an argument; it is not looked at.\<close>

definition connect_to ::
    "'rq request_ops \<Rightarrow> operation_config \<Rightarrow> error_code \<Rightarrow> url_view \<Rightarrow> transfer_stream \<Rightarrow> 'rq net \<Rightarrow>
     (exn + transfer_stream) \<times> transfer_stream \<times> 'rq net" where
  "connect_to ops oc shut_ec url s n =
     (let s1 = (if u_text (oc_proxy oc) = [] then snd (async_shutdown shut_ec s) else s) in
      case connect ops oc url n of
        (Inl e, n1) \<Rightarrow> (Inl e, s1, n1)
      | (Inr t, n1) \<Rightarrow> let s2 = set_limits oc (stream_assign t s1) in (Inr s2, s2, n1))"

subsection \<open>The limits hold on every connection\<close>

lemma set_limits_assigned:
  fixes oc :: operation_config and t :: transport and s :: transfer_stream
  defines "a \<equiv> ts_limits (set_limits oc (stream_assign t s))"
  shows "rd_remain a = rd_limit a" "rd_limit a = (case oc_recvpersecond oc of Some n \<Rightarrow> n | None \<Rightarrow> - 1)"
    and "wr_remain a = wr_limit a" "wr_limit a = (case oc_sendpersecond oc of Some n \<Rightarrow> n | None \<Rightarrow> - 1)"
  unfolding a_def
  by (auto simp: set_limits_def stream_assign_def any_stream_new_def read_limit_def write_limit_def Let_def not_less
      dest: word_order.extremum_uniqueI split: option.split)

lemma connected_limits:
  assumes "connect_to ops oc shut_ec url s n = (Inr s1, s2, n1)"
  shows "\<exists>t s0. s1 = set_limits oc (stream_assign t s0) \<and> connect ops oc url n = (Inr t, n1) \<and>
    ts_shutdowns s1 = ts_shutdowns s @ (if u_text (oc_proxy oc) = [] then [(impl_shutdown (ts_impl s), shut_ec)] else [])"
proof -
  define s0 where "s0 = (if u_text (oc_proxy oc) = [] then snd (async_shutdown shut_ec s) else s)"
  from assms obtain t where t: "connect ops oc url n = (Inr t, n1)" "s1 = set_limits oc (stream_assign t s0)"
    by (auto simp: connect_to_def s0_def [symmetric] Let_def split: prod.splits sum.splits)
  then have "ts_shutdowns s1 = ts_shutdowns s0"
    by (simp add: set_limits_def stream_assign_def Let_def split: option.split)
  then show ?thesis using t by (intro exI [of _ t] exI [of _ s0]) (simp add: s0_def async_shutdown_def)
qed

text \<open>
  C34. The rate limits on every connection: after a connection was made, whatever the connection before
  it had used up, any sequence of reads moves at most one limit's worth of bytes plus another for
  each full second it waited, and any sequence of writes likewise; without a limit nothing waits
  before almost two to the sixty-fourth bytes.  The previous connection was asked to shut down
  exactly when no proxy is in use.  The stream below is supposed never to report more bytes than
  it was offered.
\<close>

theorem connection_rate:
  assumes "connect_to ops oc shut_ec url s n = (Inr s1, s2, n1)"
    and "list_all (\<lambda>(_, _, f). inner_ok f) rs"
    and "run_io async_read_some rs (ts_limits s1) = (rd_out, s3)"
    and "run_io async_write_some rs (ts_limits s1) = (wr_out, s4)"
  shows "(case oc_recvpersecond oc of Some lim \<Rightarrow> moved rd_out \<le> (1 + waits rd_out) * unat lim
      | None \<Rightarrow> moved rd_out < 2 ^ 64 - 1 \<longrightarrow> waits rd_out = 0) \<and>
    (case oc_sendpersecond oc of Some lim \<Rightarrow> moved wr_out \<le> (1 + waits wr_out) * unat lim
      | None \<Rightarrow> moved wr_out < 2 ^ 64 - 1 \<longrightarrow> waits wr_out = 0) \<and>
    ts_shutdowns s1 = ts_shutdowns s @ (if u_text (oc_proxy oc) = [] then [(impl_shutdown (ts_impl s), shut_ec)] else [])"
proof -
  obtain t s0 where s1: "s1 = set_limits oc (stream_assign t s0)"
      "ts_shutdowns s1 = ts_shutdowns s @ (if u_text (oc_proxy oc) = [] then [(impl_shutdown (ts_impl s), shut_ec)] else [])"
    using connected_limits [OF assms(1)] by blast
  have m: "unat (- 1 :: u64) = 2 ^ 64 - 1" by (simp add: unsigned_minus_1_eq_mask mask_eq_exp_minus_1)
  have bound: "unat (x :: u64) \<le> 2 ^ 64 - 1" for x using unsigned_less [where 'a = nat, of x] by simp
  have idle: "k = 0" if "b + unat (r :: u64) = (2 ^ 64 - 1) + k * (2 ^ 64 - 1)" "b < 2 ^ 64 - 1" for b k :: nat and r
    using that bound [of r] by (cases k) auto
  show ?thesis
    using rd.run_budget [OF assms(2,3)] wr.run_budget [OF assms(2,4)] s1(2) idle
    unfolding s1(1) set_limits_assigned
    by (auto simp: m split: option.split)
qed

theorem connection_rate_witness:
  "\<exists>s1 s2 n1 rd_out s3. connect_to ref_ops (operation_config_default\<lparr>oc_unix_socket_path := ''u'', oc_recvpersecond := Some 4\<rparr>)
      no_error url_blank (stream_new Plain_tcp) ex_net = (Inr s1, s2, n1) \<and>
     run_io async_read_some [(10, 0, \<lambda>k. (0, k)), (10, 0, \<lambda>k. (0, k))] (ts_limits s1) = (rd_out, s3) \<and>
     moved rd_out \<le> (1 + waits rd_out) * 4 \<and> ts_shutdowns s1 = [(Socket_close, no_error)]"
proof -
  let ?oc = "operation_config_default\<lparr>oc_unix_socket_path := ''u'', oc_recvpersecond := Some 4\<rparr>"
  let ?rs = "[(10, 0, \<lambda>k. (0, k)), (10, 0, \<lambda>k. (0, k))] :: (u64 \<times> nat \<times> inner_io) list"
  have d: "u_text (oc_proxy operation_config_default) = []" by (simp add: operation_config_default_def url_blank_def)
  have "\<exists>s1 s2 n1. connect_to ref_ops ?oc no_error url_blank (stream_new Plain_tcp) ex_net = (Inr s1, s2, n1)"
    by (simp add: connect_to_def connect_def unix_connect_def ex_net_def log_act_def co_bind_def finish_transport_def
        url_blank_def co_return_def Let_def)
  then obtain s1 s2 n1 where c: "connect_to ref_ops ?oc no_error url_blank (stream_new Plain_tcp) ex_net = (Inr s1, s2, n1)"
    by blast
  obtain rd_out s3 where r: "run_io async_read_some ?rs (ts_limits s1) = (rd_out, s3)" by (cases "run_io async_read_some ?rs (ts_limits s1)")
  obtain wr_out s4 where w: "run_io async_write_some ?rs (ts_limits s1) = (wr_out, s4)" by (cases "run_io async_write_some ?rs (ts_limits s1)")
  have ok: "list_all (\<lambda>(_, _, f). inner_ok f) ?rs" by (simp add: inner_ok_def)
  from connection_rate [OF c ok r w] c r show ?thesis
    by (auto simp: d stream_new_def impl_shutdown_def)
qed

end
