(* ===== verification/Http_Server.thy ===== *)
theory Http_Server
  imports Http_Worker
begin

text \<open>
  The servers and their workers as objects (\<^verbatim>\<open>http_server.cpp\<close>, \<^verbatim>\<open>https_server.cpp\<close>): what a server
  hands to its workers, which stream a worker's parser and serializer are wired to, and the
  connections a worker serves one after the other.  A TLS stream is owned by the worker and
  replaced with every connection, so the wiring can outlive what it refers to: streams are
  numbered in the order they are made, and a reference is live while its stream exists.
\<close>

subsection \<open>The servers\<close>

record ('r, 'p, 's) server_impl =
  im_router :: 'r
  im_parser_cfg :: "'p option"
  im_serializer_cfg :: "'s option"

record ('r, 'p, 's, 't) tls_server_impl = "('r, 'p, 's) server_impl" +
  im_tls_ctx :: 't

text \<open>The constructors of \<^verbatim>\<open>impl\<close>; the shared configurations start empty.\<close>

definition http_impl_new :: "'r \<Rightarrow> ('r, 'p, 's) server_impl" where
  "http_impl_new r = \<lparr>im_router = r, im_parser_cfg = None, im_serializer_cfg = None\<rparr>"

definition https_impl_new :: "'t \<Rightarrow> 'r \<Rightarrow> ('r, 'p, 's, 't) tls_server_impl" where
  "https_impl_new tc r = \<lparr>im_router = r, im_parser_cfg = None, im_serializer_cfg = None, im_tls_ctx = tc\<rparr>"

datatype stream_ref = Ref_none | Ref_sock | Ref_ssl nat

record ('url, 'res, 'd, 'r, 'p, 's, 't) server_worker =
  sw_router :: 'r
  sw_parser_cfg :: "'p option"
  sw_serializer_cfg :: "'s option"
  sw_tls_ctx :: "'t option"
  sw_http :: "('url, 'res, 'd) http_worker"
  sw_ssl :: "nat option"
  sw_made :: nat
  sw_req_body :: stream_ref
  sw_res_body :: stream_ref
  sw_stream :: stream_ref

text \<open>The plain worker is wired to its socket once and for all, the TLS worker not at all.\<close>

definition http_worker_construct ::
    "'res \<Rightarrow> ('r, 'p, 's, 'more) server_impl_scheme \<Rightarrow> ('url, 'res, 'd, 'r, 'p, 's, 't) server_worker" where
  "http_worker_construct res im =
     \<lparr>sw_router = im_router im, sw_parser_cfg = im_parser_cfg im, sw_serializer_cfg = im_serializer_cfg im,
      sw_tls_ctx = None, sw_http = http_worker_new res, sw_ssl = None, sw_made = 0,
      sw_req_body = Ref_sock, sw_res_body = Ref_sock, sw_stream = Ref_sock\<rparr>"

definition https_worker_construct ::
    "'res \<Rightarrow> ('r, 'p, 's, 't) tls_server_impl \<Rightarrow> ('url, 'res, 'd, 'r, 'p, 's, 't) server_worker" where
  "https_worker_construct res im =
     \<lparr>sw_router = im_router im, sw_parser_cfg = im_parser_cfg im, sw_serializer_cfg = im_serializer_cfg im,
      sw_tls_ctx = Some (im_tls_ctx im), sw_http = http_worker_new res, sw_ssl = None, sw_made = 0,
      sw_req_body = Ref_none, sw_res_body = Ref_none, sw_stream = Ref_none\<rparr>"

definition http_server_construct ::
    "nat \<Rightarrow> 'r \<Rightarrow> 'p \<Rightarrow> 's \<Rightarrow> 'res \<Rightarrow> ('url, 'res, 'd, 'r, 'p, 's, 't) server_worker list" where
  "http_server_construct num_workers router parser_cfg serializer_cfg res =
     (let im = (http_impl_new router)\<lparr>im_parser_cfg := Some parser_cfg, im_serializer_cfg := Some serializer_cfg\<rparr> in
      map (\<lambda>i. http_worker_construct res im) [0 ..< num_workers])"

definition https_server_construct ::
    "nat \<Rightarrow> 't \<Rightarrow> 'r \<Rightarrow> 'p \<Rightarrow> 's \<Rightarrow> 'res \<Rightarrow> ('url, 'res, 'd, 'r, 'p, 's, 't) server_worker list" where
  "https_server_construct num_workers tls_ctx router parser_cfg serializer_cfg res =
     (let im = (https_impl_new tls_ctx router)\<lparr>im_parser_cfg := Some parser_cfg, im_serializer_cfg := Some serializer_cfg\<rparr> in
      map (\<lambda>i. https_worker_construct res im) [0 ..< num_workers])"

subsection \<open>Connections\<close>

text \<open>What one connection brings: the errors of the handshake and of the TLS shutdown, if any, and the
  results of reading request headers.\<close>

record connection =
  cx_handshake :: "string option"
  cx_shutdown :: "string option"
  cx_reads :: "read_result list"

text \<open>What a session did: the parameters of its dispatches, the stream, request body and response body
  it used and the TLS stream that existed meanwhile.\<close>

record ('url, 'res, 'd) session_log =
  sl_end :: session_end
  sl_events :: "('url, 'res, 'd) route_params worker_event list"
  sl_seen :: "('url, 'res, 'd) route_params list"
  sl_stream :: stream_ref
  sl_bodies :: "stream_ref \<times> stream_ref"
  sl_live :: "nat option"

fun events_seen :: "'rp worker_event list \<Rightarrow> 'rp list" where
  "events_seen [] = []"
| "events_seen (Ev_session s # evs) = s @ events_seen evs"
| "events_seen (_ # evs) = events_seen evs"

definition http_serve_one ::
    "'res response_ops \<Rightarrow> (string \<Rightarrow> gerror + 'url) \<Rightarrow> ('r \<Rightarrow> ('url, 'res, 'd) router) \<Rightarrow> connection \<Rightarrow>
     ('url, 'res, 'd, 'r, 'p, 's, 't) server_worker \<Rightarrow>
     ('url, 'res, 'd) session_log \<times> ('url, 'res, 'd, 'r, 'p, 's, 't) server_worker" where
  "http_serve_one ops parse_uri dispatch cx sw =
     (case http_do_session ops parse_uri (dispatch (sw_router sw)) (cx_reads cx) (sw_http sw) of
        (e, evs, w) \<Rightarrow>
          (\<lparr>sl_end = e, sl_events = evs, sl_seen = events_seen evs, sl_stream = sw_stream sw,
            sl_bodies = (sw_req_body sw, sw_res_body sw), sl_live = sw_ssl sw\<rparr>,
           sw\<lparr>sw_http := w\<rparr>))"

text \<open>A new TLS stream replaces the one that an exception may have left; without an error of the
  handshake parser and serializer are wired to it.  It is released at the end, but not when an
  exception leaves the session.\<close>

definition https_serve_one ::
    "'res response_ops \<Rightarrow> (string \<Rightarrow> gerror + 'url) \<Rightarrow> ('r \<Rightarrow> ('url, 'res, 'd) router) \<Rightarrow> connection \<Rightarrow>
     ('url, 'res, 'd, 'r, 'p, 's, 't) server_worker \<Rightarrow>
     ('url, 'res, 'd) session_log \<times> ('url, 'res, 'd, 'r, 'p, 's, 't) server_worker" where
  "https_serve_one ops parse_uri dispatch cx sw0 =
     (let g = sw_made sw0;
          sw1 = sw0\<lparr>sw_ssl := Some g, sw_made := g + 1\<rparr>;
          sw = (if cx_handshake cx = None
                then sw1\<lparr>sw_req_body := Ref_ssl g, sw_res_body := Ref_ssl g, sw_stream := Ref_ssl g\<rparr> else sw1) in
      case https_do_session ops parse_uri (dispatch (sw_router sw)) (cx_handshake cx) (cx_shutdown cx) (cx_reads cx)
             (sw_http sw) of
        (e, evs, w) \<Rightarrow>
          (\<lparr>sl_end = e, sl_events = evs, sl_seen = events_seen evs, sl_stream = sw_stream sw,
            sl_bodies = (sw_req_body sw, sw_res_body sw), sl_live = sw_ssl sw\<rparr>,
           sw\<lparr>sw_http := w, sw_ssl := (if Ev_tls_reset \<in> set evs then None else sw_ssl sw)\<rparr>))"

text \<open>One connection after the other; a session that still waits keeps the worker.\<close>

fun serve ::
    "(connection \<Rightarrow> 'w \<Rightarrow> ('url, 'res, 'd) session_log \<times> 'w) \<Rightarrow> connection list \<Rightarrow> 'w \<Rightarrow>
     ('url, 'res, 'd) session_log list \<times> 'w" where
  "serve one [] sw = ([], sw)"
| "serve one (cx # cxs) sw =
     (case one cx sw of
        (l, sw1) \<Rightarrow>
          if sl_end l = Waiting then ([l], sw1)
          else (case serve one cxs sw1 of (ls, sw2) \<Rightarrow> (l # ls, sw2)))"

subsection \<open>Connections do not see one another\<close>

text \<open>Each dispatch of a session has fresh parameters of its own request.\<close>

definition session_fresh :: "(string \<Rightarrow> gerror + 'url) \<Rightarrow> connection \<Rightarrow> ('url, 'res, 'd) session_log \<Rightarrow> bool" where
  "session_fresh parse_uri cx l \<longleftrightarrow> length (sl_seen l) \<le> length (requests_of (cx_reads cx)) \<and>
     list_all2 (fresh_params parse_uri) (take (length (sl_seen l)) (requests_of (cx_reads cx))) (sl_seen l)"

lemma do_http_session_fresh:
  assumes "do_http_session ops parse_uri dispatch reads w = (e, seen, w')"
  shows "length seen \<le> length (requests_of reads) \<and>
    list_all2 (fresh_params parse_uri) (take (length seen) (requests_of reads)) seen"
  using assms session_loop_fresh by (fastforce simp: do_http_session_def split: prod.splits)

lemma http_serve_one_ok:
  assumes "http_serve_one ops parse_uri dispatch cx sw = (l, sw')"
  shows "session_fresh parse_uri cx l" "sl_stream l = sw_stream sw" "sl_bodies l = (sw_req_body sw, sw_res_body sw)"
    and "sw_stream sw' = sw_stream sw" "sw_req_body sw' = sw_req_body sw" "sw_res_body sw' = sw_res_body sw"
  using assms do_http_session_fresh
  by (fastforce simp: http_serve_one_def http_do_session_def session_fresh_def split: prod.splits if_splits)+

lemma https_serve_one_ok:
  assumes "https_serve_one ops parse_uri dispatch cx sw = (l, sw')"
  shows "session_fresh parse_uri cx l" "sw_made sw' = Suc (sw_made sw)"
    and "if cx_handshake cx = None
         then sl_stream l = Ref_ssl (sw_made sw) \<and> sl_bodies l = (Ref_ssl (sw_made sw), Ref_ssl (sw_made sw)) \<and>
           sl_live l = Some (sw_made sw)
         else sl_seen l = []"
    and "sl_end l = Ended \<Longrightarrow> sw_ssl sw' = None"
proof -
  show "session_fresh parse_uri cx l"
  proof (cases "cx_handshake cx")
    case None
    obtain e seen w where d: "do_http_session ops parse_uri (dispatch (sw_router sw)) (cx_reads cx) (sw_http sw) = (e, seen, w)"
      by (metis prod_cases3)
    then have "sl_seen l = seen"
      using assms None by (auto simp: https_serve_one_def https_do_session_def Let_def split: if_splits)
    then show ?thesis using do_http_session_fresh [OF d] by (simp add: session_fresh_def)
  next
    case (Some m)
    then show ?thesis using assms by (auto simp: https_serve_one_def https_do_session_def session_fresh_def Let_def)
  qed
qed (use assms in \<open>auto simp: https_serve_one_def https_do_session_def Let_def split: prod.splits option.splits if_splits\<close>)

lemma serve_length: "serve one cxs sw = (ls, sw') \<Longrightarrow> length ls \<le> length cxs"
  by (induction one cxs sw arbitrary: ls sw' rule: serve.induct) (auto split: prod.splits if_splits)

lemma serve_http:
  "serve (http_serve_one ops parse_uri dispatch) cxs sw = (ls, sw') \<Longrightarrow> k < length ls \<Longrightarrow>
   session_fresh parse_uri (cxs ! k) (ls ! k) \<and> sl_stream (ls ! k) = sw_stream sw \<and>
   sl_bodies (ls ! k) = (sw_req_body sw, sw_res_body sw)"
proof (induction cxs arbitrary: sw ls k)
  case (Cons cx cxs)
  obtain l sw1 where l: "http_serve_one ops parse_uri dispatch cx sw = (l, sw1)" by (metis surj_pair)
  note ok = http_serve_one_ok [OF l]
  show ?case
  proof (cases k)
    case 0
    then show ?thesis using Cons.prems l ok by (auto split: prod.splits if_splits)
  next
    case (Suc j)
    then obtain ls1 where "ls = l # ls1" "serve (http_serve_one ops parse_uri dispatch) cxs sw1 = (ls1, sw')"
      using Cons.prems l by (auto split: prod.splits if_splits)
    then show ?thesis using Cons.IH [of sw1 ls1 j] Cons.prems(2) Suc ok by simp
  qed
qed simp

lemma serve_https:
  "serve (https_serve_one ops parse_uri dispatch) cxs sw = (ls, sw') \<Longrightarrow> k < length ls \<Longrightarrow>
   session_fresh parse_uri (cxs ! k) (ls ! k) \<and>
   (if cx_handshake (cxs ! k) = None
    then sl_stream (ls ! k) = Ref_ssl (sw_made sw + k) \<and>
      sl_bodies (ls ! k) = (Ref_ssl (sw_made sw + k), Ref_ssl (sw_made sw + k)) \<and> sl_live (ls ! k) = Some (sw_made sw + k)
    else sl_seen (ls ! k) = [])"
proof (induction cxs arbitrary: sw ls k)
  case (Cons cx cxs)
  obtain l sw1 where l: "https_serve_one ops parse_uri dispatch cx sw = (l, sw1)" by (metis surj_pair)
  note ok = https_serve_one_ok [OF l]
  show ?case
  proof (cases k)
    case 0
    then show ?thesis using Cons.prems l ok(1,3) by (auto split: prod.splits if_splits)
  next
    case (Suc j)
    then obtain ls1 where "ls = l # ls1" "serve (https_serve_one ops parse_uri dispatch) cxs sw1 = (ls1, sw')"
      using Cons.prems l by (auto split: prod.splits if_splits)
    then show ?thesis using Cons.IH [of sw1 ls1 j] Cons.prems(2) Suc ok(2) by simp
  qed
qed simp

text \<open>
  C12. Connections of a worker are isolated: whatever the handlers store and however sessions end, each
  dispatch gets the parameters of its own request, its parsed URL and empty route and session
  data.  A worker of the plain server reads and writes its socket; the \<^verbatim>\<open>k\<close>th connection of a worker
  of the TLS server uses the TLS stream made for it, which exists as long as it is used, for
  the header and both bodies, and a connection whose handshake failed is served nothing.
\<close>

theorem connections_isolated:
  assumes "i < num_workers" "k < length ls"
  shows "(serve (http_serve_one ops parse_uri dispatch) cxs
        (http_server_construct num_workers router parser_cfg serializer_cfg res ! i) = (ls, sw) \<longrightarrow>
      session_fresh parse_uri (cxs ! k) (ls ! k) \<and> sl_stream (ls ! k) = Ref_sock \<and>
      sl_bodies (ls ! k) = (Ref_sock, Ref_sock)) \<and>
    (serve (https_serve_one ops parse_uri dispatch) cxs
        (https_server_construct num_workers tls_ctx router parser_cfg serializer_cfg res ! i) = (ls, sw) \<longrightarrow>
      session_fresh parse_uri (cxs ! k) (ls ! k) \<and>
      (if cx_handshake (cxs ! k) = None
       then sl_stream (ls ! k) = Ref_ssl k \<and> sl_bodies (ls ! k) = (Ref_ssl k, Ref_ssl k) \<and> sl_live (ls ! k) = Some k
       else sl_seen (ls ! k) = []))"
  using assms serve_http [of ops parse_uri dispatch cxs _ ls sw k] serve_https [of ops parse_uri dispatch cxs _ ls sw k]
  by (auto simp: http_server_construct_def https_server_construct_def http_worker_construct_def https_worker_construct_def
      Let_def split: if_splits)

theorem connections_isolated_witness:
  "\<exists>ls sw. serve (https_serve_one ex_ops Inr (\<lambda>r m u rp. (False, rp\<lparr>rp_session_data := [m]\<rparr>)))
      [\<lparr>cx_handshake = Some ''bad'', cx_shutdown = None, cx_reads = []\<rparr>,
       \<lparr>cx_handshake = None, cx_shutdown = None, cx_reads = [Inr request_blank, Inl ''eof'']\<rparr>]
      (https_server_construct 1 () () () () True ! 0) = (ls, sw) \<and>
     length ls = 2 \<and> sl_stream (ls ! 1) = Ref_ssl 1 \<and> sl_live (ls ! 1) = Some 1"
proof -
  let ?cxs = "[\<lparr>cx_handshake = Some ''bad'', cx_shutdown = None, cx_reads = []\<rparr>,
       \<lparr>cx_handshake = None, cx_shutdown = None, cx_reads = [Inr request_blank, Inl ''eof'']\<rparr>]"
  let ?one = "https_serve_one ex_ops Inr (\<lambda>r m u rp. (False, rp\<lparr>rp_session_data := [m]\<rparr>))"
  let ?sw = "https_server_construct 1 () () () () True ! 0"
  obtain ls sw where r: "serve ?one ?cxs ?sw = (ls, sw)" by (metis surj_pair)
  then have "length ls = 2"
    by (auto simp: https_serve_one_def https_do_session_def do_http_session_def ex_ops_def prepare_def request_blank_def
        Let_def split: prod.splits if_splits)
  then show ?thesis
    using r connections_isolated [of 0 1 1 ls ex_ops Inr "\<lambda>r m u rp. (False, rp\<lparr>rp_session_data := [m]\<rparr>)" ?cxs
        "()" "()" "()" True sw "()"] by auto
qed

end
