(* ===== verification/Eth_Client.thy ===== *)
theory Eth_Client
  imports Jsonrpc
begin

text \<open>
  The program around the JSON-RPC client (\<^verbatim>\<open>jsonrpc/main.cpp\<close>, \<^verbatim>\<open>jsonrpc/eth_methods.hpp\<close> and
  \<^verbatim>\<open>jsonrpc/jsonrpc/method.hpp\<close>): the table of methods, the coroutine that connects, makes seven calls
  in a fixed order, prints what they return and shuts the stream down, and \<^verbatim>\<open>main\<close>.  Boost.JSON,
  Boost.Multiprecision and Boost.URL's parser are parameters.
\<close>

subsection \<open>The table of methods\<close>

datatype return_type = Ret_string | Ret_bool | Ret_object | Ret_array

datatype param_type = Par_array | Par_object | Par_string

datatype rpc_method = rpc_method (me_name: string) (me_return: return_type) (me_param: "param_type option")

definition eth_methods :: "rpc_method list" where
  "eth_methods =
    [rpc_method ''web3_clientVersion'' Ret_string None,
     rpc_method ''web3_sha3'' Ret_string (Some Par_array),
     rpc_method ''net_version'' Ret_string None,
     rpc_method ''net_listening'' Ret_bool None,
     rpc_method ''net_peerCount'' Ret_string None,
     rpc_method ''eth_protocolVersion'' Ret_string None,
     rpc_method ''eth_syncing'' Ret_object None,
     rpc_method ''eth_coinbase'' Ret_string None,
     rpc_method ''eth_chainId'' Ret_string None,
     rpc_method ''eth_mining'' Ret_bool None,
     rpc_method ''eth_hashrate'' Ret_string None,
     rpc_method ''eth_gasPrice'' Ret_string None,
     rpc_method ''eth_accounts'' Ret_array None,
     rpc_method ''eth_blockNumber'' Ret_string None,
     rpc_method ''eth_getBalance'' Ret_string (Some Par_array),
     rpc_method ''eth_getStorageAt'' Ret_string (Some Par_array),
     rpc_method ''eth_getTransactionCount'' Ret_string (Some Par_array),
     rpc_method ''eth_getBlockTransactionCountByHash'' Ret_string (Some Par_array),
     rpc_method ''eth_getBlockTransactionCountByNumber'' Ret_string (Some Par_array),
     rpc_method ''eth_getUncleCountByBlockHash'' Ret_string (Some Par_array),
     rpc_method ''eth_getUncleCountByBlockNumber'' Ret_string (Some Par_array),
     rpc_method ''eth_getCode'' Ret_string (Some Par_array),
     rpc_method ''eth_sign'' Ret_string (Some Par_array),
     rpc_method ''eth_signTransaction'' Ret_string (Some Par_array),
     rpc_method ''eth_sendTransaction'' Ret_string (Some Par_array),
     rpc_method ''eth_sendRawTransaction'' Ret_string (Some Par_array),
     rpc_method ''eth_call'' Ret_string (Some Par_array),
     rpc_method ''eth_estimateGas'' Ret_string (Some Par_array),
     rpc_method ''eth_getBlockByHash'' Ret_object (Some Par_array),
     rpc_method ''eth_getBlockByNumber'' Ret_object (Some Par_array),
     rpc_method ''eth_getTransactionByHash'' Ret_object (Some Par_array),
     rpc_method ''eth_getTransactionByBlockHashAndIndex'' Ret_object (Some Par_array),
     rpc_method ''eth_getTransactionByBlockNumberAndIndex'' Ret_object (Some Par_array),
     rpc_method ''eth_getTransactionReceipt'' Ret_object (Some Par_array),
     rpc_method ''eth_getUncleByBlockHashAndIndex'' Ret_object (Some Par_array),
     rpc_method ''eth_getUncleByBlockNumberAndIndex'' Ret_object (Some Par_array),
     rpc_method ''eth_newFilter'' Ret_string (Some Par_array),
     rpc_method ''eth_newBlockFilter'' Ret_string None,
     rpc_method ''eth_newPendingTransactionFilter'' Ret_string None,
     rpc_method ''eth_uninstallFilter'' Ret_bool (Some Par_string),
     rpc_method ''eth_getFilterChanges'' Ret_array (Some Par_array),
     rpc_method ''eth_getFilterLogs'' Ret_array (Some Par_array),
     rpc_method ''eth_getLogs'' Ret_array (Some Par_array)]"

text \<open>The overloads of \<open>async_call\<close>: no parameter, an array or an object.\<close>

definition has_overload :: "rpc_method \<Rightarrow> bool" where
  "has_overload m = (me_param m = None \<or> me_param m = Some Par_array \<or> me_param m = Some Par_object)"

subsection \<open>The state of the program\<close>

text \<open>What the libraries and the peer contribute: the operations of a request, the JSON serializer,
  stream parser and conversions, the numbers of Boost.Multiprecision (\<open>en_show_ratio precision fixed
  a b\<close> is how the quotient of two decimal numbers is printed), what the operations of the calls
  report and what a shutdown reports.\<close>

record ('rq, 'jp) eth_env =
  en_ops :: "'rq request_ops"
  en_serialize :: "json \<Rightarrow> string"
  en_parser :: "'jp json_parser_ops"
  en_to_string :: "json \<Rightarrow> error_code + string"
  en_to_object :: "json \<Rightarrow> error_code + json_object"
  en_to_int :: "string \<Rightarrow> exn + int"
  en_show_int :: "int \<Rightarrow> string"
  en_show_ratio :: "nat \<Rightarrow> bool \<Rightarrow> int \<Rightarrow> int \<Rightarrow> string"
  en_events :: "nat \<Rightarrow> call_events"
  en_tls_shutdown :: error_code
  en_tcp_shutdown :: error_code
  en_tcp_close :: error_code

record ('rq, 'jp) eth_state =
  et_net :: "'rq net"
  et_stream :: rpc_stream
  et_client :: "'rq rpc_client"
  et_parser :: 'jp
  et_sent :: "(u64 \<times> 'rq \<times> string) list"
  et_out :: string

text \<open>The exceptions of the coroutine: those of a call's error, of the error of the shutdown, and
  any other.\<close>

datatype eth_exn = Call_failed error_code "string option" | Shutdown_failed error_code | Std_exn exn

type_synonym ('rq, 'jp, 'a) eth = "('rq, 'jp) eth_state \<Rightarrow> (eth_exn + 'a) \<times> ('rq, 'jp) eth_state"

definition eth_return :: "'a \<Rightarrow> ('rq, 'jp, 'a) eth" where
  "eth_return x s = (Inr x, s)"

definition eth_bind :: "('rq, 'jp, 'a) eth \<Rightarrow> ('a \<Rightarrow> ('rq, 'jp, 'b) eth) \<Rightarrow> ('rq, 'jp, 'b) eth" where
  "eth_bind m k s = (case m s of (Inl e, s') \<Rightarrow> (Inl e, s') | (Inr x, s') \<Rightarrow> k x s')"

definition eth_lift :: "exn + 'a \<Rightarrow> ('rq, 'jp, 'a) eth" where
  "eth_lift r s = (case r of Inl x \<Rightarrow> Inl (Std_exn x) | Inr a \<Rightarrow> Inr a, s)"

text \<open>The operator writing to the standard output.\<close>

definition put :: "string \<Rightarrow> ('rq, 'jp, unit) eth" where
  "put t s = (Inr (), s\<lparr>et_out := et_out s @ t\<rparr>)"

subsection \<open>Calls\<close>

text \<open>Awaiting a call: the request is started, and the call returns its result or throws, either the
  exception for its error or one of the JSON parser's own.\<close>

definition await_call ::
    "('rq, 'jp) eth_env \<Rightarrow> (json \<Rightarrow> 'r option) \<Rightarrow> (json \<Rightarrow> error_code + 'r) \<Rightarrow> 'r \<Rightarrow> string \<Rightarrow> call_params \<Rightarrow>
     ('rq, 'jp, 'r) eth" where
  "await_call en quick conv dflt meth ps s =
     (case start_call (en_ops en) (en_serialize en) meth (params_value ps) (et_client s) of
        (n, rb, _) \<Rightarrow>
          (case async_call (en_ops en) (en_serialize en) (en_parser en) quick conv dflt meth ps
              (en_events en (length (et_sent s))) (et_client s) (et_parser s) of
             (out, c1, jp1) \<Rightarrow>
               let s1 = s\<lparr>et_client := c1, et_parser := jp1, et_sent := et_sent s @ [(n, rb)]\<rparr> in
               (case out of
                  Typed_threw x \<Rightarrow> (Inl (Std_exn x), s1)
                | Typed_complete e r \<Rightarrow>
                    (case to_exception_ptr (en_serialize en) e of
                       Some (ec, what) \<Rightarrow> (Inl (Call_failed ec what), s1)
                     | None \<Rightarrow> (Inr r, s1)))))"

definition call_string :: "('rq, 'jp) eth_env \<Rightarrow> string \<Rightarrow> call_params \<Rightarrow> ('rq, 'jp, string) eth" where
  "call_string en = await_call en converts_to_string (en_to_string en) []"

definition call_object :: "('rq, 'jp) eth_env \<Rightarrow> string \<Rightarrow> call_params \<Rightarrow> ('rq, 'jp, json_object) eth" where
  "call_object en = await_call en converts_to_object (en_to_object en) []"

text \<open>The index operator of an object inserts a null value for a key it does not have; the checked
  accessors throw for a value of another kind.\<close>

definition object_index :: "string \<Rightarrow> json_object \<Rightarrow> json \<times> json_object" where
  "object_index k obj = (case if_contains k obj of Some v \<Rightarrow> (v, obj) | None \<Rightarrow> (JNull, obj @ [(k, JNull)]))"

definition as_string :: "json \<Rightarrow> exn + string" where
  "as_string v = (case v of JString t \<Rightarrow> Inr t | _ \<Rightarrow> Inl (system_error ''not_string''))"

definition as_array :: "json \<Rightarrow> exn + json list" where
  "as_array v = (case v of JArray a \<Rightarrow> Inr a | _ \<Rightarrow> Inl (system_error ''not_array''))"

subsection \<open>The coroutine\<close>

definition newline :: string where
  "newline = [CHR 0x0A]"

definition put_int :: "('rq, 'jp) eth_env \<Rightarrow> string \<Rightarrow> ('rq, 'jp, unit) eth" where
  "put_int en t = eth_bind (eth_lift (en_to_int en t)) (\<lambda>i. put (en_show_int en i))"

text \<open>A quotient of decimal numbers, at the stream's precision and with its fixed flag.\<close>

definition put_ratio :: "('rq, 'jp) eth_env \<Rightarrow> nat \<Rightarrow> bool \<Rightarrow> string \<Rightarrow> int \<Rightarrow> ('rq, 'jp, unit) eth" where
  "put_ratio en precision fixed t unit =
     eth_bind (eth_lift (en_to_int en t)) (\<lambda>i. put (en_show_ratio en precision fixed i unit))"

definition eth_url :: string where
  "eth_url = ''https://ethereum.publicnode.com''"

definition addr1 :: string where
  "addr1 = ''0xde0b295669a9fd93d5f28d9ec85e40f4cb697bae''"

definition addr2 :: string where
  "addr2 = ''0x281055afc982d96fab65b3a49cac8b878184cb16''"

text \<open>The client is constructed and connects.\<close>

definition open_client ::
    "('rq, 'jp) eth_env \<Rightarrow> (string \<Rightarrow> exn + url_view) \<Rightarrow> bool \<Rightarrow> bool \<Rightarrow> ('rq, 'jp, unit) eth" where
  "open_client en parse brotli zlib =
     eth_bind (eth_lift (parse eth_url)) (\<lambda>endpoint s.
       let s1 = s\<lparr>et_client := client_new (en_ops en) brotli zlib endpoint, et_stream := \<lparr>rp_secure = False\<rparr>\<rparr> in
       case stream_connect endpoint (et_stream s1) (et_net s1) of
         (Inl x, w) \<Rightarrow> (Inl (Std_exn x), s1\<lparr>et_net := w\<rparr>)
       | (Inr st, w) \<Rightarrow> (Inr (), s1\<lparr>et_net := w, et_stream := st\<rparr>))"

text \<open>The label of the first line is written before its call is made.\<close>

definition print_version :: "('rq, 'jp) eth_env \<Rightarrow> ('rq, 'jp, unit) eth" where
  "print_version en =
     eth_bind (put ''web3 client:  '') (\<lambda>_.
     eth_bind (call_string en ''web3_clientVersion'' No_params) (\<lambda>v.
     eth_bind (put (en_serialize en (JString v))) (\<lambda>_. put newline)))"

definition print_block_number :: "('rq, 'jp) eth_env \<Rightarrow> ('rq, 'jp, string) eth" where
  "print_block_number en =
     eth_bind (call_string en ''eth_blockNumber'' No_params) (\<lambda>block_num.
     eth_bind (put ''Block number: '') (\<lambda>_.
     eth_bind (put_int en block_num) (\<lambda>_.
     eth_bind (put newline) (\<lambda>_. eth_return block_num))))"

definition print_block :: "('rq, 'jp) eth_env \<Rightarrow> string \<Rightarrow> ('rq, 'jp, unit) eth" where
  "print_block en block_num =
     eth_bind (call_object en ''eth_getBlockByNumber'' (Positional [JString block_num, JBool False])) (\<lambda>block.
     case object_index ''hash'' block of (hash, block1) \<Rightarrow>
     eth_bind (put (''Block hash:   '' @ en_serialize en hash @ newline)) (\<lambda>_.
     case object_index ''size'' block1 of (bsize, block2) \<Rightarrow>
     eth_bind (put ''Block size:   '') (\<lambda>_.
     eth_bind (eth_lift (as_string bsize)) (\<lambda>t.
     eth_bind (put_int en t) (\<lambda>_.
     eth_bind (put ('' Bytes'' @ newline)) (\<lambda>_.
     case object_index ''timestamp'' block2 of (timestamp, block3) \<Rightarrow>
     eth_bind (put ''Timestamp:    '') (\<lambda>_.
     eth_bind (eth_lift (as_string timestamp)) (\<lambda>t.
     eth_bind (put_int en t) (\<lambda>_.
     eth_bind (put newline) (\<lambda>_.
     case object_index ''transactions'' block3 of (transactions, _) \<Rightarrow>
     eth_bind (put ''Transactions: '') (\<lambda>_.
     eth_bind (eth_lift (as_array transactions)) (\<lambda>a.
     put (show_nat (length a) @ newline)))))))))))))"

definition print_balance :: "('rq, 'jp) eth_env \<Rightarrow> string \<Rightarrow> ('rq, 'jp, unit) eth" where
  "print_balance en block_num =
     eth_bind (call_string en ''eth_getBalance'' (Positional [JString addr1, JString block_num])) (\<lambda>balance.
     eth_bind (put ''Balance:      '') (\<lambda>_.
     eth_bind (put_ratio en 18 False balance (10 ^ 18)) (\<lambda>_. put ('' ETH'' @ newline))))"

definition transfer_object :: json where
  "transfer_object = JObject [(''from'', JString addr1), (''to'', JString addr2), (''value'', JString ''0x2386F26FC10000'')]"

definition print_gas_estimate :: "('rq, 'jp) eth_env \<Rightarrow> ('rq, 'jp, unit) eth" where
  "print_gas_estimate en =
     eth_bind (call_string en ''eth_estimateGas'' (Positional [transfer_object])) (\<lambda>gas_estimate.
     eth_bind (put ''Gas estimate: '') (\<lambda>_.
     eth_bind (put_int en gas_estimate) (\<lambda>_. put newline)))"

definition print_gas_price :: "('rq, 'jp) eth_env \<Rightarrow> ('rq, 'jp, unit) eth" where
  "print_gas_price en =
     eth_bind (call_string en ''eth_gasPrice'' No_params) (\<lambda>gas_price.
     eth_bind (put ''Gas price:    '') (\<lambda>_.
     eth_bind (put_ratio en 3 False gas_price (10 ^ 10)) (\<lambda>_. put ('' GWEI'' @ newline))))"

definition feed_object :: json where
  "feed_object = JObject [(''to'', JString ''0x5f4ec3df9cbd43714fe2740f5e3616155c5b8419''), (''data'', JString ''0x50d25bcd'')]"

definition print_eth_usd :: "('rq, 'jp) eth_env \<Rightarrow> ('rq, 'jp, unit) eth" where
  "print_eth_usd en =
     eth_bind (call_string en ''eth_call'' (Positional [feed_object, JString ''latest''])) (\<lambda>eth_usd.
     eth_bind (put ''ETH/USD:      '') (\<lambda>_.
     eth_bind (put_ratio en 3 True eth_usd (10 ^ 8)) (\<lambda>_. put newline)))"

definition stream_truncated :: error_code where
  "stream_truncated = \<lparr>ec_value = 1, ec_category = ''asio.ssl.stream''\<rparr>"

definition close_client :: "('rq, 'jp) eth_env \<Rightarrow> ('rq, 'jp, unit) eth" where
  "close_client en s =
     (let ec = stream_shutdown (en_tls_shutdown en) (en_tcp_shutdown en) (en_tcp_close en) (et_stream s) in
      if ec_failed ec \<and> ec \<noteq> stream_truncated then (Inl (Shutdown_failed ec), s) else (Inr (), s))"

definition eth_co_main ::
    "('rq, 'jp) eth_env \<Rightarrow> (string \<Rightarrow> exn + url_view) \<Rightarrow> bool \<Rightarrow> bool \<Rightarrow> ('rq, 'jp, unit) eth" where
  "eth_co_main en parse brotli zlib =
     eth_bind (open_client en parse brotli zlib) (\<lambda>_.
     eth_bind (print_version en) (\<lambda>_.
     eth_bind (print_block_number en) (\<lambda>block_num.
     eth_bind (print_block en block_num) (\<lambda>_.
     eth_bind (print_balance en block_num) (\<lambda>_.
     eth_bind (print_gas_estimate en) (\<lambda>_.
     eth_bind (print_gas_price en) (\<lambda>_.
     eth_bind (print_eth_usd en) (\<lambda>_. close_client en))))))))"

text \<open>The process: its exit status and what it writes to the standard error.  The TLS context's
  verification paths are set first, which may throw; \<open>what\<close> is the text of an exception.\<close>

definition eth_main ::
    "('rq, 'jp) eth_env \<Rightarrow> (eth_exn \<Rightarrow> string) \<Rightarrow> (string \<Rightarrow> exn + url_view) \<Rightarrow> exn option \<Rightarrow> bool \<Rightarrow> bool \<Rightarrow>
     ('rq, 'jp) eth_state \<Rightarrow> nat \<times> string \<times> ('rq, 'jp) eth_state" where
  "eth_main en what parse verify_paths brotli zlib s =
     (let failure = (\<lambda>x. ''Error: '' @ what x @ newline) in
      case verify_paths of
        Some x \<Rightarrow> (1, failure (Std_exn x), s)
      | None \<Rightarrow>
          (case eth_co_main en parse brotli zlib s of
             (Inl x, s') \<Rightarrow> (1, failure x, s')
           | (Inr _, s') \<Rightarrow> (0, [], s')))"

subsection \<open>What the program asks for and reports\<close>

text \<open>The calls in their order, once the number of the block is known.\<close>

definition eth_requests :: "string \<Rightarrow> (string \<times> json) list" where
  "eth_requests block_num =
    [(''web3_clientVersion'', JNull),
     (''eth_blockNumber'', JNull),
     (''eth_getBlockByNumber'', JArray [JString block_num, JBool False]),
     (''eth_getBalance'', JArray [JString addr1, JString block_num]),
     (''eth_estimateGas'', JArray [transfer_object]),
     (''eth_gasPrice'', JNull),
     (''eth_call'', JArray [feed_object, JString ''latest''])]"

text \<open>The report, absent when one of the answers cannot be printed.\<close>

definition int_field :: "('rq, 'jp) eth_env \<Rightarrow> string \<Rightarrow> string option" where
  "int_field en t = (case en_to_int en t of Inl _ \<Rightarrow> None | Inr i \<Rightarrow> Some (en_show_int en i))"

definition ratio_field :: "('rq, 'jp) eth_env \<Rightarrow> nat \<Rightarrow> bool \<Rightarrow> int \<Rightarrow> string \<Rightarrow> string option" where
  "ratio_field en precision fixed unit t =
     (case en_to_int en t of Inl _ \<Rightarrow> None | Inr i \<Rightarrow> Some (en_show_ratio en precision fixed i unit))"

definition block_field :: "('rq, 'jp) eth_env \<Rightarrow> string \<Rightarrow> json_object \<Rightarrow> string option" where
  "block_field en k block = (case if_contains k block of Some (JString t) \<Rightarrow> int_field en t | _ \<Rightarrow> None)"

definition count_field :: "string \<Rightarrow> json_object \<Rightarrow> string option" where
  "count_field k block =
     (case if_contains k block of Some (JArray a) \<Rightarrow> Some (show_nat (length a)) | _ \<Rightarrow> None)"

definition report_line :: "string \<Rightarrow> string \<Rightarrow> string option \<Rightarrow> string option" where
  "report_line label unit_text f = map_option (\<lambda>t. label @ t @ unit_text @ newline) f"

definition eth_report ::
    "('rq, 'jp) eth_env \<Rightarrow> string \<Rightarrow> string \<Rightarrow> json_object \<Rightarrow> string \<Rightarrow> string \<Rightarrow> string \<Rightarrow> string \<Rightarrow> string option" where
  "eth_report en version block_num block balance gas price usd =
     map_option concat (those
      [report_line ''web3 client:  '' [] (Some (en_serialize en (JString version))),
       report_line ''Block number: '' [] (int_field en block_num),
       report_line ''Block hash:   '' [] (Some (en_serialize en (case if_contains ''hash'' block of Some v \<Rightarrow> v | None \<Rightarrow> JNull))),
       report_line ''Block size:   '' '' Bytes'' (block_field en ''size'' block),
       report_line ''Timestamp:    '' [] (block_field en ''timestamp'' block),
       report_line ''Transactions: '' [] (count_field ''transactions'' block),
       report_line ''Balance:      '' '' ETH'' (ratio_field en 18 False (10 ^ 18) balance),
       report_line ''Gas estimate: '' [] (int_field en gas),
       report_line ''Gas price:    '' '' GWEI'' (ratio_field en 3 False (10 ^ 10) price),
       report_line ''ETH/USD:      '' [] (ratio_field en 3 True (10 ^ 8) usd)])"

text \<open>What the peer answers, call after call: the values the parser releases, as the calls read them
  under their numbers, and the results of the wanted type.\<close>

fun parser_after :: "('rq, 'jp) eth_env \<Rightarrow> 'jp \<Rightarrow> nat \<Rightarrow> 'jp" where
  "parser_after en jp 0 = jp"
| "parser_after en jp (Suc k) =
     snd (request_op_run (en_parser en) (of_nat (Suc k)) (en_events en k) (parser_after en jp k))"

definition typed_answer ::
    "('rq, 'jp) eth_env \<Rightarrow> 'jp \<Rightarrow> (json \<Rightarrow> 'r option) \<Rightarrow> (json \<Rightarrow> error_code + 'r) \<Rightarrow> 'r \<Rightarrow> nat \<Rightarrow> 'r option" where
  "typed_answer en jp quick conv dflt k =
     (case fst (request_op_run (en_parser en) (of_nat (Suc k)) (en_events en k) (parser_after en jp k)) of
        Call_threw _ \<Rightarrow> None
      | Call_complete e v \<Rightarrow>
          (case transform_result quick conv dflt e v of (e', r) \<Rightarrow> if ec_failed (re_code e') then None else Some r))"

definition string_answer :: "('rq, 'jp) eth_env \<Rightarrow> 'jp \<Rightarrow> nat \<Rightarrow> string option" where
  "string_answer en jp = typed_answer en jp converts_to_string (en_to_string en) []"

definition object_answer :: "('rq, 'jp) eth_env \<Rightarrow> 'jp \<Rightarrow> nat \<Rightarrow> json_object option" where
  "object_answer en jp = typed_answer en jp converts_to_object (en_to_object en) []"

text \<open>The report on the answers, absent when there is no such answer to one of the calls.\<close>

definition expected_report :: "('rq, 'jp) eth_env \<Rightarrow> 'jp \<Rightarrow> string option" where
  "expected_report en jp =
     (case (string_answer en jp 0, string_answer en jp 1, object_answer en jp 2, string_answer en jp 3,
         string_answer en jp 4, string_answer en jp 5, string_answer en jp 6) of
        (Some version, Some block_num, Some block, Some balance, Some gas, Some price, Some usd) \<Rightarrow>
          eth_report en version block_num block balance gas price usd
      | _ \<Rightarrow> None)"

end
