(* ===== verification/Eth_Client_Proofs.thy ===== *)
theory Eth_Client_Proofs
  imports Eth_Client
begin

text \<open>
  The run of the Ethereum example as a whole: weakest preconditions for its coroutine, the states
  between its calls, and the theorem that describes every run.
\<close>

subsection \<open>Reasoning about the coroutine\<close>

text \<open>What must hold before a step so that it ends normally in \<open>Q\<close> or by an exception in \<open>E\<close>.\<close>

definition wp ::
    "('rq, 'jp, 'a) eth \<Rightarrow> ('a \<Rightarrow> ('rq, 'jp) eth_state \<Rightarrow> bool) \<Rightarrow> (('rq, 'jp) eth_state \<Rightarrow> bool) \<Rightarrow>
     ('rq, 'jp) eth_state \<Rightarrow> bool" where
  "wp f Q E s = (case f s of (Inl _, s') \<Rightarrow> E s' | (Inr a, s') \<Rightarrow> Q a s')"

lemma wp_bind [simp]: "wp (eth_bind f g) Q E s = wp f (\<lambda>a. wp (g a) Q E) E s"
  by (simp add: wp_def eth_bind_def split: prod.split sum.split)

lemma wp_return [simp]: "wp (eth_return x) Q E s = Q x s"
  by (simp add: wp_def eth_return_def)

lemma wp_lift [simp]: "wp (eth_lift r) Q E s = (case r of Inl _ \<Rightarrow> E s | Inr a \<Rightarrow> Q a s)"
  by (simp add: wp_def eth_lift_def split: sum.split)

lemma wp_put [simp]: "wp (put t) Q E s = Q () (s\<lparr>et_out := et_out s @ t\<rparr>)"
  by (simp add: wp_def put_def)

lemma wp_mono:
  assumes "wp f Q E s" "\<And>a s'. Q a s' \<Longrightarrow> Q' a s'" "\<And>s'. E s' \<Longrightarrow> E' s'"
  shows "wp f Q' E' s"
  using assms by (auto simp: wp_def split: prod.splits sum.splits)

text \<open>The client after a sequence of calls, and the states in which exactly these were made.\<close>

fun calls_client ::
    "'rq request_ops \<Rightarrow> (json \<Rightarrow> string) \<Rightarrow> (string \<times> json) list \<Rightarrow> 'rq rpc_client \<Rightarrow> 'rq rpc_client" where
  "calls_client ops serialize [] c = c"
| "calls_client ops serialize ((meth, params) # calls) c =
     calls_client ops serialize calls (snd (snd (start_call ops serialize meth params c)))"

lemma run_calls_snoc:
  "run_calls ops serialize (calls @ [(meth, params)]) c = run_calls ops serialize calls c @
     [(case start_call ops serialize meth params (calls_client ops serialize calls c) of (n, rb, _) \<Rightarrow> (n, rb))]"
  by (induction ops serialize calls c rule: run_calls.induct) (auto split: prod.split)

lemma calls_client_snoc:
  "calls_client ops serialize (calls @ [(meth, params)]) c =
   snd (snd (start_call ops serialize meth params (calls_client ops serialize calls c)))"
  by (induction ops serialize calls c rule: calls_client.induct) auto

lemma calls_client_id: "cl_id (calls_client ops serialize calls c) = cl_id c + of_nat (length calls)"
  by (induction ops serialize calls c rule: calls_client.induct)
    (auto simp: start_call_def next_id_def Let_def)

lemma run_calls_length [simp]: "length (run_calls ops serialize calls c) = length calls"
  by (induction ops serialize calls c rule: run_calls.induct) (auto split: prod.split)

definition issued ::
    "('rq, 'jp) eth_env \<Rightarrow> 'rq rpc_client \<Rightarrow> 'jp \<Rightarrow> (string \<times> json) list \<Rightarrow> ('rq, 'jp) eth_state \<Rightarrow> bool" where
  "issued en c jp calls s \<longleftrightarrow> cl_id c = 0 \<and> et_sent s = run_calls (en_ops en) (en_serialize en) calls c \<and>
     et_client s = calls_client (en_ops en) (en_serialize en) calls c \<and>
     et_parser s = parser_after en jp (length calls)"

lemma issued_out [simp]: "issued en c jp calls (s\<lparr>et_out := t\<rparr>) = issued en c jp calls s"
  by (simp add: issued_def)

text \<open>The exception for the error of a call is thrown exactly when there is no answer.\<close>

lemma to_exception_ptr_None [simp]: "to_exception_ptr serialize e = None \<longleftrightarrow> \<not> ec_failed (re_code e)"
  by (simp add: to_exception_ptr_def)

lemma to_exception_ptr_failed: "to_exception_ptr serialize e = Some x \<Longrightarrow> ec_failed (re_code e)"
  by (simp add: to_exception_ptr_def split: if_splits)

text \<open>A call is made whatever becomes of it, and it returns the answer of its place in the sequence;
  only the client, its parser and the log of requests change.\<close>

lemma await_call_effect:
  assumes "await_call en quick conv dflt meth ps s = (r, s')" "issued en c jp calls s"
  shows "issued en c jp (calls @ [(meth, params_value ps)]) s' \<and> et_out s' = et_out s \<and> et_net s' = et_net s \<and>
    et_stream s' = et_stream s \<and>
    (case r of Inl _ \<Rightarrow> typed_answer en jp quick conv dflt (length calls) = None
     | Inr v \<Rightarrow> typed_answer en jp quick conv dflt (length calls) = Some v)"
proof -
  let ?n = "of_nat (Suc (length calls)) :: u64"
  obtain rb c1 where st: "start_call (en_ops en) (en_serialize en) meth (params_value ps) (et_client s) = (?n, rb, c1)"
    using assms(2) by (simp add: start_call_def next_id_def issued_def calls_client_id Let_def)
  obtain o1 jp1 where run: "request_op_run (en_parser en) ?n (en_events en (length calls))
      (parser_after en jp (length calls)) = (o1, jp1)" by (metis surj_pair)
  show ?thesis
    using assms st run
    by (auto simp: await_call_def async_call_def issued_def run_calls_snoc calls_client_snoc typed_answer_def Let_def
        simp del: of_nat_Suc dest!: to_exception_ptr_failed split: prod.splits typed_outcome.splits option.splits call_outcome.splits if_splits)
qed

text \<open>The states between two calls: the calls made, the text written, and the connection; and the
  states an exception leaves, where \<open>F\<close> is the reason.\<close>

definition eth_at where
  "eth_at en c jp w st calls out s \<longleftrightarrow> issued en c jp calls s \<and> et_out s = out \<and> et_net s = w \<and> et_stream s = st"

definition eth_stopped where
  "eth_stopped en c jp F s \<longleftrightarrow> F \<and> (\<exists>block_num k. issued en c jp (take k (eth_requests block_num)) s)"

lemma eth_requests_length [simp]: "length (eth_requests b) = 7"
  by (simp add: eth_requests_def)

lemma eth_stoppedI: "issued en c jp (take k (eth_requests b)) s \<Longrightarrow> F \<Longrightarrow> eth_stopped en c jp F s"
  by (auto simp: eth_stopped_def)

lemma eth_at_stopped: "eth_at en c jp w st (take k (eth_requests b)) out s \<Longrightarrow> F \<Longrightarrow> eth_stopped en c jp F s"
  by (auto simp: eth_at_def intro: eth_stoppedI)

lemma eth_at_put:
  "eth_at en c jp w st calls out s \<Longrightarrow> eth_at en c jp w st calls (out @ t) (s\<lparr>et_out := et_out s @ t\<rparr>)"
  by (simp add: eth_at_def)

lemma eth_stopped_out [simp]: "eth_stopped en c jp F (s\<lparr>et_out := t\<rparr>) = eth_stopped en c jp F s"
  by (simp add: eth_stopped_def)

lemma wp_put_int [simp]:
  "wp (put_int en t) Q E s = (case int_field en t of None \<Rightarrow> E s | Some v \<Rightarrow> Q () (s\<lparr>et_out := et_out s @ v\<rparr>))"
  by (simp add: put_int_def int_field_def split: sum.split)

lemma wp_put_ratio [simp]:
  "wp (put_ratio en p b t u) Q E s =
     (case ratio_field en p b u t of None \<Rightarrow> E s | Some v \<Rightarrow> Q () (s\<lparr>et_out := et_out s @ v\<rparr>))"
  by (simp add: put_ratio_def ratio_field_def split: sum.split)

text \<open>The next call of the sequence, and what follows it.\<close>

lemma wp_next_call:
  assumes at: "eth_at en c jp w st (take k (eth_requests b)) out s" and k: "k < 7"
    and call: "eth_requests b ! k = (meth, params_value ps)"
    and fail: "typed_answer en jp quick conv dflt k = None \<Longrightarrow> F"
    and ok: "\<And>v s'. typed_answer en jp quick conv dflt k = Some v \<Longrightarrow>
      eth_at en c jp w st (take (Suc k) (eth_requests b)) out s' \<Longrightarrow> wp (g v) Q (eth_stopped en c jp F) s'"
  shows "wp (eth_bind (await_call en quick conv dflt meth ps) g) Q (eth_stopped en c jp F) s"
proof -
  obtain r s' where r: "await_call en quick conv dflt meth ps s = (r, s')" by (metis surj_pair)
  have calls: "take k (eth_requests b) @ [(meth, params_value ps)] = take (Suc k) (eth_requests b)"
      "length (take k (eth_requests b)) = k"
    using call k by (simp_all add: take_Suc_conv_app_nth)
  have eff: "eth_at en c jp w st (take (Suc k) (eth_requests b)) out s' \<and>
      (case r of Inl _ \<Rightarrow> typed_answer en jp quick conv dflt k = None
       | Inr v \<Rightarrow> typed_answer en jp quick conv dflt k = Some v)"
    using await_call_effect [OF r, of c jp "take k (eth_requests b)"] at
    unfolding calls by (simp add: eth_at_def)
  show ?thesis
    using eff ok eth_at_stopped fail unfolding wp_bind wp_def [of "await_call _ _ _ _ _ _"] r
    by (fastforce split: sum.split)
qed

lemmas call_defs = call_string_def call_object_def

lemmas answer_defs = string_answer_def object_answer_def

subsection \<open>The lines of the report\<close>

lemma wp_print_version:
  assumes "eth_at en c jp w st [] out s" and "string_answer en jp 0 = None \<Longrightarrow> F"
    and "\<And>v t s'. string_answer en jp 0 = Some v \<Longrightarrow>
        report_line ''web3 client:  '' [] (Some (en_serialize en (JString v))) = Some t \<Longrightarrow>
        eth_at en c jp w st (take 1 (eth_requests b)) (out @ t) s' \<Longrightarrow> Q () s'"
  shows "wp (print_version en) Q (eth_stopped en c jp F) s"
  unfolding print_version_def call_defs wp_bind [of "put _"] wp_put
  by (rule wp_next_call [of en c jp w st 0 b "out @ ''web3 client:  ''"])
    (use assms in \<open>auto simp: eth_at_def eth_requests_def params_value_def answer_defs report_line_def\<close>)

lemma wp_print_block_number:
  assumes at: "eth_at en c jp w st (take 1 (eth_requests b0)) out s"
    and fail: "string_answer en jp 1 = None \<Longrightarrow> F"
      "\<And>b. string_answer en jp 1 = Some b \<Longrightarrow> int_field en b = None \<Longrightarrow> F"
    and ok: "\<And>b t s'. string_answer en jp 1 = Some b \<Longrightarrow>
        report_line ''Block number: '' [] (int_field en b) = Some t \<Longrightarrow>
        eth_at en c jp w st (take 2 (eth_requests b)) (out @ t) s' \<Longrightarrow> Q b s'"
  shows "wp (print_block_number en) Q (eth_stopped en c jp F) s"
  unfolding print_block_number_def call_defs
proof (rule wp_next_call [OF at])
  fix b s' assume b: "typed_answer en jp converts_to_string (en_to_string en) [] 1 = Some b"
    and "eth_at en c jp w st (take (Suc 1) (eth_requests b0)) out s'"
  then have at': "eth_at en c jp w st (take 2 (eth_requests b)) out s'" by (simp add: eth_requests_def)
  show "wp (eth_bind (put ''Block number: '') (\<lambda>_. eth_bind (put_int en b) (\<lambda>_. eth_bind (put newline)
      (\<lambda>_. eth_return b)))) Q (eth_stopped en c jp F) s'"
    using b ok [of b _ "s'\<lparr>et_out := et_out s' @ _\<rparr>"] fail(2) at' eth_at_stopped [OF at', of F]
    by (auto simp: report_line_def eth_at_def answer_defs split: option.split)
qed (use fail(1) in \<open>simp_all add: eth_requests_def params_value_def answer_defs\<close>)

text \<open>The four lines that print one converted answer.\<close>

lemma wp_print_answer:
  assumes at: "eth_at en c jp w st (take k (eth_requests b)) out s" and k: "k < 7"
    and call: "eth_requests b ! k = (meth, params_value ps)"
    and body: "\<And>v Q E s. wp (body v) Q E s =
        (case f v of None \<Rightarrow> E s | Some x \<Rightarrow> Q () (s\<lparr>et_out := et_out s @ x\<rparr>))"
    and fail: "string_answer en jp k = None \<Longrightarrow> F" "\<And>v. string_answer en jp k = Some v \<Longrightarrow> f v = None \<Longrightarrow> F"
    and ok: "\<And>v t s'. string_answer en jp k = Some v \<Longrightarrow> report_line label unit_text (f v) = Some t \<Longrightarrow>
        eth_at en c jp w st (take (Suc k) (eth_requests b)) (out @ t) s' \<Longrightarrow> Q () s'"
  shows "wp (eth_bind (await_call en converts_to_string (en_to_string en) [] meth ps) (\<lambda>v. eth_bind (put label) (\<lambda>_.
      eth_bind (body v) (\<lambda>_. put (unit_text @ newline))))) Q (eth_stopped en c jp F) s"
proof (rule wp_next_call [OF at k call])
  fix v s' assume v: "typed_answer en jp converts_to_string (en_to_string en) [] k = Some v"
    and at': "eth_at en c jp w st (take (Suc k) (eth_requests b)) out s'"
  show "wp (eth_bind (put label) (\<lambda>_. eth_bind (body v) (\<lambda>_. put (unit_text @ newline)))) Q (eth_stopped en c jp F) s'"
  proof (cases "f v")
    case None then show ?thesis using eth_at_stopped [OF at'] fail(2) [of v] v by (simp add: body answer_defs)
  next
    case (Some x)
    from ok [of v _ "s'\<lparr>et_out := et_out s' @ label @ x @ unit_text @ newline\<rparr>"] Some at' v
    show ?thesis by (simp add: body report_line_def eth_at_def answer_defs)
  qed
qed (use fail(1) in \<open>simp add: answer_defs\<close>)

lemma wp_print_balance:
  assumes "eth_at en c jp w st (take 3 (eth_requests b)) out s"
    and "string_answer en jp 3 = None \<Longrightarrow> F"
    and "\<And>v. string_answer en jp 3 = Some v \<Longrightarrow> ratio_field en 18 False (10 ^ 18) v = None \<Longrightarrow> F"
    and "\<And>v t s'. string_answer en jp 3 = Some v \<Longrightarrow> report_line ''Balance:      '' '' ETH'' (ratio_field en 18 False (10 ^ 18) v) = Some t \<Longrightarrow>
        eth_at en c jp w st (take 4 (eth_requests b)) (out @ t) s' \<Longrightarrow> Q () s'"
  shows "wp (print_balance en b) Q (eth_stopped en c jp F) s"
  unfolding print_balance_def call_defs
  by (rule wp_print_answer [where f = "ratio_field en 18 False (10 ^ 18)", OF assms(1)])
    (use assms(2-) in \<open>auto simp: eth_requests_def params_value_def\<close>)

lemma wp_print_gas_estimate:
  assumes "eth_at en c jp w st (take 4 (eth_requests b)) out s"
    and "string_answer en jp 4 = None \<Longrightarrow> F"
    and "\<And>v. string_answer en jp 4 = Some v \<Longrightarrow> int_field en v = None \<Longrightarrow> F"
    and "\<And>v t s'. string_answer en jp 4 = Some v \<Longrightarrow> report_line ''Gas estimate: '' [] (int_field en v) = Some t \<Longrightarrow>
        eth_at en c jp w st (take 5 (eth_requests b)) (out @ t) s' \<Longrightarrow> Q () s'"
  shows "wp (print_gas_estimate en) Q (eth_stopped en c jp F) s"
  unfolding print_gas_estimate_def call_defs
  by (rule wp_print_answer [where f = "int_field en", OF assms(1), where unit_text = "[]", unfolded append_Nil])
    (use assms(2-) in \<open>auto simp: eth_requests_def params_value_def\<close>)

lemma wp_print_gas_price:
  assumes "eth_at en c jp w st (take 5 (eth_requests b)) out s"
    and "string_answer en jp 5 = None \<Longrightarrow> F"
    and "\<And>v. string_answer en jp 5 = Some v \<Longrightarrow> ratio_field en 3 False (10 ^ 10) v = None \<Longrightarrow> F"
    and "\<And>v t s'. string_answer en jp 5 = Some v \<Longrightarrow> report_line ''Gas price:    '' '' GWEI'' (ratio_field en 3 False (10 ^ 10) v) = Some t \<Longrightarrow>
        eth_at en c jp w st (take 6 (eth_requests b)) (out @ t) s' \<Longrightarrow> Q () s'"
  shows "wp (print_gas_price en) Q (eth_stopped en c jp F) s"
  unfolding print_gas_price_def call_defs
  by (rule wp_print_answer [where f = "ratio_field en 3 False (10 ^ 10)", OF assms(1)])
    (use assms(2-) in \<open>auto simp: eth_requests_def params_value_def\<close>)

lemma wp_print_eth_usd:
  assumes "eth_at en c jp w st (take 6 (eth_requests b)) out s"
    and "string_answer en jp 6 = None \<Longrightarrow> F"
    and "\<And>v. string_answer en jp 6 = Some v \<Longrightarrow> ratio_field en 3 True (10 ^ 8) v = None \<Longrightarrow> F"
    and "\<And>v t s'. string_answer en jp 6 = Some v \<Longrightarrow> report_line ''ETH/USD:      '' [] (ratio_field en 3 True (10 ^ 8) v) = Some t \<Longrightarrow>
        eth_at en c jp w st (eth_requests b) (out @ t) s' \<Longrightarrow> Q () s'"
  shows "wp (print_eth_usd en) Q (eth_stopped en c jp F) s"
  unfolding print_eth_usd_def call_defs
  by (rule wp_print_answer [where f = "ratio_field en 3 True (10 ^ 8)", OF assms(1), where unit_text = "[]", unfolded append_Nil])
    (use assms(2-) in \<open>auto simp: eth_requests_def params_value_def\<close>)

text \<open>Reading a member inserts at most that member.\<close>

lemma object_index_value:
  "fst (object_index k obj) = (case if_contains k obj of Some v \<Rightarrow> v | None \<Rightarrow> JNull)"
  by (simp add: object_index_def split: option.split)

lemma object_index_other:
  "k' \<noteq> k \<Longrightarrow> if_contains k' (snd (object_index k obj)) = if_contains k' obj"
  by (auto simp: object_index_def if_contains_def map_add_def split: option.split)

lemma wp_as_string:
  "wp (eth_bind (eth_lift (as_string (case if_contains k block of Some v \<Rightarrow> v | None \<Rightarrow> JNull))) (\<lambda>t.
       eth_bind (put_int en t) g)) Q E s =
   (case block_field en k block of None \<Rightarrow> E s | Some v \<Rightarrow> wp (g ()) Q E (s\<lparr>et_out := et_out s @ v\<rparr>))"
  by (simp add: as_string_def block_field_def split: option.split json.split)

lemma wp_as_array:
  "wp (eth_bind (eth_lift (as_array (case if_contains k block of Some v \<Rightarrow> v | None \<Rightarrow> JNull))) (\<lambda>a.
       put (show_nat (length a) @ t))) Q E s =
   (case count_field k block of None \<Rightarrow> E s | Some v \<Rightarrow> Q () (s\<lparr>et_out := et_out s @ v @ t\<rparr>))"
  by (simp add: as_array_def count_field_def split: option.split json.split)

lemma wp_bind_put: "wp (eth_bind (put t) g) Q E s = wp (g ()) Q E (s\<lparr>et_out := et_out s @ t\<rparr>)"
  by simp

definition block_lines :: "('rq, 'jp) eth_env \<Rightarrow> json_object \<Rightarrow> string option list" where
  "block_lines en block =
      [report_line ''Block hash:   '' [] (Some (en_serialize en (case if_contains ''hash'' block of Some v \<Rightarrow> v | None \<Rightarrow> JNull))),
       report_line ''Block size:   '' '' Bytes'' (block_field en ''size'' block),
       report_line ''Timestamp:    '' [] (block_field en ''timestamp'' block),
       report_line ''Transactions: '' [] (count_field ''transactions'' block)]"

lemma wp_print_block:
  assumes at: "eth_at en c jp w st (take 2 (eth_requests b)) out s"
    and fail: "object_answer en jp 2 = None \<Longrightarrow> F"
      "\<And>block. object_answer en jp 2 = Some block \<Longrightarrow> those (block_lines en block) = None \<Longrightarrow> F"
    and ok: "\<And>block ts s'. object_answer en jp 2 = Some block \<Longrightarrow> those (block_lines en block) = Some ts \<Longrightarrow>
        eth_at en c jp w st (take 3 (eth_requests b)) (out @ concat ts) s' \<Longrightarrow> Q () s'"
  shows "wp (print_block en b) Q (eth_stopped en c jp F) s"
  unfolding print_block_def call_defs case_prod_unfold object_index_value
proof (rule wp_next_call [OF at], goal_cases)
  case (4 block s')
  then have block: "object_answer en jp 2 = Some block" and at': "eth_at en c jp w st (take 3 (eth_requests b)) out s'"
    by (simp_all add: answer_defs)
  have printed: "Q () (s'\<lparr>et_out := et_out s' @ concat ts\<rparr>)" if "those (block_lines en block) = Some ts" for ts
    using ok [OF block that eth_at_put [OF at']] .
  have stop: "eth_stopped en c jp F s'" if "those (block_lines en block) = None"
    using eth_at_stopped [OF at' fail(2) [OF block that]] .
  show ?case
    using stop printed
    by (cases "block_field en ''size'' block"; cases "block_field en ''timestamp'' block";
        cases "count_field ''transactions'' block")
      (simp_all add: object_index_other wp_as_string wp_as_array wp_bind_put block_lines_def report_line_def
        del: wp_bind)
qed (use fail(1) in \<open>simp_all add: eth_requests_def params_value_def answer_defs\<close>)

subsection \<open>Every run of the program\<close>

lemma those_None_iff: "those xs = None \<longleftrightarrow> None \<in> set xs"
  by (induction xs) (auto split: option.split)

lemma report_line_None [simp]:
  "report_line label unit_text f = None \<longleftrightarrow> f = None" "None = report_line label unit_text f \<longleftrightarrow> f = None"
  "report_line label unit_text None = None"
  by (auto simp: report_line_def)

lemma eth_report_lines:
  "eth_report en version b block balance gas price usd =
     map_option concat (those
      (report_line ''web3 client:  '' [] (Some (en_serialize en (JString version))) #
       report_line ''Block number: '' [] (int_field en b) # block_lines en block @
       [report_line ''Balance:      '' '' ETH'' (ratio_field en 18 False (10 ^ 18) balance),
        report_line ''Gas estimate: '' [] (int_field en gas),
        report_line ''Gas price:    '' '' GWEI'' (ratio_field en 3 False (10 ^ 10) price),
        report_line ''ETH/USD:      '' [] (ratio_field en 3 True (10 ^ 8) usd)]))"
  by (simp add: eth_report_def block_lines_def)

lemma those_append:
  "those (xs @ ys) = (case those xs of None \<Rightarrow> None | Some as \<Rightarrow> map_option ((@) as) (those ys))"
proof (induction xs)
  case Nil show ?case by (cases "those ys") simp_all
next
  case (Cons x xs) then show ?case by (cases "those ys") (auto split: option.split)
qed

lemma wp_open_client:
  assumes "parse eth_url = Inr endpoint" "et_sent s = []" "et_out s = []"
    and c: "c = client_new (en_ops en) brotli zlib endpoint"
    and fail: "(\<And>st w. stream_connect endpoint \<lparr>rp_secure = False\<rparr> (et_net s) \<noteq> (Inr st, w)) \<Longrightarrow> F"
    and ok: "\<And>st w s'. stream_connect endpoint \<lparr>rp_secure = False\<rparr> (et_net s) = (Inr st, w) \<Longrightarrow>
      eth_at en c (et_parser s) w st [] [] s' \<Longrightarrow> Q () s'"
  shows "wp (open_client en parse brotli zlib) Q (eth_stopped en c (et_parser s) F) s"
proof -
  let ?s = "s\<lparr>et_client := c, et_stream := \<lparr>rp_secure = False\<rparr>\<rparr>"
  have issued: "issued en c (et_parser s) (take 0 (eth_requests [])) s'"
    if "et_sent s' = []" "et_client s' = c" "et_parser s' = et_parser s" for s'
    using that by (simp add: issued_def c client_new_def Let_def)
  obtain r w where r: "stream_connect endpoint \<lparr>rp_secure = False\<rparr> (et_net s) = (r, w)" by (metis surj_pair)
  show ?thesis
  proof (cases r)
    case (Inl x)
    have "eth_stopped en c (et_parser s) F (?s\<lparr>et_net := w\<rparr>)"
      by (rule eth_stoppedI [OF issued]) (use assms(2) fail r Inl in simp_all)
    then show ?thesis using assms(1) r Inl c by (simp add: open_client_def wp_def Let_def eth_bind_def eth_lift_def)
  next
    case (Inr st)
    have "eth_at en c (et_parser s) w st [] [] (?s\<lparr>et_net := w, et_stream := st\<rparr>)"
      using issued [of "?s\<lparr>et_net := w, et_stream := st\<rparr>"] assms(2,3) by (simp add: eth_at_def)
    from ok [OF _ this] r Inr show ?thesis using assms(1) c by (simp add: open_client_def wp_def Let_def eth_bind_def eth_lift_def)
  qed
qed

text \<open>The shutdown at the end, and when it is accepted.\<close>

definition shutdown_accepted :: "('rq, 'jp) eth_env \<Rightarrow> rpc_stream \<Rightarrow> bool" where
  "shutdown_accepted en st =
     (let ec = stream_shutdown (en_tls_shutdown en) (en_tcp_shutdown en) (en_tcp_close en) st in
      \<not> ec_failed ec \<or> ec = stream_truncated)"

lemma wp_close_client: "wp (close_client en) Q E s = (if shutdown_accepted en (et_stream s) then Q () s else E s)"
  by (auto simp: wp_def close_client_def shutdown_accepted_def Let_def)

text \<open>What keeps the report from being complete.\<close>

lemma expected_report_NoneI:
  assumes "string_answer en jp 0 = None \<or> string_answer en jp 1 = None \<or> object_answer en jp 2 = None \<or>
      string_answer en jp 3 = None \<or> string_answer en jp 4 = None \<or> string_answer en jp 5 = None \<or>
      string_answer en jp 6 = None \<or>
      string_answer en jp 1 = Some b \<and> int_field en b = None \<or>
      object_answer en jp 2 = Some block \<and> those (block_lines en block) = None \<or>
      string_answer en jp 3 = Some v \<and> ratio_field en 18 False (10 ^ 18) v = None \<or>
      string_answer en jp 4 = Some v \<and> int_field en v = None \<or>
      string_answer en jp 5 = Some v \<and> ratio_field en 3 False (10 ^ 10) v = None \<or>
      string_answer en jp 6 = Some v \<and> ratio_field en 3 True (10 ^ 8) v = None"
  shows "expected_report en jp = None"
  using assms by (elim disjE conjE) (auto simp: expected_report_def eth_report_lines those_None_iff split: option.split)

lemma expected_reportI:
  assumes "string_answer en jp 0 = Some v0" "report_line ''web3 client:  '' [] (Some (en_serialize en (JString v0))) = Some t0"
    and "string_answer en jp 1 = Some b" "report_line ''Block number: '' [] (int_field en b) = Some t1"
    and "object_answer en jp 2 = Some block" "those (block_lines en block) = Some ts"
    and "string_answer en jp 3 = Some v3" "report_line ''Balance:      '' '' ETH'' (ratio_field en 18 False (10 ^ 18) v3) = Some t3"
    and "string_answer en jp 4 = Some v4" "report_line ''Gas estimate: '' [] (int_field en v4) = Some t4"
    and "string_answer en jp 5 = Some v5" "report_line ''Gas price:    '' '' GWEI'' (ratio_field en 3 False (10 ^ 10) v5) = Some t5"
    and "string_answer en jp 6 = Some v6" "report_line ''ETH/USD:      '' [] (ratio_field en 3 True (10 ^ 8) v6) = Some t6"
  shows "expected_report en jp = Some ((((((([] @ t0) @ t1) @ concat ts) @ t3) @ t4) @ t5) @ t6)"
  using assms by (simp add: expected_report_def eth_report_lines those_append)

definition eth_succeeds ::
    "('rq, 'jp) eth_env \<Rightarrow> url_view \<Rightarrow> 'rq net \<Rightarrow> 'jp \<Rightarrow> bool" where
  "eth_succeeds en endpoint w jp \<longleftrightarrow>
     (case stream_connect endpoint \<lparr>rp_secure = False\<rparr> w of
        (Inl _, _) \<Rightarrow> False
      | (Inr st, _) \<Rightarrow> expected_report en jp \<noteq> None \<and> shutdown_accepted en st)"

lemma eth_co_main_run:
  assumes "parse eth_url = Inr endpoint" "et_sent s = []" "et_out s = []"
    and c: "c = client_new (en_ops en) brotli zlib endpoint"
  shows "wp (eth_co_main en parse brotli zlib)
     (\<lambda>_ s'. eth_succeeds en endpoint (et_net s) (et_parser s) \<and> expected_report en (et_parser s) = Some (et_out s') \<and>
        (\<exists>b. string_answer en (et_parser s) 1 = Some b \<and> issued en c (et_parser s) (eth_requests b) s'))
     (eth_stopped en c (et_parser s) (\<not> eth_succeeds en endpoint (et_net s) (et_parser s))) s"
proof -
  let ?jp = "et_parser s" and ?F = "\<not> eth_succeeds en endpoint (et_net s) (et_parser s)"
  have unconnected: ?F if "\<And>st w. stream_connect endpoint \<lparr>rp_secure = False\<rparr> (et_net s) \<noteq> (Inr st, w)"
    using that by (auto simp: eth_succeeds_def split: prod.split sum.split)
  have unreported: ?F if "expected_report en ?jp = None"
    using that by (auto simp: eth_succeeds_def split: prod.split sum.split)
  note stop = unreported [OF expected_report_NoneI]
  show ?thesis
    unfolding eth_co_main_def wp_bind
    apply (rule wp_open_client [where c = c and endpoint = endpoint])
         apply (use assms in simp_all)[4]
     apply (rule unconnected, assumption)
    apply (erule wp_print_version [where b = "[]"], (rule stop, blast))
    apply (erule wp_print_block_number, (rule stop, blast), (rule stop, blast))
    apply (erule wp_print_block, (rule stop, blast), (rule stop, blast))
    apply (erule wp_print_balance, (rule stop, blast), (rule stop, blast))
    apply (erule wp_print_gas_estimate, (rule stop, blast), (rule stop, blast))
    apply (erule wp_print_gas_price, (rule stop, blast), (rule stop, blast))
    apply (erule wp_print_eth_usd, (rule stop, blast), (rule stop, blast))
    subgoal premises p
      using p(1,4,16) expected_reportI [OF p(2-15)] eth_at_stopped [where k = 7] p(16)
      by (auto simp: wp_close_client eth_succeeds_def eth_at_def intro: eth_stoppedI [where k = 7])
    done
qed

text \<open>
  C21. Every run of the Ethereum example.  The process succeeds exactly when its connection to the
  endpoint comes about, each of the seven calls is answered with a result of the declared type that
  can be printed, and the shutdown works or ends in a truncated stream.  It has then made the seven
  calls in their order, numbered from one, the third and fourth for the block the second returned,
  and has written the report on exactly these answers, in which the gas price is the price in wei
  divided by ten to the tenth.  Otherwise it ends with status one and a message, and has made
  some first calls of such a sequence and no others.
\<close>

theorem eth_session:
  assumes "parse eth_url = Inr endpoint" "et_sent s = []" "et_out s = []"
    and run: "eth_main en what parse None brotli zlib s = (status, err, s')"
  shows "if eth_succeeds en endpoint (et_net s) (et_parser s)
    then status = 0 \<and> err = [] \<and> expected_report en (et_parser s) = Some (et_out s') \<and>
      (\<exists>block_num. string_answer en (et_parser s) 1 = Some block_num \<and>
        et_sent s' = run_calls (en_ops en) (en_serialize en) (eth_requests block_num)
          (client_new (en_ops en) brotli zlib endpoint))
    else status = 1 \<and> (\<exists>x. err = ''Error: '' @ what x @ newline) \<and>
      (\<exists>block_num k. et_sent s' = run_calls (en_ops en) (en_serialize en) (take k (eth_requests block_num))
        (client_new (en_ops en) brotli zlib endpoint))"
proof -
  obtain r s1 where r: "eth_co_main en parse brotli zlib s = (r, s1)" by (metis surj_pair)
  note spec = eth_co_main_run [where en = en and parse = parse and brotli = brotli and zlib = zlib,
      OF assms(1-3) refl, unfolded wp_def r]
  show ?thesis
  proof (cases r)
    case (Inl x)
    then have "status = 1" "err = ''Error: '' @ what x @ newline" "s' = s1" using run r by (simp_all add: eth_main_def Let_def)
    then show ?thesis using spec Inl by (auto simp: eth_stopped_def issued_def)
  next
    case (Inr u)
    then have "status = 0" "err = []" "s' = s1" using run r by (simp_all add: eth_main_def Let_def)
    then show ?thesis using spec Inr by (auto simp: issued_def)
  qed
qed

text \<open>A peer that answers every call, and a run against it.\<close>

definition ex_answer :: "nat \<Rightarrow> json" where
  "ex_answer k = JObject [(''jsonrpc'', JString ''2.0''), (''id'', JInt64 (int k + 1)),
     (''result'', if k = 2 then JObject [(''size'', JString ''0x1''), (''timestamp'', JString ''0x2''), (''transactions'', JArray [])]
        else JString ''0x7'')]"

definition ex_eth_env :: "(ref_request, nat) eth_env" where
  "ex_eth_env = \<lparr>en_ops = ref_ops, en_serialize = (\<lambda>_. ''.''),
     en_parser = \<lparr>jp_write = (\<lambda>t p. ((no_error, length t), p)), jp_finish = (\<lambda>p. (no_error, p)),
       jp_release = (\<lambda>p. (Inr (ex_answer p), Suc p))\<rparr>,
     en_to_string = (\<lambda>_. Inl \<lparr>ec_value = 1, ec_category = ''json''\<rparr>),
     en_to_object = (\<lambda>_. Inl \<lparr>ec_value = 1, ec_category = ''json''\<rparr>),
     en_to_int = (\<lambda>_. Inr 7), en_show_int = (\<lambda>_. ''7''), en_show_ratio = (\<lambda>_ _ _ _. ''0''),
     en_events = (\<lambda>_. \<lparr>ce_write = no_error, ce_header = no_error, ce_pieces = [], ce_read = no_error\<rparr>),
     en_tls_shutdown = stream_truncated, en_tcp_shutdown = no_error, en_tcp_close = no_error\<rparr>"

definition ex_endpoint :: url_view where
  "ex_endpoint = url_blank\<lparr>u_scheme_id := scheme_https, u_scheme := ''https'', u_host := ''ethereum.publicnode.com''\<rparr>"

definition ex_eth_state :: "(ref_request, nat) eth_state" where
  "ex_eth_state = \<lparr>et_net = ex_rpc_net, et_stream = \<lparr>rp_secure = False\<rparr>, et_client = client_new ref_ops False False url_blank,
     et_parser = 0, et_sent = [], et_out = []\<rparr>"

lemma ex_eth_run:
  "request_op_run (en_parser ex_eth_env) n (en_events ex_eth_env k) p =
     ((case read_response n (ex_answer p) of (e, v) \<Rightarrow> Call_complete e v), Suc p)"
  by (simp add: ex_eth_env_def request_op_run_def no_error_def ec_failed_def split: prod.split)

lemma ex_parser_after: "parser_after ex_eth_env 0 k = k"
  by (induction k) (simp_all add: ex_eth_run)

lemma ex_typed_answer:
  assumes "k < 7" "quick (if k = 2 then JObject [(''size'', JString ''0x1''), (''timestamp'', JString ''0x2''),
      (''transactions'', JArray [])] else JString ''0x7'') = Some r"
  shows "typed_answer ex_eth_env 0 quick conv dflt k = Some r"
proof -
  have "unat (of_nat (Suc k) :: u64) = Suc k" using assms(1) by (intro call_number) simp
  then have "read_response (of_nat (Suc k)) (ex_answer k) =
      (\<lparr>re_code = no_error, re_info = []\<rparr>, if k = 2 then JObject [(''size'', JString ''0x1''), (''timestamp'', JString ''0x2''),
      (''transactions'', JArray [])] else JString ''0x7'')"
    by (simp add: read_response_def ex_answer_def if_contains_def json_eq_string_def json_eq_uint64_def Let_def
        nat_add_distrib del: of_nat_Suc)
  then show ?thesis
    using assms(2) by (simp add: typed_answer_def ex_eth_run ex_parser_after transform_result_def no_error_def
        ec_failed_def del: of_nat_Suc)
qed

lemma ex_string_answer: "k < 7 \<Longrightarrow> k \<noteq> 2 \<Longrightarrow> string_answer ex_eth_env 0 k = Some ''0x7''"
  unfolding string_answer_def by (rule ex_typed_answer) (simp_all add: converts_to_string_def)

lemma ex_object_answer:
  "object_answer ex_eth_env 0 2 =
   Some [(''size'', JString ''0x1''), (''timestamp'', JString ''0x2''), (''transactions'', JArray [])]"
  unfolding object_answer_def by (rule ex_typed_answer) (simp_all add: converts_to_object_def)

lemma ex_eth_succeeds: "eth_succeeds ex_eth_env ex_endpoint ex_rpc_net 0"
proof -
  have "expected_report ex_eth_env 0 \<noteq> None"
    unfolding expected_report_def ex_object_answer
    by (simp add: ex_string_answer)
      (simp add: eth_report_lines report_line_def block_lines_def int_field_def ratio_field_def
        block_field_def count_field_def if_contains_def ex_eth_env_def)
  then show ?thesis
    by (simp add: eth_succeeds_def stream_connect_def rpc_connect_def perform_tls_handshake_def Let_def co_bind_def
        co_return_def async_resolve_def async_connect_def log_act_def ex_rpc_net_def ex_endpoint_def
        shutdown_accepted_def stream_shutdown_def ex_eth_env_def)
qed

theorem eth_session_witness:
  "\<exists>err s'. eth_main ex_eth_env (\<lambda>_. []) (\<lambda>_. Inr ex_endpoint) None False False ex_eth_state = (0, err, s') \<and>
     length (et_sent s') = 7"
proof -
  obtain status err s' where run:
      "eth_main ex_eth_env (\<lambda>_. []) (\<lambda>_. Inr ex_endpoint) None False False ex_eth_state = (status, err, s')"
    by (metis prod_cases3)
  have "et_sent ex_eth_state = []" "et_out ex_eth_state = []" "et_net ex_eth_state = ex_rpc_net" "et_parser ex_eth_state = 0"
    by (simp_all add: ex_eth_state_def)
  then show ?thesis
    using eth_session [OF _ _ _ run, of ex_endpoint] ex_eth_succeeds run by auto
qed

text \<open>Of the methods declared, only the one whose parameter is a string has no overload to call it
  with; the seven methods called are declared with the parameters and results of their calls.\<close>

lemma eth_methods_callable: "m \<in> set eth_methods \<Longrightarrow> has_overload m \<longleftrightarrow> me_name m \<noteq> ''eth_uninstallFilter''"
  by (auto simp: eth_methods_def has_overload_def)

lemma eth_requests_declared:
  assumes "(meth, params) \<in> set (eth_requests b)"
  shows "\<exists>m \<in> set eth_methods. me_name m = meth \<and> me_param m = (if params = JNull then None else Some Par_array) \<and>
    me_return m = (if meth = ''eth_getBlockByNumber'' then Ret_object else Ret_string)"
  using assms by (auto simp: eth_requests_def eth_methods_def)

end
