(* ===== verification/Spec2Isabelle.thy ===== *)
theory Spec2Isabelle
  imports Format Logger Endpoint Route_Rule Cookie Glob Base64 Utils Progress_Meter Any_Stream Task_Group
    Http_Worker Burl_Request_Proofs Request_Op Connect_Proofs Any_Iostream Request_List Option_Values
    Burl_Retry Burl_Main Burl_Driver_Proofs Jsonrpc Get_Session_Proofs Visit Server_Main
    Option_Table Burl_Stream Http_Server Eth_Client_Proofs
begin

text \<open>
  A verification of the Beast2 HTTP library (\<^verbatim>\<open>src/src\<close>, \<^verbatim>\<open>src/include/boost/beast2\<close>) and of its
  example programs (\<^verbatim>\<open>src/example\<close>), the largest of which is burl, a command line client.

  \<^bold>\<open>The program.\<close>  The library holds a text formatter, a logger with named sections, an endpoint
  type, the grammar of route patterns and the HTTP and HTTPS servers, whose workers read requests
  from a connection and hand them to a router.  burl turns its command line into a configuration,
  a TLS context and a generator of requests; its main coroutine draws requests from the
  generator, waits for a slot in a task group and starts a transfer in it.  A transfer normalizes
  the URL, opens the output, connects (directly, through an HTTP or SOCKS5 proxy or a Unix
  socket), sends the request, follows redirects with the cookie jar, reads the body into the
  output through a sink and a rate-limited stream, and is retried after some errors.  The \<^verbatim>\<open>get\<close>
  client is a chain of callbacks that follows redirects; the \<^verbatim>\<open>jsonrpc\<close> client makes typed calls
  over one connection; \<^verbatim>\<open>visit\<close> repeats a connection; the example server runs an HTTP and an HTTPS
  server.

  \<^bold>\<open>Conventions.\<close>  A function that may throw returns \<open>exn + 'a\<close>, with \<open>Inl\<close> the exception; where the
  code has changed something before it throws, that state is part of the result.  Behaviour the
  language leaves undefined is the exception \<open>undefined_behaviour\<close> with its reason.  Machine
  integers are words of their width.  An asynchronous operation is a state with outstanding
  completions and a partial step for each of them; a coroutine that awaits one thing after another
  takes what the awaits bring as an argument (a list of rounds, chunks or attempts), and a list
  that is used up leaves it waiting.  Files, the standard streams and the network are explicit
  (\<open>world\<close>, \<open>net\<close>).  Clock readings are arguments.

  \<^bold>\<open>Shared theories.\<close>
  \<^item> \<open>Prelude\<close>: type names, results, lemmas on lists, maps and words.
  \<^item> \<open>Except\<close>: the exceptions (\<^verbatim>\<open>detail/except.cpp\<close>), error codes and the two error categories
    (\<^verbatim>\<open>error.cpp\<close> of the library and of burl).
  \<^item> \<open>Url_View\<close>, \<open>Url_Grammar\<close>, \<open>Http_Message\<close>: what the code uses of Boost.URL and Boost.Http.  The
    grammar engine, a parsed URL and the request object are arguments of the definitions; the
    locales \<open>url_grammar\<close> and \<open>http_message\<close> state the documented laws of the engine and of the
    request object, and reference implementations (\<open>ref_gparse\<close>, \<open>ref_ops\<close>) interpret them.
    \<open>Http_Message\<close> also models burl's body variant (\<^verbatim>\<open>message.cpp\<close>).
  \<^item> \<open>Completion_System\<close>: the locale of operations that end, an invariant, a bound that every
    completion lowers and an enabled completion until the end; it gives that executions are
    bounded, never stuck and can be finished.  It is interpreted for the request operation,
    for a whole run of burl and for the \<^verbatim>\<open>get\<close> session.

  \<^bold>\<open>The library.\<close>
  \<^item> \<open>Format\<close> (\<^verbatim>\<open>format.hpp\<close>): the scanner with its state; it refines a recursive reading of the
    format string, errors and partial output included.
  \<^item> \<open>Logger\<close> (\<^verbatim>\<open>logger.cpp\<close>, \<^verbatim>\<open>log_service.cpp\<close>): sections as shared objects behind a hash map and a
    vector.  The locale \<open>section_registry\<close> is interpreted for the registry and for the service:
    two requests give the same section exactly when they name the same one.
  \<^item> \<open>Endpoint\<close> (\<^verbatim>\<open>endpoint.cpp\<close>): the tagged union; no operation touches a dead member.
  \<^item> \<open>Route_Rule\<close> (\<^verbatim>\<open>route_rule.hpp\<close>): \<open>stable_string\<close> over a heap of arrays, with memory safety in
    every reachable state, and the rules, with printing and parsing as inverses.  The locale
    \<open>url_charsets\<close> states the scanning functions of Boost.URL.
  \<^item> \<open>Http_Worker\<close>, \<open>Http_Server\<close> (\<^verbatim>\<open>http_worker.cpp\<close>, \<^verbatim>\<open>http_server.cpp\<close>, \<^verbatim>\<open>https_server.cpp\<close>): the
    construction of the servers and their workers, the request loop, the sessions, and the
    connections a worker serves one after another; every request is dispatched with its own
    parameters and clean data, and the TLS stream lives exactly as long as its session.

  \<^bold>\<open>burl\<close> (\<^verbatim>\<open>src/example/client/burl\<close>).
  \<^item> \<open>Burl_Config\<close>, \<open>Options\<close>, \<open>Parse_Args\<close>, \<open>Parse_Args_Proofs\<close>, \<open>Option_Values\<close>, \<open>Request_List\<close>,
    \<open>Option_Table\<close> (\<^verbatim>\<open>options.hpp\<close>, \<^verbatim>\<open>options.cpp\<close>): every option that is read is declared with its type
    and width, the configuration is consistent, the TLS context enables exactly
    the versions asked for, and the generator delivers every expansion of every URL in order with
    the outputs and uploads paired by position.  The copies of \<^verbatim>\<open>effective_port\<close>, \<^verbatim>\<open>quoted_string\<close> and
    \<^verbatim>\<open>unquote_string\<close> in \<^verbatim>\<open>options.cpp\<close> have the text of those in \<^verbatim>\<open>connect.cpp\<close> and \<^verbatim>\<open>utils.cpp\<close>, whose
    definitions are used for both.  The locale \<open>option_interface\<close> states what is
    used of Boost.URL and OpenSSL.
  \<^item> \<open>Glob\<close> (\<^verbatim>\<open>glob.cpp\<close>): the generators, the pattern grammar, the closure that enumerates the
    combinations and the interpolation of tokens.
  \<^item> \<open>Cookie\<close> (\<^verbatim>\<open>cookie.cpp\<close>): parsing, matching, storing, sending and saving of cookies.
  \<^item> \<open>Base64\<close>, \<open>Utils\<close> (\<^verbatim>\<open>base64.cpp\<close>, \<^verbatim>\<open>utils.cpp\<close>, \<^verbatim>\<open>mime_type.cpp\<close>), \<open>Progress_Meter\<close>
    (\<^verbatim>\<open>progress_meter.cpp\<close>), \<open>Any_Iostream\<close> (\<^verbatim>\<open>any_iostream.cpp\<close>).
  \<^item> \<open>Any_Stream\<close>, \<open>Burl_Stream\<close> (\<^verbatim>\<open>any_stream.hpp\<close>, and \<^verbatim>\<open>connect_to\<close> of \<^verbatim>\<open>main.cpp\<close>): the allowances of the
    rate-limited stream, with the locale \<open>rate_limiter\<close> for reading and writing, its shutdown, and
    that every new connection of a transfer keeps to the configured limits.
  \<^item> \<open>Task_Group\<close> (\<^verbatim>\<open>task_group.hpp\<close>): a transition system over starts, resumptions, cancellations and
    completions; the limit holds in every reachable state and no wake-up is lost.
  \<^item> \<open>Request_Op\<close> (\<^verbatim>\<open>request.hpp\<close>): the two branches of a request that waits for a 100 response, for
    every order of completions.
  \<^item> \<open>Connect\<close>, \<open>Connect_Proofs\<close> (\<^verbatim>\<open>connect.cpp\<close>): what is resolved, connected to, sent and checked,
    and the SOCKS5 messages byte by byte.
  \<^item> \<open>Burl_Request\<close>, \<open>Burl_Request_Proofs\<close> (\<^verbatim>\<open>main.cpp\<close>: \<^verbatim>\<open>create_request\<close>, the redirect loop of
    \<^verbatim>\<open>perform_request\<close>, \<^verbatim>\<open>retry\<close>): credentials and cookies never reach an origin they were not meant
    for, redirects and retries are bounded.
  \<^item> \<open>Burl_Transfer\<close>, \<open>Burl_Transfer_Proofs\<close>, \<open>Burl_Retry\<close> (\<^verbatim>\<open>main.cpp\<close>: the whole of
    \<^verbatim>\<open>perform_request\<close>, and \<^verbatim>\<open>retry\<close> around it): the bytes a transfer and its retries leave in the
    files (also when a server names the file), the removal of partial output and what it misses,
    the names servers may choose, the guard of a terminal.
  \<^item> \<open>Burl_Main\<close> (\<^verbatim>\<open>main.cpp\<close>: \<^verbatim>\<open>co_main\<close>): header file, cookie files and jar; cookies live on from run
    to run.
  \<^item> \<open>Burl_Driver\<close>, \<open>Burl_Driver_Proofs\<close> (\<^verbatim>\<open>main.cpp\<close>: the loop of \<^verbatim>\<open>co_main\<close>, \<^verbatim>\<open>main\<close>): the generator, the
    task group, the transfers and a signal as one transition system; all requests are started in
    order, never too many at once, the run ends, and its status does not depend on the transfers.

  \<^bold>\<open>The other programs.\<close>
  \<^item> \<open>Get_Session\<close>, \<open>Get_Session_Proofs\<close> (\<^verbatim>\<open>client/get/main.cpp\<close>): the session over its completions; where
    requests go, and that the session ends.  The hypothesis \<open>origin_faithful\<close> states that equal
    origins that are not empty mean the same scheme, host and port; of URLs without an authority,
    whose origin is empty, nothing is assumed or claimed about the connection.
  \<^item> \<open>Jsonrpc\<close> (\<^verbatim>\<open>client/jsonrpc/jsonrpc\<close>): the client's calls, identifiers, answers and connection.
  \<^item> \<open>Eth_Client\<close>, \<open>Eth_Client_Proofs\<close> (\<^verbatim>\<open>client/jsonrpc/main.cpp\<close>, \<^verbatim>\<open>eth_methods.hpp\<close>): the program around
    that client as a monad of state and exceptions; when it succeeds, what it has asked for then
    and what it has printed.
  \<^item> \<open>Visit\<close> (\<^verbatim>\<open>client/visit/main.cpp\<close>), \<open>Server_Main\<close> (\<^verbatim>\<open>server/main.cpp\<close>).

  This theory composes the command line with connecting, with the request that is built and with
  the run.

  \<^bold>\<open>Bounds.\<close>  All loops of the code are total functions on what they are given, with two exceptions.
  The closure of a glob is a \<^theory_text>\<open>partial_function\<close>, since a range whose step wraps around never ends;
  that it returns for finite generators is proved.  The loops that await (redirects, retries,
  completions) consume finite lists of outcomes, and it is proved how many outcomes are enough:
  one more than the redirects allowed, one more than the retries allowed, five completions for a
  request, 307 for a \<^verbatim>\<open>get\<close> session, four for each request and four more for a run of burl.

  \<^bold>\<open>Not modelled.\<close>  Boost.Asio, Boost.Http, Boost.URL, Boost.JSON,
  Boost.Program_options, corosio, OpenSSL and libpsl are other projects; they enter as arguments
  or as the completions they deliver.  Within the repository: the text of progress reports and
  \<^verbatim>\<open>format_size\<close>, which computes with floating-point logarithms; the installation of parser,
  serializer and decoder services; timeouts as such (an expired one is an outcome of the await it
  ends); the order in which transfers that run at the same time write to shared files and to the
  cookie jar; Windows root certificates; the fixed certificate of the example server;
  \<^verbatim>\<open>serve_log_admin.cpp\<close>, which is disabled by the preprocessor; \<^verbatim>\<open>segs.hpp\<close>, which declares a function
  without a body.
\<close>

section \<open>Properties of the composed program\<close>

text \<open>The rewriting functions of a parsed command line keep the scheme of a URL.\<close>

lemma configured_rewrites:
  assumes "option_interface env" "parse_args env vm options w = Inr (pa, w')"
    and "optional_rewrite (oc_connect_to (pa_oc pa)) url = Inr u1"
    and "optional_rewrite (oc_resolve_to (pa_oc pa)) u1 = Inr u2"
  shows "u_scheme_id u2 = u_scheme_id url"
proof -
  have "u_scheme_id u1 = u_scheme_id url"
    using assms(3) parse_args_rewrites(1) [OF assms(2)] option_interface.connect_to_scheme [OF assms(1)]
    by (auto simp: optional_rewrite_def)
  moreover have "u_scheme_id u2 = u_scheme_id u1"
    using assms(4) parse_args_rewrites(2) [OF assms(2)] option_interface.resolve_to_scheme [OF assms(1)]
    by (auto simp: optional_rewrite_def)
  ultimately show ?thesis by simp
qed

text \<open>
  C3. Whom the client talks to: with every command line, a connection to an https URL ends with a
  TLS handshake whose server name and certificate check are those of the host in the original
  URL, whatever \<^verbatim>\<open>--connect-to\<close>, \<^verbatim>\<open>--resolve\<close> and the proxy options make of the address, and other
  URLs get none.  With a proxy only the proxy's name is resolved; without one only addresses of
  the family that was asked for are connected to; and over a Unix socket nothing is resolved.
\<close>

theorem configured_peer:
  assumes "option_interface env" "parse_args env vm options w = Inr (pa, w')"
    and "connect ops (pa_oc pa) url s = (Inr t, s')"
  shows "\<exists>pre u2. nt_log s' = nt_log s @ pre @
      (if u_scheme_id url = scheme_https then [Sni (u_host url), Verify_host (u_host url), Handshaken] else []) \<and>
    t = (if oc_unix_socket_path (pa_oc pa) \<noteq> []
         then (if u_scheme_id url = scheme_https then Tls_unix else Plain_unix)
         else (if u_scheme_id url = scheme_https then Tls_tcp else Plain_tcp)) \<and>
    (if oc_unix_socket_path (pa_oc pa) \<noteq> [] then pre = [Unix_connected (oc_unix_socket_path (pa_oc pa))]
     else list_all (tcp_act (pa_oc pa) u2) pre)"
  by (rule connect_peer [OF assms(3) configured_rewrites [OF assms(1,2)]])

theorem configured_peer_witness:
  "\<exists>t s' pre. connect ref_ops ex_config
      (url_blank\<lparr>u_scheme_id := scheme_https, u_scheme := ''https'', u_host := ''a.io''\<rparr>) ex_net = (Inr t, s') \<and>
     nt_log s' = pre @ [Sni ''a.io'', Verify_host ''a.io'', Handshaken]"
proof -
  let ?url = "url_blank\<lparr>u_scheme_id := scheme_https, u_scheme := ''https'', u_host := ''a.io''\<rparr>"
  obtain pa where pa: "parse_args ref_env ex_vm [(''url'', []), (''output'', [''x''])] ex_world = Inr (pa, ex_world)"
      "pa_oc pa = ex_config"
    using ex_vm_parses by blast
  have "\<exists>s'. connect ref_ops ex_config ?url ex_net = (Inr Tls_tcp, s')"
    unfolding connect_def connect_tcp_def finish_transport_def perform_tls_handshake_def
    by (simp add: ex_config_fields optional_rewrite_def co_bind_def co_lift_def effective_port_def async_resolve_def
        log_act_def async_connect_def admits_def ex_net_def url_blank_def co_return_def Let_def)
  then obtain s' where c: "connect ref_ops ex_config ?url ex_net = (Inr Tls_tcp, s')" by blast
  from configured_peer [OF refenv.option_interface_axioms pa(1), unfolded pa(2), OF c]
  show ?thesis using c by (auto simp: ex_net_def)
qed

lemma co_main_begins:
  assumes "co_main_begin env vm options w = Inr (pa, st, s, w1)"
  shows "s = run_begin (oe_gparse env) (pa_oc pa) (pa_requests pa)" and "oc_parallel_max (pa_oc pa) \<noteq> 0"
    and "unat (oc_parallel_max (pa_oc pa)) \<le> 300"
proof -
  from assms obtain pa0 w0 where pa0: "parse_args env vm options w = Inr (pa0, w0)"
      "(case prepare_run (oe_gparse env) (pa_oc pa0) w0 of (Inl e, _) \<Rightarrow> Inl e
        | (Inr st, w2) \<Rightarrow> Inr (pa0, st, run_begin (oe_gparse env) (pa_oc pa0) (pa_requests pa0), w2)) = Inr (pa, st, s, w1)"
    by (auto simp: co_main_begin_def rbind_Inr_iff)
  then have pa: "parse_args env vm options w = Inr (pa, w0)" "s = run_begin (oe_gparse env) (pa_oc pa) (pa_requests pa)"
    by (auto split: prod.splits sum.splits)
  then obtain oc where "parse_settings env vm = Inr oc" "parse_content env vm oc w = Inr (pa_oc pa, w0)"
    by (auto simp: parse_args_def rbind_Inr_iff rmap_Inr_iff split: option.splits if_splits)
  then have "oc_wf (pa_oc pa)" using parse_settings_wf parse_content_wf by blast
  then have "oc_parallel_max (pa_oc pa) \<noteq> 0" "oc_parallel_max (pa_oc pa) \<le> 300" by (auto simp: oc_wf_def)
  moreover have "unat (300 :: u16) = 300" by simp
  ultimately show "oc_parallel_max (pa_oc pa) \<noteq> 0" "unat (oc_parallel_max (pa_oc pa)) \<le> 300"
    by (auto simp: word_le_nat_alt)
  show "s = run_begin (oe_gparse env) (pa_oc pa) (pa_requests pa)" by (rule pa(2))
qed

text \<open>
  C4. The transfers of a run: for every command line and every interleaving of the loop, the
  transfers and a signal, the requests are started in the order of the generator and none twice,
  at most \<^verbatim>\<open>parallel_max\<close> transfers (and never more than 300) run at once, and the run is over only
  when all that were started have ended.  Unless the user interrupts it or a transfer fails under
  \<^verbatim>\<open>--fail-early\<close>, every request was started then.
\<close>

theorem configured_run:
  assumes "co_main_begin env vm options w = Inr (pa, st, s0, w1)"
    and "list_all2 (info_texts (oe_gparse env)) (pa_requests pa) outss"
    and "run_steps (oe_gparse env) (pa_oc pa) s0 es = Some s"
  shows "distinct (map fst (dr_started s)) \<and>
    length (dr_started s) \<le> length (dr_ended s) + unat (oc_parallel_max (pa_oc pa)) \<and>
    unat (oc_parallel_max (pa_oc pa)) \<le> 300 \<and>
    (\<exists>rest. all_requests (oe_gparse env) (pa_requests pa) outss = map snd (dr_started s) @ rest \<and>
      (dr_phase s = Run_over \<longrightarrow>
         distinct (map fst (dr_ended s)) \<and> fst ` set (dr_ended s) = fst ` set (dr_started s) \<and>
         (rest = [] \<or> dr_signalled s \<or> oc_failearly (pa_oc pa) \<and> (\<exists>t. (t, True) \<in> set (dr_ended s)))))"
  using run_transfers [OF assms(2) co_main_begins(2) [OF assms(1)] assms(3) [unfolded co_main_begins(1) [OF assms(1)]]]
    co_main_begins(3) [OF assms(1)] by blast

text \<open>
  C16. A run comes to an end: whatever the command line, no execution has more than four completions
  for each request and four more; as long as it is not over a completion is outstanding, so no
  slot and no join is waited for in vain; and it can be brought to its end from wherever it is.
\<close>

theorem configured_run_ends:
  assumes "co_main_begin env vm options w = Inr (pa, st, s0, w1)"
    and "list_all2 (info_texts (oe_gparse env)) (pa_requests pa) outss"
    and "run_steps (oe_gparse env) (pa_oc pa) s0 es = Some s"
  shows "length es \<le> 4 * length (all_requests (oe_gparse env) (pa_requests pa) outss) + 4 \<and>
    (dr_phase s = Run_over \<or> (\<exists>e. run_step (oe_gparse env) (pa_oc pa) s e \<noteq> None)) \<and>
    (\<exists>es' s'. run_steps (oe_gparse env) (pa_oc pa) s es' = Some s' \<and> dr_phase s' = Run_over)"
  by (rule run_comes_to_end [OF assms(2) co_main_begins(2) [OF assms(1)] assms(3) [unfolded co_main_begins(1) [OF assms(1)]]])

text \<open>Two URLs on the command line, in the reversed vector.\<close>

definition ex_two :: "request_info list" where
  "ex_two = [\<lparr>ri_url_gen = Oneshot (Some ''http://b.io''), ri_output = [], ri_input = [], ri_remotename = False\<rparr>,
     \<lparr>ri_url_gen = Oneshot (Some ''http://a.io''), ri_output = ''x'', ri_input = [], ri_remotename = False\<rparr>]"

definition ex_two_texts :: "glob_result list list" where
  "ex_two_texts = [[\<lparr>gr_result = ''http://b.io'', gr_tokens = []\<rparr>], [\<lparr>gr_result = ''http://a.io'', gr_tokens = []\<rparr>]]"

lemma ex_interpolate: "interpolate ref_gparse [] [] = Inr []" "interpolate ref_gparse [] ''x'' = Inr ''x''"
  by (simp_all add: interpolate_def ref_gparse_def interpolate_rule_def ref_range.simps Let_def mk_tuple_def
      interpolate_piece_def)

lemma ex_two_yields: "list_all2 (info_texts ref_gparse) ex_two ex_two_texts"
  by (simp add: ex_two_def ex_two_texts_def info_texts_def url_texts_def ex_interpolate)

lemma ex_two_begins:
  "\<exists>pa st. co_main_begin ref_env ex_vm [(''url'', []), (''output'', [''x''])] ex_world =
       Inr (pa, st, run_begin ref_gparse ex_config ex_two, ex_world) \<and> pa_oc pa = ex_config \<and> pa_requests pa = ex_two"
proof -
  obtain pa where pa: "parse_args ref_env ex_vm [(''url'', []), (''output'', [''x''])] ex_world = Inr (pa, ex_world)"
      "pa_oc pa = ex_config"
    using ex_vm_parses by blast
  have gp: "oe_gparse ref_env = ref_gparse" by (simp add: ref_env_def)
  have "oc_globoff (base_config ex_vm)"
    by (simp add: base_config_def set_strings_def set_bools_def set_durations_def operation_config_default_def
        set_bool_def set_string_def ex_vm_def vm_empty_def)
  moreover have "vm_strings ex_vm ''url'' = Some [''http://a.io'', ''http://b.io'']" by (simp add: ex_vm_def)
  ultimately have "parse_requests ref_gparse ex_vm [(''url'', []), (''output'', [''x''])] True
      [''http://a.io'', ''http://b.io''] = Inr (pa_requests pa)"
    using pa(1) by (auto simp: parse_args_def rbind_Inr_iff rmap_Inr_iff ex_vm_settings gp split: if_splits)
  then have "pa_requests pa = ex_two" by (simp add: parse_requests_def ex_vm_def vm_empty_def ex_two_def)
  moreover have "oc_headerfile ex_config = []" "\<not> oc_enable_cookies ex_config" "oc_cookiefiles ex_config = []"
    by (simp_all add: ex_config_def base_config_def set_strings_def set_bools_def set_durations_def
        operation_config_default_def set_bool_def set_string_def ex_vm_def vm_empty_def)
  then obtain st where "prepare_run ref_gparse ex_config ex_world = (Inr st, ex_world)"
    by (simp add: prepare_run_def open_header_file_def)
  ultimately show ?thesis using pa gp by (intro exI [of _ pa] exI [of _ st]) (simp add: co_main_begin_def)
qed

theorem configured_run_witness:
  "\<exists>s. run_steps ref_gparse ex_config (run_begin ref_gparse ex_config ex_two) [Resumed] = Some s \<and>
     map snd (dr_started s) = [\<lparr>ro_url = ''http://a.io'', ro_output = ''x'', ro_input = [], ro_remotename = False\<rparr>] \<and>
     dr_phase s \<noteq> Run_over"
proof -
  obtain pa st where b: "co_main_begin ref_env ex_vm [(''url'', []), (''output'', [''x''])] ex_world =
       Inr (pa, st, run_begin ref_gparse ex_config ex_two, ex_world)" "pa_oc pa = ex_config" "pa_requests pa = ex_two"
    using ex_two_begins by blast
  have m: "oc_parallel_max ex_config = 1"
    by (simp add: ex_config_def base_fields)
  obtain s where s: "run_steps ref_gparse ex_config (run_begin ref_gparse ex_config ex_two) [Resumed] = Some s"
      "length (dr_started s) = 1" "dr_phase s \<noteq> Run_over"
    by (simp add: run_begin_def pull_def ex_two_def url_gen_call_def ex_interpolate m tg_new_def tg_start_adapt dr_busy_def
        on_resume_def tg_resume_adapt adapt_result_def registered_def Let_def)
  have gp: "oe_gparse ref_env = ref_gparse" by (simp add: ref_env_def)
  from configured_run [OF b(1), unfolded b(2,3) gp, OF ex_two_yields s(1)] obtain rest where
    "all_requests ref_gparse ex_two ex_two_texts = map snd (dr_started s) @ rest" by blast
  then have "map snd (dr_started s) = take 1 (all_requests ref_gparse ex_two ex_two_texts)" using s(2) by simp
  then show ?thesis using s by (simp add: ex_two_def ex_two_texts_def all_requests_def request_of_def ex_interpolate)
qed

theorem configured_run_ends_witness:
  "\<exists>es s. run_steps ref_gparse ex_config (run_begin ref_gparse ex_config ex_two) es = Some s \<and> dr_phase s = Run_over"
proof -
  obtain pa st where b: "co_main_begin ref_env ex_vm [(''url'', []), (''output'', [''x''])] ex_world =
       Inr (pa, st, run_begin ref_gparse ex_config ex_two, ex_world)" "pa_oc pa = ex_config" "pa_requests pa = ex_two"
    using ex_two_begins by blast
  have gp: "oe_gparse ref_env = ref_gparse" by (simp add: ref_env_def)
  show ?thesis using configured_run_ends [OF b(1), unfolded b(2,3) gp, OF ex_two_yields, of "[]"] by simp
qed

text \<open>A field of a request after the user's removals and header lines.\<close>

definition user_field :: "operation_config \<Rightarrow> string \<Rightarrow> string \<Rightarrow> string option" where
  "user_field oc f v =
     (if list_ex (ci_equal f) (oc_omitheaders oc) then None
      else case last_header f (oc_headers oc) of Some u \<Rightarrow> Some u | None \<Rightarrow> Some v)"

lemma create_request_user:
  assumes "http_message ops" "create_request ops brotli zlib oc msg url = Inr r"
  shows "q_method ops r = q_method ops (base_request ops brotli zlib oc msg url)"
    and "q_find ops f (base_request ops brotli zlib oc msg url) = Some v \<Longrightarrow> q_find ops f r = user_field oc f v"
proof -
  have m1: "q_method ops (foldl (\<lambda>r (n, v). q_set ops n v r) r0 hs) = q_method ops r0" for r0 hs
    by (induction hs arbitrary: r0) (auto simp: http_message.method_laws [OF assms(1)])
  have m2: "q_method ops (foldl (\<lambda>r n. q_erase ops n r) r0 ns) = q_method ops r0" for r0 ns
    by (induction ns arbitrary: r0) (simp_all add: http_message.method_laws [OF assms(1)])
  have r: "r = foldl (\<lambda>r n. q_erase ops n r)
      (foldl (\<lambda>r (n, v). q_set ops n v r) (base_request ops brotli zlib oc msg url) (oc_headers oc)) (oc_omitheaders oc)"
    using assms(2) by (simp add: create_request_def split: if_splits)
  show "q_method ops r = q_method ops (base_request ops brotli zlib oc msg url)" by (simp add: r m1 m2)
  show "q_find ops f r = user_field oc f v" if "q_find ops f (base_request ops brotli zlib oc msg url) = Some v"
    unfolding r user_field_def http_message.find_fold_erase [OF assms(1)] http_message.find_fold_set [OF assms(1)] that ..
qed

text \<open>
  C13. A form given with the data options is posted: unless it is to go into the query, the request
  that is built at the start of a transfer has the method POST, whatever \<^verbatim>\<open>--request\<close> or
  \<^verbatim>\<open>--head\<close> asked for, and the form is the body that is sent with it.  Its type and its length
  are in the header, unless the user's own header lines set these fields, when the last of them
  counts, or remove them.  Only credentials in the URL where they are prohibited make the
  request fail.
\<close>

theorem form_is_posted:
  assumes "http_message ops" "parse_args env vm options w = Inr (pa, w')"
    and "collect_data env vm w = Inr (Some d, w1)" "\<not> vm_flag vm ''get''"
  shows "let oc = pa_oc pa in
    case create_request ops brotli zlib oc (oc_msg oc) url of
      Inl _ \<Rightarrow> oc_disallow_username_in_url oc \<and> u_has_userinfo url
    | Inr r \<Rightarrow>
        q_method ops r = ''POST'' \<and> snd (start_serializer (oc_msg oc) r) = Some d \<and>
        q_find ops ''Content-Type'' r = user_field oc ''Content-Type'' ''application/x-www-form-urlencoded'' \<and>
        q_find ops ''Content-Length'' r = user_field oc ''Content-Length'' (show_nat (length d))"
proof -
  have ci: "\<not> ci_equal ''Content-Type'' ''Content-Length''" "\<not> ci_equal ''Content-Type'' ''Expect''"
      "\<not> ci_equal ''Content-Length'' ''Expect''"
    by code_simp+
  have ci2: "\<not> ci_equal ''Content-Type'' ''Range''" "\<not> ci_equal ''Content-Type'' ''Referer''"
      "\<not> ci_equal ''Content-Type'' ''Authorization''" "\<not> ci_equal ''Content-Type'' ''Accept-Encoding''"
      "\<not> ci_equal ''Content-Length'' ''Range''" "\<not> ci_equal ''Content-Length'' ''Referer''"
      "\<not> ci_equal ''Content-Length'' ''Authorization''" "\<not> ci_equal ''Content-Length'' ''Accept-Encoding''"
    by code_simp+
  let ?msg = "String_body d ''application/x-www-form-urlencoded''"
  let ?b = "base_request ops brotli zlib (pa_oc pa) ?msg url"
  obtain r0 where r0: "q_method ops ?b = q_method ops (set_headers ops ?msg r0)"
      "\<And>f. \<not> ci_equal f ''Range'' \<Longrightarrow> \<not> ci_equal f ''Referer'' \<Longrightarrow> \<not> ci_equal f ''Authorization'' \<Longrightarrow>
        \<not> ci_equal f ''Accept-Encoding'' \<Longrightarrow> q_find ops f ?b = q_find ops f (set_headers ops ?msg r0)"
    using http_message.base_request_body [OF assms(1)] by blast
  have "q_method ops ?b = ''POST''" "q_find ops ''Content-Type'' ?b = Some ''application/x-www-form-urlencoded''"
      "q_find ops ''Content-Length'' ?b = Some (show_nat (length d))"
    by (simp_all add: r0 ci2)
      (simp_all add: set_headers_def sb_method_def sb_content_length_def Let_def
        http_message.find_laws [OF assms(1)] http_message.method_laws [OF assms(1)] ci)
  note base = this
  have refused: "create_request ops brotli zlib (pa_oc pa) ?msg url = Inl e \<Longrightarrow>
      oc_disallow_username_in_url (pa_oc pa) \<and> u_has_userinfo url" for e
    by (auto simp: create_request_def split: if_splits)
  note user = create_request_user [OF assms(1), of brotli zlib "pa_oc pa" ?msg url]
  show ?thesis
    unfolding Let_def parse_args_body [OF assms(2-4)]
    by (cases "create_request ops brotli zlib (pa_oc pa) ?msg url")
      (use refused user base in \<open>auto simp: start_serializer_def\<close>)
qed

theorem form_is_posted_witness:
  "\<exists>r. create_request ref_ops False False ex_config (oc_msg ex_config) url_blank = Inr r \<and>
     q_method ref_ops r = ''POST'' \<and> q_find ref_ops ''Content-Length'' r = Some ''3''"
proof -
  obtain pa where pa: "parse_args ref_env ex_vm [(''url'', []), (''output'', [''x''])] ex_world = Inr (pa, ex_world)"
      "pa_oc pa = ex_config"
    using ex_vm_parses by blast
  have get: "\<not> vm_flag ex_vm ''get''" by (simp add: ex_vm_def vm_empty_def)
  have oc: "\<not> oc_disallow_username_in_url ex_config" "oc_omitheaders ex_config = []" "oc_headers ex_config = []"
    by (simp_all add: ex_config_def base_config_def set_strings_def set_bools_def set_durations_def
        operation_config_default_def set_bool_def set_string_def ex_vm_def vm_empty_def)
  then obtain r where r: "create_request ref_ops False False ex_config (oc_msg ex_config) url_blank = Inr r"
    by (simp add: create_request_def)
  have "user_field ex_config ''Content-Length'' (show_nat (length ''a=1'')) = Some ''3''"
    unfolding user_field_def oc last_header_def by code_simp
  then show ?thesis
    using r form_is_posted [OF refmsg.http_message_axioms pa(1) ex_vm_data get, where brotli = False and zlib = False
        and url = url_blank] pa(2)
    by (simp add: Let_def)
qed

end
